(* ===== verification/Prelude.thy ===== *)
theory Prelude
  imports Main "HOL-Library.Signed_Division" "HOL-Library.AList" "HOL-Library.Monad_Syntax"
begin

text \<open>
  Shared vocabulary of the development.

  \<^item> Rust's fixed-width integers. An unsigned value is a \<^typ>\<open>nat\<close>, a signed one an
    \<^typ>\<open>int\<close>; the width is an argument of the checked and saturating operations, so
    that overflow is written out where the code can meet it. Signed \<open>/\<close> and \<open>%\<close>
    truncate towards zero: they are \<open>sdiv\<close> and \<open>smod\<close>.
  \<^item> Panics and results. A function that may panic returns an option, \<^const>\<open>None\<close> being
    the panic; a \<^verbatim>\<open>Result<T, E>\<close> is a sum \<open>'e + 'a\<close> with the error on the left.
  \<^item> Containers. An insertion-ordered map (\<^verbatim>\<open>IndexMap\<close>) is an association list under
    \<^const>\<open>AList.update\<close> and \<^const>\<open>AList.delete\<close>; a \<^verbatim>\<open>BTreeMap\<close> is an
    association list kept strictly sorted by the rank of its keys (theory \<open>Ordered_Map\<close>).
  \<^item> Machines: running a list of operations, and the locales through which the components
    obtain their reachability theorems.
\<close>

named_theorems machine_int \<open>definitions of the fixed-width integer operations\<close>

section \<open>Fixed-width integers\<close>

definition u_max :: "nat \<Rightarrow> nat" where
  "u_max w = 2 ^ w - 1"

definition i_max :: "nat \<Rightarrow> int" where
  "i_max w = 2 ^ (w - 1) - 1"

definition i_min :: "nat \<Rightarrow> int" where
  "i_min w = - (2 ^ (w - 1))"

definition in_i :: "nat \<Rightarrow> int \<Rightarrow> bool" where
  "in_i w x \<longleftrightarrow> i_min w \<le> x \<and> x \<le> i_max w"

definition checked_add_u :: "nat \<Rightarrow> nat \<Rightarrow> nat \<Rightarrow> nat option" where
  "checked_add_u w a b = (if a + b \<le> u_max w then Some (a + b) else None)"

definition checked_sub_u :: "nat \<Rightarrow> nat \<Rightarrow> nat option" where
  "checked_sub_u a b = (if b \<le> a then Some (a - b) else None)"

definition checked_mul_u :: "nat \<Rightarrow> nat \<Rightarrow> nat \<Rightarrow> nat option" where
  "checked_mul_u w a b = (if a * b \<le> u_max w then Some (a * b) else None)"

definition saturating_add_u :: "nat \<Rightarrow> nat \<Rightarrow> nat \<Rightarrow> nat" where
  "saturating_add_u w a b = min (a + b) (u_max w)"

definition saturating_sub_u :: "nat \<Rightarrow> nat \<Rightarrow> nat" where
  "saturating_sub_u a b = (if b \<le> a then a - b else 0)"

definition checked_i :: "nat \<Rightarrow> int \<Rightarrow> int option" where
  "checked_i w x = (if in_i w x then Some x else None)"

definition checked_add_i :: "nat \<Rightarrow> int \<Rightarrow> int \<Rightarrow> int option" where
  "checked_add_i w a b = checked_i w (a + b)"

definition checked_sub_i :: "nat \<Rightarrow> int \<Rightarrow> int \<Rightarrow> int option" where
  "checked_sub_i w a b = checked_i w (a - b)"

definition checked_mul_i :: "nat \<Rightarrow> int \<Rightarrow> int \<Rightarrow> int option" where
  "checked_mul_i w a b = checked_i w (a * b)"

definition try_into_u :: "nat \<Rightarrow> int \<Rightarrow> nat option" where
  "try_into_u w x = (if 0 \<le> x \<and> x \<le> int (u_max w) then Some (nat x) else None)"

definition try_into_i :: "nat \<Rightarrow> int \<Rightarrow> int option" where
  "try_into_i w x = checked_i w x"

definition wrap_i :: "nat \<Rightarrow> int \<Rightarrow> int" where
  "wrap_i w x = (x + 2 ^ (w - 1)) mod 2 ^ w - 2 ^ (w - 1)"

definition clamp_i :: "int \<Rightarrow> int \<Rightarrow> int \<Rightarrow> int" where
  "clamp_i x lo hi = (if x < lo then lo else if x > hi then hi else x)"

lemmas checked_defs [machine_int] =
  checked_add_u_def checked_sub_u_def checked_mul_u_def saturating_add_u_def
  saturating_sub_u_def checked_i_def checked_add_i_def checked_sub_i_def checked_mul_i_def
  try_into_u_def try_into_i_def in_i_def

lemma u_max_64 [simp]: "u_max 64 = 18446744073709551615"
  by (simp add: u_max_def)

lemma u_max_128 [simp]: "u_max 128 = 340282366920938463463374607431768211455"
  by (simp add: u_max_def)

lemma i_max_64 [simp]: "i_max 64 = 9223372036854775807"
  by (simp add: i_max_def)

lemma i_min_64 [simp]: "i_min 64 = - 9223372036854775808"
  by (simp add: i_min_def)

lemma i_max_128 [simp]: "i_max 128 = 170141183460469231731687303715884105727"
  by (simp add: i_max_def)

lemma i_min_128 [simp]: "i_min 128 = - 170141183460469231731687303715884105728"
  by (simp add: i_min_def)

lemma saturating_sub_u_eq [simp]: "saturating_sub_u a b = a - b"
  by (simp add: saturating_sub_u_def)

lemma checked_add_u_Some [simp]:
  "checked_add_u w a b = Some c \<longleftrightarrow> a + b \<le> u_max w \<and> c = a + b"
  by (auto simp: checked_add_u_def)

lemma checked_sub_u_Some [simp]: "checked_sub_u a b = Some c \<longleftrightarrow> b \<le> a \<and> c = a - b"
  by (auto simp: checked_sub_u_def)

lemma checked_i_Some [simp]: "checked_i w x = Some y \<longleftrightarrow> in_i w x \<and> y = x"
  by (auto simp: checked_i_def)

lemma in_i_zero [simp]: "in_i w 0"
  by (simp add: in_i_def i_min_def i_max_def)

lemma wrap_i_id: "0 < w \<Longrightarrow> in_i w x \<Longrightarrow> wrap_i w x = x"
proof -
  assume w: "0 < w" and x: "in_i w x"
  have "(2::int) ^ w = 2 * 2 ^ (w - 1)" using w by (cases w) simp_all
  with x have "0 \<le> x + 2 ^ (w - 1)" "x + 2 ^ (w - 1) < 2 ^ w"
    by (auto simp: in_i_def i_min_def i_max_def)
  then show ?thesis by (simp add: wrap_i_def)
qed

lemma clamp_i_bounds: "lo \<le> hi \<Longrightarrow> lo \<le> clamp_i x lo hi \<and> clamp_i x lo hi \<le> hi"
  by (auto simp: clamp_i_def)

text \<open>Truncating division by a positive divisor, in terms of the remainder's sign.\<close>

lemma smod_bounds:
  fixes a b :: int
  assumes "0 < b"
  shows "\<bar>a smod b\<bar> < b"
  using assms by (simp add: signed_modulo_int_def abs_mult sgn_if)

lemma sdiv_smod_eq: "(a sdiv b) * b + a smod b = (a :: int)"
proof -
  have "sgn a * (\<bar>a\<bar> div \<bar>b\<bar> * \<bar>b\<bar> + \<bar>a\<bar> mod \<bar>b\<bar>) = a"
    by (simp add: sgn_mult_abs)
  then show ?thesis
    by (simp add: signed_modulo_int_def signed_divide_int_def algebra_simps abs_sgn)
qed

lemma smod_sign:
  fixes a b :: int
  assumes "0 < b"
  shows "0 \<le> a \<Longrightarrow> 0 \<le> a smod b" and "a \<le> 0 \<Longrightarrow> a smod b \<le> 0"
  using assms by (auto simp: signed_modulo_int_def sgn_if)

section \<open>Machines\<close>

text \<open>Running a list of operations; a panic or a refused operation ends the run.\<close>

fun run_steps :: "('s \<Rightarrow> 'e \<Rightarrow> 's option) \<Rightarrow> 's \<Rightarrow> 'e list \<Rightarrow> 's option" where
  "run_steps step s [] = Some s"
| "run_steps step s (e # es) =
     (case step s e of None \<Rightarrow> None | Some s' \<Rightarrow> run_steps step s' es)"

lemma run_steps_append:
  "run_steps step s (es @ fs) =
     (case run_steps step s es of None \<Rightarrow> None | Some s' \<Rightarrow> run_steps step s' fs)"
  by (induction es arbitrary: s) (auto split: option.splits)

text \<open>A machine with an invariant that every acceptable operation keeps.\<close>

locale machine =
  fixes step :: "'s \<Rightarrow> 'e \<Rightarrow> 's option"
    and inv :: "'s \<Rightarrow> bool"
    and ok :: "'e \<Rightarrow> bool"
  assumes step_inv: "inv s \<Longrightarrow> ok e \<Longrightarrow> step s e = Some s' \<Longrightarrow> inv s'"
begin

lemma run_inv: "inv s \<Longrightarrow> list_all ok es \<Longrightarrow> run_steps step s es = Some s' \<Longrightarrow> inv s'"
  by (induction es arbitrary: s) (auto split: option.splits dest: step_inv)

end

text \<open>A machine that moreover never gets stuck on acceptable operations.\<close>

locale total_machine = machine +
  assumes step_total: "inv s \<Longrightarrow> ok e \<Longrightarrow> step s e \<noteq> None"
begin

lemma run_total: "inv s \<Longrightarrow> list_all ok es \<Longrightarrow> \<exists>s'. run_steps step s es = Some s' \<and> inv s'"
proof (induction es arbitrary: s)
  case Nil
  then show ?case by simp
next
  case (Cons e es)
  then obtain s1 where "step s e = Some s1" using step_total by fastforce
  with Cons show ?case using step_inv by auto
qed

end

text \<open>
  A machine that implements an abstract one: the abstraction of the state after a step is the
  abstract step on the abstraction of the state before.
\<close>

locale simulation = total_machine step inv ok
  for step :: "'s \<Rightarrow> 'e \<Rightarrow> 's option" and inv ok +
  fixes abstract :: "'s \<Rightarrow> 'a"
    and abstract_step :: "'a \<Rightarrow> 'e \<Rightarrow> 'a"
  assumes abstract_commutes:
    "inv s \<Longrightarrow> ok e \<Longrightarrow> step s e = Some s' \<Longrightarrow> abstract s' = abstract_step (abstract s) e"
begin

lemma run_refines:
  "inv s \<Longrightarrow> list_all ok es \<Longrightarrow>
     \<exists>s'. run_steps step s es = Some s' \<and> inv s' \<and> abstract s' = foldl abstract_step (abstract s) es"
proof (induction es arbitrary: s)
  case Nil
  then show ?case by simp
next
  case (Cons e es)
  then have e: "inv s" "ok e" and es: "list_all ok es" by simp_all
  then obtain s1 where s1: "step s e = Some s1" using step_total by blast
  from Cons.IH [OF step_inv [OF e s1] es] abstract_commutes [OF e s1] s1 show ?case by simp
qed

end

text \<open>A machine with terminal states, from which no step is possible.\<close>

locale terminal_machine =
  fixes step :: "'s \<Rightarrow> 'e \<Rightarrow> 's option"
    and terminal :: "'s \<Rightarrow> bool"
  assumes terminal_stuck: "terminal s \<Longrightarrow> step s e = None"
begin

lemma run_terminal: "terminal s \<Longrightarrow> run_steps step s es = Some s' \<Longrightarrow> es = [] \<and> s' = s"
  by (cases es) (auto simp: terminal_stuck)

lemma terminal_last:
  assumes "run_steps step s (es @ fs) = Some s'"
    and "run_steps step s es = Some t" and "terminal t"
  shows "fs = []"
  using assms run_terminal by (auto simp: run_steps_append)

end

text \<open>
  A machine on which a measure of the state never decreases: a closed property of a prefix of a
  run stays true of the whole run.
\<close>

locale monotone_machine =
  fixes step :: "'s \<Rightarrow> 'e \<Rightarrow> 's option"
    and level :: "'s \<Rightarrow> nat"
  assumes step_mono: "step s e = Some s' \<Longrightarrow> level s \<le> level s'"
begin

lemma run_mono: "run_steps step s es = Some s' \<Longrightarrow> level s \<le> level s'"
  by (induction es arbitrary: s) (auto split: option.splits dest: step_mono intro: order_trans)

end

end
