(* ===== verification/Fixed_Point.thy ===== *)
theory Fixed_Point
  imports Prelude
begin

text \<open>
  The fixed-point layer of \<^verbatim>\<open>crates/model/src/types/fixed.rs\<close>, in the default build of the
  crate (neither \<^verbatim>\<open>high-precision\<close> nor \<^verbatim>\<open>defi\<close>): every raw value is scaled by
  \<open>10\<^sup>9\<close>, prices and money are \<^verbatim>\<open>i64\<close> and quantities \<^verbatim>\<open>u64\<close>. The 128-bit
  correction and check functions exist in every build and are modelled too.

  Error messages are not modelled: an error is the constructor of
  \<^verbatim>\<open>CorrectnessError\<close> the code builds. A \<^verbatim>\<open>debug_assert!\<close> is compiled out, as in a
  release build.
\<close>

section \<open>Constants and checks\<close>

datatype correctness_error =
    PredicateViolation
  | EmptyString
  | WhitespaceString
  | NonAsciiString
  | MissingSubstring
  | EqualityMismatch
  | NotPositive
  | NegativeValue
  | InvalidValue
  | OutOfRange
  | CollectionNotEmpty
  | CollectionEmpty
  | KeyPresent
  | KeyMissing
  | MemberPresent
  | MemberMissing

definition FIXED_PRECISION :: nat where
  "FIXED_PRECISION = 9"

definition FIXED_SCALAR :: nat where
  "FIXED_SCALAR = 1000000000"

definition MAX_FLOAT_PRECISION :: nat where
  "MAX_FLOAT_PRECISION = 16"

definition POWERS_OF_10 :: "nat list" where
  "POWERS_OF_10 =
     [1, 10, 100, 1000, 10000, 100000, 1000000, 10000000, 100000000, 1000000000, 10000000000,
      100000000000, 1000000000000, 10000000000000, 100000000000000, 1000000000000000,
      10000000000000000]"

definition check_predicate_true :: "bool \<Rightarrow> correctness_error + unit" where
  "check_predicate_true p = (if \<not> p then Inl PredicateViolation else Inr ())"

definition check_predicate_false :: "bool \<Rightarrow> correctness_error + unit" where
  "check_predicate_false p = (if p then Inl PredicateViolation else Inr ())"

definition check_fixed_precision :: "nat \<Rightarrow> correctness_error + unit" where
  "check_fixed_precision precision =
     (if precision > FIXED_PRECISION then Inl PredicateViolation else Inr ())"

definition raw_scales_match :: "nat \<Rightarrow> nat \<Rightarrow> bool" where
  "raw_scales_match a b \<longleftrightarrow> max a FIXED_PRECISION = max b FIXED_PRECISION"

definition should_skip_validation :: "nat \<Rightarrow> bool" where
  "should_skip_validation precision =
     (if precision = FIXED_PRECISION then True
      else if precision > FIXED_PRECISION then True
      else False)"

section \<open>Validation of raw values\<close>

text \<open>The four check functions return an \<^verbatim>\<open>anyhow\<close> error, which carries a message only.\<close>

definition check_fixed_raw_u128 :: "nat \<Rightarrow> nat \<Rightarrow> unit + unit" where
  "check_fixed_raw_u128 raw precision =
     (if should_skip_validation precision then Inr ()
      else let scale = POWERS_OF_10 ! (FIXED_PRECISION - precision); remainder = raw mod scale
           in if remainder \<noteq> 0 then Inl () else Inr ())"

definition check_fixed_raw_u64 :: "nat \<Rightarrow> nat \<Rightarrow> unit + unit" where
  "check_fixed_raw_u64 raw precision =
     (if should_skip_validation precision then Inr ()
      else let scale = POWERS_OF_10 ! (FIXED_PRECISION - precision); remainder = raw mod scale
           in if remainder \<noteq> 0 then Inl () else Inr ())"

definition check_fixed_raw_i128 :: "int \<Rightarrow> nat \<Rightarrow> unit + unit" where
  "check_fixed_raw_i128 raw precision =
     (if should_skip_validation precision then Inr ()
      else let scale = int (POWERS_OF_10 ! (FIXED_PRECISION - precision));
               remainder = raw smod scale
           in if remainder \<noteq> 0 then Inl () else Inr ())"

definition check_fixed_raw_i64 :: "int \<Rightarrow> nat \<Rightarrow> unit + unit" where
  "check_fixed_raw_i64 raw precision =
     (if should_skip_validation precision then Inr ()
      else let scale = int (POWERS_OF_10 ! (FIXED_PRECISION - precision));
               remainder = raw smod scale
           in if remainder \<noteq> 0 then Inl () else Inr ())"

section \<open>Correction of raw values\<close>

text \<open>
  The 64-bit and the 128-bit function have the same body at two widths, so the body takes the
  width as an argument.
\<close>

definition correct_raw_u :: "nat \<Rightarrow> nat \<Rightarrow> nat \<Rightarrow> nat" where
  "correct_raw_u w raw precision =
     (if precision \<ge> FIXED_PRECISION then raw
      else let scale = POWERS_OF_10 ! (FIXED_PRECISION - precision);
               half_scale = scale div 2;
               remainder = raw mod scale
           in if remainder = 0 then raw
              else if remainder \<ge> half_scale
              then (case checked_add_u w raw (scale - remainder) of
                      Some x \<Rightarrow> x | None \<Rightarrow> raw - remainder)
              else raw - remainder)"

definition correct_raw_u128 :: "nat \<Rightarrow> nat \<Rightarrow> nat" where
  "correct_raw_u128 = correct_raw_u 128"

definition correct_raw_u64 :: "nat \<Rightarrow> nat \<Rightarrow> nat" where
  "correct_raw_u64 = correct_raw_u 64"

definition correct_raw_i :: "nat \<Rightarrow> int \<Rightarrow> nat \<Rightarrow> int" where
  "correct_raw_i w raw precision =
     (if precision \<ge> FIXED_PRECISION then raw
      else let scale = int (POWERS_OF_10 ! (FIXED_PRECISION - precision));
               half_scale = scale sdiv 2;
               remainder = raw smod scale
           in if remainder = 0 then raw
              else if raw \<ge> 0
              then (if remainder \<ge> half_scale
                    then (case checked_add_i w raw (scale - remainder) of
                            Some x \<Rightarrow> x | None \<Rightarrow> raw - remainder)
                    else raw - remainder)
              else (if \<bar>remainder\<bar> \<ge> half_scale
                    then (case checked_sub_i w raw (scale + remainder) of
                            Some x \<Rightarrow> x | None \<Rightarrow> raw - remainder)
                    else raw - remainder))"

definition correct_raw_i128 :: "int \<Rightarrow> nat \<Rightarrow> int" where
  "correct_raw_i128 = correct_raw_i 128"

definition correct_raw_i64 :: "int \<Rightarrow> nat \<Rightarrow> int" where
  "correct_raw_i64 = correct_raw_i 64"

definition correct_price_raw :: "int \<Rightarrow> nat \<Rightarrow> int" where
  "correct_price_raw raw precision = correct_raw_i64 raw precision"

definition correct_quantity_raw :: "nat \<Rightarrow> nat \<Rightarrow> nat" where
  "correct_quantity_raw raw precision = correct_raw_u64 raw precision"

section \<open>Mantissa and exponent\<close>

definition bankers_round :: "int \<Rightarrow> nat \<Rightarrow> int" where
  "bankers_round mantissa excess =
     (if excess = 0 then mantissa
      else if excess \<ge> 39 then 0
      else let divisor = 10 ^ excess;
               quotient = mantissa sdiv divisor;
               remainder = mantissa smod divisor;
               half = divisor sdiv 2
           in if \<bar>remainder\<bar> > half \<or> (\<bar>remainder\<bar> = half \<and> quotient smod 2 \<noteq> 0)
              then quotient + sgn mantissa
              else quotient)"

definition mantissa_exponent_to_fixed_i128 :: "int \<Rightarrow> int \<Rightarrow> nat \<Rightarrow> correctness_error + int" where
  "mantissa_exponent_to_fixed_i128 mantissa exponent precision =
     (case check_fixed_precision precision of
        Inl e \<Rightarrow> Inl e
      | Inr _ \<Rightarrow>
          (let precision_i16 = int precision;
               target_scale = max (int FIXED_PRECISION) precision_i16;
               frac_digits = - exponent;
               mantissa' =
                 (if frac_digits > precision_i16
                  then bankers_round mantissa (nat (frac_digits - precision_i16))
                  else mantissa);
               scale_after_rounding = min frac_digits precision_i16;
               scale_exp = target_scale - scale_after_rounding
           in if scale_exp > 38 then Inl PredicateViolation
              else case (if scale_exp \<ge> 0 then checked_mul_i 128 mantissa' (10 ^ nat scale_exp)
                         else Some (mantissa' sdiv 10 ^ nat (- scale_exp))) of
                     None \<Rightarrow> Inl PredicateViolation
                   | Some r \<Rightarrow> Inr r))"

text \<open>
  \<^verbatim>\<open>mantissa_exponent_to_raw_checked<R>\<close>: the target type of the conversion is given by its
  \<^verbatim>\<open>TryFrom<i128>\<close>.
\<close>

definition mantissa_exponent_to_raw_checked ::
    "(int \<Rightarrow> 'r option) \<Rightarrow> int \<Rightarrow> int \<Rightarrow> nat \<Rightarrow> correctness_error + 'r" where
  "mantissa_exponent_to_raw_checked try_into mantissa exponent precision =
     (case check_fixed_precision precision of
        Inl e \<Rightarrow> Inl e
      | Inr _ \<Rightarrow>
          (case (if mantissa = 0 then Inr 0
                 else mantissa_exponent_to_fixed_i128 mantissa exponent precision) of
             Inl _ \<Rightarrow> Inl PredicateViolation
           | Inr raw_i128 \<Rightarrow>
               (case try_into raw_i128 of
                  None \<Rightarrow> Inl PredicateViolation
                | Some r \<Rightarrow> Inr r)))"

section \<open>Scales\<close>

lemma POWERS_OF_10_nth:
  assumes "i \<le> 16"
  shows "POWERS_OF_10 ! i = 10 ^ i"
proof -
  from assms have "i \<in> set [0..<17]" by auto
  then show ?thesis
    by (auto simp: POWERS_OF_10_def upt_rec)
qed

lemma scale_nth [simp]:
  "POWERS_OF_10 ! (FIXED_PRECISION - p) = 10 ^ (FIXED_PRECISION - p)"
  by (rule POWERS_OF_10_nth) (simp add: FIXED_PRECISION_def)

lemma check_fixed_precision_Inr [simp]:
  "check_fixed_precision p = Inr u \<longleftrightarrow> p \<le> FIXED_PRECISION"
  by (auto simp: check_fixed_precision_def)

lemma even_scale:
  assumes "p < FIXED_PRECISION"
  shows "2 * ((10::nat) ^ (FIXED_PRECISION - p) div 2) = 10 ^ (FIXED_PRECISION - p)"
    and "2 * ((10::int) ^ (FIXED_PRECISION - p) div 2) = 10 ^ (FIXED_PRECISION - p)"
  using assms by (auto simp: dvd_mult_div_cancel)

section \<open>Rounding to a multiple of the scale\<close>

lemma round_up_dvd:
  fixes a s :: nat
  assumes "0 < s"
  shows "s dvd a + (s - a mod s)"
proof -
  have "a + (s - a mod s) = a div s * s + s"
    using assms mod_less_divisor [OF assms, of a] div_mult_mod_eq [of a s] by linarith
  then show ?thesis by simp
qed

lemma round_down_dvd: "(s::nat) dvd a - a mod s"
  by (simp add: minus_mod_eq_mult_div)

lemma round_dvd_int:
  fixes a s :: int
  assumes "0 < s"
  shows "s dvd a - a smod s" and "s dvd a + (s - a smod s)" and "s dvd a - (s + a smod s)"
proof -
  have a: "a - a smod s = a sdiv s * s"
    using sdiv_smod_eq [of a s] by linarith
  then show "s dvd a - a smod s" by simp
  have "a + (s - a smod s) = (a sdiv s + 1) * s" and "a - (s + a smod s) = (a sdiv s - 1) * s"
    using a by (simp_all add: algebra_simps)
  then show "s dvd a + (s - a smod s)" and "s dvd a - (s + a smod s)" by simp_all
qed

lemma sdiv_2_pos: "0 \<le> (a::int) \<Longrightarrow> a sdiv 2 = a div 2"
  by (simp add: signed_divide_int_def sgn_if)

lemma correct_raw_u_spec:
  assumes p: "p < FIXED_PRECISION" and raw: "raw \<le> u_max w"
  defines "s \<equiv> 10 ^ (FIXED_PRECISION - p)" and "r \<equiv> correct_raw_u w raw p"
  shows "s dvd r \<and> r \<le> u_max w \<and>
     (2 * \<bar>int raw - int r\<bar> \<le> int s \<or> u_max w < raw + (s - raw mod s) \<and> r = raw - raw mod s)"
proof -
  have s: "0 < s" "2 * (s div 2) = s" using even_scale [OF p] by (simp_all add: s_def)
  have m: "raw mod s < s" "raw mod s \<le> raw" using s by simp_all
  have r: "r = (if raw mod s = 0 then raw
      else if s div 2 \<le> raw mod s
      then (if raw + (s - raw mod s) \<le> u_max w then raw + (s - raw mod s) else raw - raw mod s)
      else raw - raw mod s)"
    using p by (simp add: r_def correct_raw_u_def s_def Let_def checked_add_u_def)
  have "s dvd r"
    using round_up_dvd [OF s(1)] round_down_dvd by (auto simp: r)
  moreover have "r \<le> u_max w" using raw m by (auto simp: r)
  moreover have "2 * \<bar>int raw - int r\<bar> \<le> int s \<or>
      u_max w < raw + (s - raw mod s) \<and> r = raw - raw mod s"
    using s m raw by (auto simp: r of_nat_diff)
  ultimately show ?thesis by blast
qed

lemma correct_raw_i_spec:
  assumes p: "p < FIXED_PRECISION" and raw: "in_i w raw"
  defines "s \<equiv> 10 ^ (FIXED_PRECISION - p)" and "r \<equiv> correct_raw_i w raw p"
  shows "s dvd r \<and> in_i w r \<and>
     (2 * \<bar>raw - r\<bar> \<le> s \<or>
      r = raw - raw smod s \<and> \<not> in_i w (if 0 \<le> raw then r + s else r - s))"
proof -
  have s: "0 < s" "2 * (s div 2) = s" using even_scale [OF p] by (simp_all add: s_def)
  have m: "\<bar>raw smod s\<bar> < s" "0 \<le> raw \<Longrightarrow> 0 \<le> raw smod s" "raw < 0 \<Longrightarrow> raw smod s \<le> 0"
    using smod_bounds smod_sign s by auto
  have r: "r = (if raw smod s = 0 then raw
      else if 0 \<le> raw
      then (if s div 2 \<le> raw smod s \<and> in_i w (raw + (s - raw smod s))
            then raw + (s - raw smod s) else raw - raw smod s)
      else (if s div 2 \<le> \<bar>raw smod s\<bar> \<and> in_i w (raw - (s + raw smod s))
            then raw - (s + raw smod s) else raw - raw smod s))"
    using p s by (simp add: r_def correct_raw_i_def s_def [symmetric] Let_def checked_add_i_def
        checked_sub_i_def checked_i_def sdiv_2_pos)
  have toward_zero: "in_i w (raw - raw smod s)"
  proof -
    have "0 \<le> raw \<Longrightarrow> raw smod s \<le> raw" and "raw < 0 \<Longrightarrow> raw \<le> raw smod s"
      using s by (auto simp: signed_modulo_int_def sgn_if zmod_le_nonneg_dividend)
        (metis abs_of_neg le_minus_iff neg_0_le_iff_le not_le order.strict_implies_order
          zmod_le_nonneg_dividend)
    then show ?thesis using raw m by (cases "0 \<le> raw") (auto simp: in_i_def i_min_def i_max_def)
  qed
  have "s dvd r"
    using round_dvd_int [OF s(1), of raw] by (auto simp: r dvd_eq_mod_eq_0)
  moreover have "in_i w r" using raw toward_zero by (auto simp: r)
  moreover have "2 * \<bar>raw - r\<bar> \<le> s \<or>
      r = raw - raw smod s \<and> \<not> in_i w (if 0 \<le> raw then r + s else r - s)"
    using s m by (auto simp: r algebra_simps)
  ultimately show ?thesis by blast
qed

section \<open>Banker's rounding\<close>

lemma sdiv_nonneg_div: "0 \<le> (a::int) \<Longrightarrow> 0 \<le> b \<Longrightarrow> a sdiv b = a div b"
  by (cases "a = 0"; cases "b = 0") (auto simp: signed_divide_int_def sgn_if)

lemma smod_2_eq_0_iff: "(q::int) smod 2 = 0 \<longleftrightarrow> even q"
  by (auto simp: signed_modulo_int_def sgn_if even_iff_mod_2_eq_zero)

lemma even_power_10: "0 < k \<Longrightarrow> 2 * ((10::int) ^ k div 2) = 10 ^ k"
  by (simp add: dvd_mult_div_cancel)

lemma i128_below_half: "\<bar>m\<bar> \<le> 2 ^ 127 \<Longrightarrow> 39 \<le> k \<Longrightarrow> 2 * \<bar>m\<bar> < (10::int) ^ k"
proof -
  assume m: "\<bar>m\<bar> \<le> 2 ^ 127" and k: "39 \<le> k"
  have "2 * \<bar>m\<bar> \<le> 2 ^ 128" using m by simp
  also have "(2::int) ^ 128 < 10 ^ 39" by simp
  also have "(10::int) ^ 39 \<le> 10 ^ k" using k by (rule power_increasing) simp
  finally show ?thesis .
qed

lemma bankers_round_eq:
  fixes m :: int and k :: nat
  assumes "0 < k" "k < 39"
  defines "d \<equiv> 10 ^ k"
  shows "bankers_round m k =
    (if 2 * \<bar>m smod d\<bar> > d \<or> 2 * \<bar>m smod d\<bar> = d \<and> odd (m sdiv d)
     then m sdiv d + sgn m else m sdiv d)"
proof -
  have "2 * (d sdiv 2) = d"
    using assms even_power_10 by (simp add: sdiv_2_pos)
  then have "d sdiv 2 < \<bar>x\<bar> \<longleftrightarrow> d < 2 * \<bar>x\<bar>" and "\<bar>x\<bar> = d sdiv 2 \<longleftrightarrow> 2 * \<bar>x\<bar> = d" for x
    by auto
  with assms(1,2) show ?thesis
    by (simp add: bankers_round_def Let_def d_def [symmetric] smod_2_eq_0_iff)
qed

lemma round_step_bound:
  fixes m d q r :: int
  assumes "m = q * d + r" "\<bar>r\<bar> < d" "0 \<le> m \<Longrightarrow> 0 \<le> r" "m \<le> 0 \<Longrightarrow> r \<le> 0"
    and "d \<le> 2 * \<bar>r\<bar>"
  shows "2 * \<bar>m - (q + sgn m) * d\<bar> = 2 * d - 2 * \<bar>r\<bar>"
proof (cases "0 < m")
  case True
  then have "m - (q + sgn m) * d = r - d" using assms(1) by (simp add: algebra_simps)
  then show ?thesis using assms True by auto
next
  case False
  moreover from this have "r \<noteq> 0" using assms by auto
  then have "m \<noteq> 0" using assms(3,4) by auto
  ultimately have "m - (q + sgn m) * d = r + d" using assms(1) by (simp add: algebra_simps)
  then show ?thesis using assms False by auto
qed

lemma bankers_round_nearest_even:
  fixes m :: int and k :: nat
  assumes m: "\<bar>m\<bar> \<le> 2 ^ 127"
  defines "d \<equiv> 10 ^ k" and "q \<equiv> bankers_round m k"
  shows "2 * \<bar>m - q * d\<bar> \<le> d \<and> (2 * \<bar>m - q * d\<bar> = d \<longrightarrow> even q)"
proof -
  consider "k = 0" | "39 \<le> k" | "0 < k" "k < 39" by linarith
  then show ?thesis
  proof cases
    case 1
    then show ?thesis by (simp add: q_def d_def bankers_round_def)
  next
    case 2
    then show ?thesis using i128_below_half [OF m 2] by (simp add: q_def d_def bankers_round_def)
  next
    case 3
    define r where "r = m smod d"
    have eq: "m = m sdiv d * d + r" using sdiv_smod_eq [of m d] by (simp add: r_def)
    have d: "0 < d" by (simp add: d_def)
    have r: "\<bar>r\<bar> < d" "0 \<le> m \<Longrightarrow> 0 \<le> r" "m \<le> 0 \<Longrightarrow> r \<le> 0"
      using smod_bounds [OF d] smod_sign [OF d] by (auto simp: r_def)
    have q: "q = (if 2 * \<bar>r\<bar> > d \<or> 2 * \<bar>r\<bar> = d \<and> odd (m sdiv d)
        then m sdiv d + sgn m else m sdiv d)"
      using bankers_round_eq [OF 3, of m] by (simp add: q_def d_def r_def)
    have down: "m - m sdiv d * d = r" using eq by simp
    have up: "d \<le> 2 * \<bar>r\<bar> \<Longrightarrow> 2 * \<bar>m - (m sdiv d + sgn m) * d\<bar> = 2 * d - 2 * \<bar>r\<bar>"
      by (rule round_step_bound [OF eq r])
    have odd_sgn: "2 * \<bar>r\<bar> = d \<Longrightarrow> odd (sgn m)"
      using r d by (auto simp: sgn_if)
    show ?thesis using up down r d odd_sgn by (auto simp: q)
  qed
qed

section \<open>The value of a mantissa and exponent\<close>

lemma bankers_round_0 [simp]: "bankers_round m 0 = m"
  by (simp add: bankers_round_def)

text \<open>
  The branch of the source for a negative \<open>scale_exp\<close> is never taken: the target scale is at
  least the precision, and the scale after rounding is at most the precision.
\<close>

lemma mantissa_exponent_to_fixed_i128_eq:
  assumes "p \<le> FIXED_PRECISION"
  shows "mantissa_exponent_to_fixed_i128 m e p =
    (let k = nat (- e - int p); f = nat (int FIXED_PRECISION - min (- e) (int p));
         r = bankers_round m k * 10 ^ f
     in if 38 < f then Inl PredicateViolation
        else if in_i 128 r then Inr r else Inl PredicateViolation)"
proof -
  have "int p \<le> int FIXED_PRECISION" using assms by simp
  then have "max (int FIXED_PRECISION) (int p) = int FIXED_PRECISION"
    and "0 \<le> int FIXED_PRECISION - min (- e) (int p)" by auto
  moreover have "(if int p < - e then bankers_round m (nat (- e - int p)) else m)
      = bankers_round m (nat (- e - int p))" by (cases "int p < - e") simp_all
  moreover have "check_fixed_precision p = Inr ()"
    unfolding check_fixed_precision_def using assms by auto
  ultimately show ?thesis
    unfolding mantissa_exponent_to_fixed_i128_def Let_def checked_mul_i_def checked_i_def
    by (simp only: sum.case if_True) (auto simp: zless_nat_eq_int_zless)
qed

text \<open>The definitions a concrete conversion unfolds.\<close>

lemmas fixed_evals =
  mantissa_exponent_to_fixed_i128_def bankers_round_def check_fixed_precision_def
  FIXED_PRECISION_def checked_mul_i_def checked_i_def in_i_def signed_divide_int_def
  signed_modulo_int_def

text \<open>
  (C34) A mantissa and exponent convert to the raw value they denote. When the exponent has no more
  fractional digits than the precision the result is the exact value scaled by \<open>10\<^sup>9\<close>;
  otherwise it is a multiple of the unit of the precision at most half a unit away from it, and
  on a tie the even multiple.
\<close>

theorem mantissa_exponent_nearest:
  assumes m: "\<bar>m\<bar> \<le> 2 ^ 127" and p: "p \<le> FIXED_PRECISION"
    and r: "mantissa_exponent_to_fixed_i128 m e p = Inr r"
  shows "in_i 128 r \<and>
    (- e \<le> int p \<longrightarrow> r = m * 10 ^ nat (int FIXED_PRECISION + e)) \<and>
    (int p < - e \<longrightarrow>
       (\<exists>q. r = q * 10 ^ (FIXED_PRECISION - p) \<and>
            2 * \<bar>m - q * 10 ^ nat (- e - int p)\<bar> \<le> 10 ^ nat (- e - int p) \<and>
            (2 * \<bar>m - q * 10 ^ nat (- e - int p)\<bar> = 10 ^ nat (- e - int p) \<longrightarrow> even q)))"
proof -
  define k where "k = nat (- e - int p)"
  have eq: "r = bankers_round m k * 10 ^ nat (int FIXED_PRECISION - min (- e) (int p))"
    and in_range: "in_i 128 r"
    using r by (auto simp: mantissa_exponent_to_fixed_i128_eq [OF p] Let_def k_def split: if_splits)
  have "r = m * 10 ^ nat (int FIXED_PRECISION + e)" if "- e \<le> int p"
    using that eq by (simp add: k_def min_def)
  moreover have "r = bankers_round m k * 10 ^ (FIXED_PRECISION - p)" if "int p < - e"
    using that eq p by (simp add: min_def nat_diff_distrib)
  ultimately show ?thesis
    using in_range bankers_round_nearest_even [OF m, of k] unfolding k_def by blast
qed

theorem mantissa_exponent_nearest_witness:
  "mantissa_exponent_to_fixed_i128 125 (- 2) 1 = Inr 1200000000 \<and> in_i 128 1200000000 \<and>
   mantissa_exponent_to_fixed_i128 135 (- 2) 1 = Inr 1400000000 \<and> in_i 128 1400000000"
proof -
  have "mantissa_exponent_to_fixed_i128 125 (- 2) 1 = Inr 1200000000"
    and "mantissa_exponent_to_fixed_i128 135 (- 2) 1 = Inr 1400000000"
    by (simp_all add: fixed_evals)
  then show ?thesis
    using mantissa_exponent_nearest [of 125 1 "- 2" 1200000000]
      mantissa_exponent_nearest [of 135 1 "- 2" 1400000000]
    by (simp add: FIXED_PRECISION_def)
qed

end
