(* ===== verification/Value_Types.thy ===== *)
theory Value_Types
  imports Fixed_Point
begin

text \<open>
  The value types \<^verbatim>\<open>Quantity\<close> and \<^verbatim>\<open>Price\<close> of
  \<^verbatim>\<open>crates/model/src/types\<close>, with their checked, saturating and panicking arithmetic, their ordering (by raw value only) and their conversions
  from and to a decimal. A decimal is the pair its accessors \<^verbatim>\<open>mantissa()\<close> and
  \<^verbatim>\<open>scale()\<close> return. The constructors from \<^verbatim>\<open>f64\<close> and the string conversions are not
  modelled.
\<close>

record decimal =
  mantissa :: int
  scale :: nat

text \<open>\<^verbatim>\<open>-(decimal.scale() as i8)\<close>.\<close>

definition neg_scale_i8 :: "nat \<Rightarrow> int" where
  "neg_scale_i8 n = wrap_i 8 (- wrap_i 8 (int n))"

section \<open>Quantity\<close>

record quantity =
  q_raw :: nat
  q_precision :: nat

definition QUANTITY_RAW_MAX :: nat where
  "QUANTITY_RAW_MAX = 18446744073 * FIXED_SCALAR"

definition QUANTITY_UNDEF :: nat where
  "QUANTITY_UNDEF = u_max 64"

definition quantity_from_raw :: "nat \<Rightarrow> nat \<Rightarrow> quantity option" where
  "quantity_from_raw raw precision =
     (if \<not> (raw = QUANTITY_UNDEF \<or> raw \<le> QUANTITY_RAW_MAX) then None
      else if raw = QUANTITY_UNDEF \<and> \<not> precision = 0 then None
      else case check_fixed_precision precision of
             Inl _ \<Rightarrow> None
           | Inr _ \<Rightarrow> Some \<lparr>q_raw = raw, q_precision = precision\<rparr>)"

definition quantity_from_raw_checked :: "nat \<Rightarrow> nat \<Rightarrow> correctness_error + quantity" where
  "quantity_from_raw_checked raw precision =
     (if raw = QUANTITY_UNDEF \<and> precision \<noteq> 0 then Inl PredicateViolation
      else if raw \<noteq> QUANTITY_UNDEF \<and> raw > QUANTITY_RAW_MAX then Inl PredicateViolation
      else case check_fixed_precision precision of
             Inl e \<Rightarrow> Inl e
           | Inr _ \<Rightarrow> Inr \<lparr>q_raw = raw, q_precision = precision\<rparr>)"

definition quantity_checked_add :: "quantity \<Rightarrow> quantity \<Rightarrow> quantity option" where
  "quantity_checked_add a b =
     (if q_raw a = QUANTITY_UNDEF \<or> q_raw b = QUANTITY_UNDEF then None
      else if \<not> raw_scales_match (q_precision a) (q_precision b) then None
      else case checked_add_u 64 (q_raw a) (q_raw b) of
             None \<Rightarrow> None
           | Some raw \<Rightarrow>
               if raw > QUANTITY_RAW_MAX then None
               else Some \<lparr>q_raw = raw, q_precision = max (q_precision a) (q_precision b)\<rparr>)"

definition quantity_checked_sub :: "quantity \<Rightarrow> quantity \<Rightarrow> quantity option" where
  "quantity_checked_sub a b =
     (if q_raw a = QUANTITY_UNDEF \<or> q_raw b = QUANTITY_UNDEF then None
      else if \<not> raw_scales_match (q_precision a) (q_precision b) then None
      else case checked_sub_u (q_raw a) (q_raw b) of
             None \<Rightarrow> None
           | Some raw \<Rightarrow>
               Some \<lparr>q_raw = raw, q_precision = max (q_precision a) (q_precision b)\<rparr>)"

definition quantity_saturating_sub :: "quantity \<Rightarrow> quantity \<Rightarrow> quantity" where
  "quantity_saturating_sub a b =
     \<lparr>q_raw = saturating_sub_u (q_raw a) (q_raw b),
      q_precision = max (q_precision a) (q_precision b)\<rparr>"

definition quantity_zero :: "nat \<Rightarrow> quantity option" where
  "quantity_zero precision =
     (case check_fixed_precision precision of
        Inl _ \<Rightarrow> None
      | Inr _ \<Rightarrow> Some \<lparr>q_raw = 0, q_precision = precision\<rparr>)"

definition quantity_is_undefined :: "quantity \<Rightarrow> bool" where
  "quantity_is_undefined q \<longleftrightarrow> q_raw q = QUANTITY_UNDEF"

definition quantity_is_zero :: "quantity \<Rightarrow> bool" where
  "quantity_is_zero q \<longleftrightarrow> q_raw q = 0"

definition quantity_is_positive :: "quantity \<Rightarrow> bool" where
  "quantity_is_positive q \<longleftrightarrow> q_raw q \<noteq> QUANTITY_UNDEF \<and> q_raw q > 0"

definition quantity_as_decimal :: "quantity \<Rightarrow> decimal" where
  "quantity_as_decimal q =
     \<lparr>mantissa = int (q_raw q div 10 ^ (FIXED_PRECISION - q_precision q)),
      scale = q_precision q\<rparr>"

definition quantity_from_decimal_dp :: "decimal \<Rightarrow> nat \<Rightarrow> correctness_error + quantity" where
  "quantity_from_decimal_dp d precision =
     (if mantissa d < 0 then Inl PredicateViolation
      else case mantissa_exponent_to_fixed_i128 (mantissa d) (neg_scale_i8 (scale d)) precision of
             Inl e \<Rightarrow> Inl e
           | Inr raw_i128 \<Rightarrow>
               (case try_into_u 64 raw_i128 of
                  None \<Rightarrow> Inl PredicateViolation
                | Some raw \<Rightarrow>
                    if raw > QUANTITY_RAW_MAX then Inl PredicateViolation
                    else Inr \<lparr>q_raw = raw, q_precision = precision\<rparr>))"

definition quantity_from_decimal :: "decimal \<Rightarrow> correctness_error + quantity" where
  "quantity_from_decimal d = quantity_from_decimal_dp d (scale d mod 256)"

definition quantity_from_mantissa_exponent :: "nat \<Rightarrow> int \<Rightarrow> nat \<Rightarrow> quantity option" where
  "quantity_from_mantissa_exponent m exponent precision =
     (case check_fixed_precision precision of
        Inl _ \<Rightarrow> None
      | Inr _ \<Rightarrow>
          if m = 0 then Some \<lparr>q_raw = 0, q_precision = precision\<rparr>
          else case mantissa_exponent_to_fixed_i128 (int m) exponent precision of
                 Inl _ \<Rightarrow> None
               | Inr raw_i128 \<Rightarrow>
                   (case try_into_u 64 raw_i128 of
                      None \<Rightarrow> None
                    | Some raw \<Rightarrow>
                        if raw \<le> QUANTITY_RAW_MAX
                        then Some \<lparr>q_raw = raw, q_precision = precision\<rparr> else None))"

definition quantity_from_mantissa_exponent_checked ::
    "nat \<Rightarrow> int \<Rightarrow> nat \<Rightarrow> correctness_error + quantity" where
  "quantity_from_mantissa_exponent_checked m exponent precision =
     (case mantissa_exponent_to_raw_checked (try_into_u 64) (int m) exponent precision of
        Inl e \<Rightarrow> Inl e
      | Inr raw \<Rightarrow> quantity_from_raw_checked raw precision)"

definition quantity_eq :: "quantity \<Rightarrow> quantity \<Rightarrow> bool" where
  "quantity_eq a b \<longleftrightarrow> q_raw a = q_raw b"

definition quantity_lt :: "quantity \<Rightarrow> quantity \<Rightarrow> bool" where
  "quantity_lt a b \<longleftrightarrow> q_raw a < q_raw b"

definition quantity_le :: "quantity \<Rightarrow> quantity \<Rightarrow> bool" where
  "quantity_le a b \<longleftrightarrow> q_raw a \<le> q_raw b"

definition quantity_add :: "quantity \<Rightarrow> quantity \<Rightarrow> quantity option" where
  "quantity_add a b =
     (case checked_add_u 64 (q_raw a) (q_raw b) of
        None \<Rightarrow> None
      | Some raw \<Rightarrow> Some \<lparr>q_raw = raw, q_precision = max (q_precision a) (q_precision b)\<rparr>)"

definition quantity_sub :: "quantity \<Rightarrow> quantity \<Rightarrow> quantity option" where
  "quantity_sub a b =
     (case checked_sub_u (q_raw a) (q_raw b) of
        None \<Rightarrow> None
      | Some raw \<Rightarrow> Some \<lparr>q_raw = raw, q_precision = max (q_precision a) (q_precision b)\<rparr>)"

definition quantity_mul :: "quantity \<Rightarrow> quantity \<Rightarrow> quantity option" where
  "quantity_mul a b =
     (case checked_mul_u 64 (q_raw a) (q_raw b) of
        None \<Rightarrow> None
      | Some result_raw \<Rightarrow>
          Some \<lparr>q_raw = result_raw div FIXED_SCALAR,
                q_precision = max (q_precision a) (q_precision b)\<rparr>)"

definition check_positive_quantity :: "quantity \<Rightarrow> correctness_error + unit" where
  "check_positive_quantity value =
     (if \<not> quantity_is_positive value then Inl NotPositive else Inr ())"

section \<open>Price\<close>

record price =
  p_raw :: int
  p_precision :: nat

definition PRICE_RAW_MAX :: int where
  "PRICE_RAW_MAX = 9223372036 * int FIXED_SCALAR"

definition PRICE_RAW_MIN :: int where
  "PRICE_RAW_MIN = - 9223372036 * int FIXED_SCALAR"

definition PRICE_UNDEF :: int where
  "PRICE_UNDEF = i_max 64"

definition PRICE_ERROR :: int where
  "PRICE_ERROR = i_min 64"

definition ERROR_PRICE :: price where
  "ERROR_PRICE = \<lparr>p_raw = 0, p_precision = 255\<rparr>"

definition price_from_raw :: "int \<Rightarrow> nat \<Rightarrow> price option" where
  "price_from_raw raw precision =
     (if \<not> (raw = PRICE_ERROR \<or> raw = PRICE_UNDEF \<or> (raw \<ge> PRICE_RAW_MIN \<and> raw \<le> PRICE_RAW_MAX))
      then None
      else if raw = PRICE_UNDEF \<and> \<not> precision = 0 then None
      else case check_fixed_precision precision of
             Inl _ \<Rightarrow> None
           | Inr _ \<Rightarrow> Some \<lparr>p_raw = raw, p_precision = precision\<rparr>)"

definition price_from_raw_checked :: "int \<Rightarrow> nat \<Rightarrow> correctness_error + price" where
  "price_from_raw_checked raw precision =
     (if raw = PRICE_UNDEF \<and> precision \<noteq> 0 then Inl PredicateViolation
      else if raw \<noteq> PRICE_ERROR \<and> raw \<noteq> PRICE_UNDEF \<and> (raw < PRICE_RAW_MIN \<or> raw > PRICE_RAW_MAX)
      then Inl PredicateViolation
      else case check_fixed_precision precision of
             Inl e \<Rightarrow> Inl e
           | Inr _ \<Rightarrow> Inr \<lparr>p_raw = raw, p_precision = precision\<rparr>)"

definition price_zero :: "nat \<Rightarrow> price option" where
  "price_zero precision =
     (case check_fixed_precision precision of
        Inl _ \<Rightarrow> None | Inr _ \<Rightarrow> Some \<lparr>p_raw = 0, p_precision = precision\<rparr>)"

definition price_max :: "nat \<Rightarrow> price option" where
  "price_max precision =
     (case check_fixed_precision precision of
        Inl _ \<Rightarrow> None | Inr _ \<Rightarrow> Some \<lparr>p_raw = PRICE_RAW_MAX, p_precision = precision\<rparr>)"

definition price_min :: "nat \<Rightarrow> price option" where
  "price_min precision =
     (case check_fixed_precision precision of
        Inl _ \<Rightarrow> None | Inr _ \<Rightarrow> Some \<lparr>p_raw = PRICE_RAW_MIN, p_precision = precision\<rparr>)"

definition price_is_sentinel :: "price \<Rightarrow> bool" where
  "price_is_sentinel p \<longleftrightarrow> p_raw p = PRICE_UNDEF \<or> p_raw p = PRICE_ERROR \<or> p_precision p = 255"

definition price_is_undefined :: "price \<Rightarrow> bool" where
  "price_is_undefined p \<longleftrightarrow> p_raw p = PRICE_UNDEF"

definition price_is_zero :: "price \<Rightarrow> bool" where
  "price_is_zero p \<longleftrightarrow> p_raw p = 0"

definition price_is_positive :: "price \<Rightarrow> bool" where
  "price_is_positive p \<longleftrightarrow> p_raw p \<noteq> PRICE_UNDEF \<and> p_raw p > 0"

definition price_checked_add :: "price \<Rightarrow> price \<Rightarrow> price option" where
  "price_checked_add a b =
     (if price_is_sentinel a \<or> price_is_sentinel b then None
      else if \<not> raw_scales_match (p_precision a) (p_precision b) then None
      else case checked_add_i 64 (p_raw a) (p_raw b) of
             None \<Rightarrow> None
           | Some raw \<Rightarrow>
               if raw < PRICE_RAW_MIN \<or> raw > PRICE_RAW_MAX then None
               else Some \<lparr>p_raw = raw, p_precision = max (p_precision a) (p_precision b)\<rparr>)"

definition price_checked_sub :: "price \<Rightarrow> price \<Rightarrow> price option" where
  "price_checked_sub a b =
     (if price_is_sentinel a \<or> price_is_sentinel b then None
      else if \<not> raw_scales_match (p_precision a) (p_precision b) then None
      else case checked_sub_i 64 (p_raw a) (p_raw b) of
             None \<Rightarrow> None
           | Some raw \<Rightarrow>
               if raw < PRICE_RAW_MIN \<or> raw > PRICE_RAW_MAX then None
               else Some \<lparr>p_raw = raw, p_precision = max (p_precision a) (p_precision b)\<rparr>)"

definition price_as_decimal :: "price \<Rightarrow> decimal" where
  "price_as_decimal p =
     \<lparr>mantissa = p_raw p sdiv 10 ^ (FIXED_PRECISION - p_precision p), scale = p_precision p\<rparr>"

definition price_from_decimal_dp :: "decimal \<Rightarrow> nat \<Rightarrow> correctness_error + price" where
  "price_from_decimal_dp d precision =
     (case mantissa_exponent_to_fixed_i128 (mantissa d) (neg_scale_i8 (scale d)) precision of
        Inl e \<Rightarrow> Inl e
      | Inr raw_i128 \<Rightarrow>
          (case try_into_i 64 raw_i128 of
             None \<Rightarrow> Inl PredicateViolation
           | Some raw \<Rightarrow>
               if \<not> (raw \<ge> PRICE_RAW_MIN \<and> raw \<le> PRICE_RAW_MAX) then Inl PredicateViolation
               else Inr \<lparr>p_raw = raw, p_precision = precision\<rparr>))"

definition price_from_decimal :: "decimal \<Rightarrow> correctness_error + price" where
  "price_from_decimal d = price_from_decimal_dp d (scale d mod 256)"

definition price_from_mantissa_exponent :: "int \<Rightarrow> int \<Rightarrow> nat \<Rightarrow> price option" where
  "price_from_mantissa_exponent m exponent precision =
     (case check_fixed_precision precision of
        Inl _ \<Rightarrow> None
      | Inr _ \<Rightarrow>
          if m = 0 then Some \<lparr>p_raw = 0, p_precision = precision\<rparr>
          else case mantissa_exponent_to_fixed_i128 m exponent precision of
                 Inl _ \<Rightarrow> None
               | Inr raw_i128 \<Rightarrow>
                   (case try_into_i 64 raw_i128 of
                      None \<Rightarrow> None
                    | Some raw \<Rightarrow>
                        if raw \<ge> PRICE_RAW_MIN \<and> raw \<le> PRICE_RAW_MAX
                        then Some \<lparr>p_raw = raw, p_precision = precision\<rparr> else None))"

definition price_from_mantissa_exponent_checked ::
    "int \<Rightarrow> int \<Rightarrow> nat \<Rightarrow> correctness_error + price" where
  "price_from_mantissa_exponent_checked m exponent precision =
     (case mantissa_exponent_to_raw_checked (try_into_i 64) m exponent precision of
        Inl e \<Rightarrow> Inl e
      | Inr raw \<Rightarrow> price_from_raw_checked raw precision)"

definition price_eq :: "price \<Rightarrow> price \<Rightarrow> bool" where
  "price_eq a b \<longleftrightarrow> p_raw a = p_raw b"

definition price_lt :: "price \<Rightarrow> price \<Rightarrow> bool" where
  "price_lt a b \<longleftrightarrow> p_raw a < p_raw b"

definition price_le :: "price \<Rightarrow> price \<Rightarrow> bool" where
  "price_le a b \<longleftrightarrow> p_raw a \<le> p_raw b"

definition price_neg :: "price \<Rightarrow> price" where
  "price_neg p =
     (if p_raw p = PRICE_ERROR \<or> p_raw p = PRICE_UNDEF then p
      else \<lparr>p_raw = - p_raw p, p_precision = p_precision p\<rparr>)"

definition price_add :: "price \<Rightarrow> price \<Rightarrow> price option" where
  "price_add a b =
     (case checked_add_i 64 (p_raw a) (p_raw b) of
        None \<Rightarrow> None
      | Some raw \<Rightarrow> Some \<lparr>p_raw = raw, p_precision = max (p_precision a) (p_precision b)\<rparr>)"

definition price_sub :: "price \<Rightarrow> price \<Rightarrow> price option" where
  "price_sub a b =
     (case checked_sub_i 64 (p_raw a) (p_raw b) of
        None \<Rightarrow> None
      | Some raw \<Rightarrow> Some \<lparr>p_raw = raw, p_precision = max (p_precision a) (p_precision b)\<rparr>)"

definition check_positive_price :: "price \<Rightarrow> correctness_error + unit" where
  "check_positive_price value =
     (if p_raw value = PRICE_UNDEF then Inl InvalidValue
      else if \<not> price_is_positive value then Inl NotPositive
      else Inr ())"

definition decode_raw_price_i64 :: "int \<Rightarrow> int" where
  "decode_raw_price_i64 value = value"

section \<open>Range invariants\<close>

definition wf_quantity :: "quantity \<Rightarrow> bool" where
  "wf_quantity q \<longleftrightarrow>
     q_precision q \<le> FIXED_PRECISION \<and>
     (q_raw q \<le> QUANTITY_RAW_MAX \<or> q_raw q = QUANTITY_UNDEF \<and> q_precision q = 0)"

definition wf_price :: "price \<Rightarrow> bool" where
  "wf_price p \<longleftrightarrow>
     p_precision p \<le> FIXED_PRECISION \<and>
     (PRICE_RAW_MIN \<le> p_raw p \<and> p_raw p \<le> PRICE_RAW_MAX \<or> p_raw p = PRICE_ERROR \<or>
      p_raw p = PRICE_UNDEF \<and> p_precision p = 0)"

lemmas quantity_consts = QUANTITY_RAW_MAX_def QUANTITY_UNDEF_def FIXED_SCALAR_def

lemmas price_consts = PRICE_RAW_MAX_def PRICE_RAW_MIN_def PRICE_UNDEF_def PRICE_ERROR_def
  FIXED_SCALAR_def

lemma raw_scales_match_le [simp]:
  "p \<le> FIXED_PRECISION \<Longrightarrow> p' \<le> FIXED_PRECISION \<Longrightarrow> raw_scales_match p p'"
  by (simp add: raw_scales_match_def)

lemma quantity_max_lt_undef: "x \<le> QUANTITY_RAW_MAX \<Longrightarrow> x \<noteq> QUANTITY_UNDEF \<and> x \<le> u_max 64"
  by (simp add: quantity_consts)

lemma price_range_i64:
  "PRICE_RAW_MIN \<le> x \<Longrightarrow> x \<le> PRICE_RAW_MAX \<Longrightarrow>
     in_i 64 x \<and> x \<noteq> PRICE_UNDEF \<and> x \<noteq> PRICE_ERROR"
  by (simp add: price_consts in_i_def)

lemma price_undef_ne_error [simp]: "PRICE_UNDEF \<noteq> PRICE_ERROR" "PRICE_ERROR \<noteq> PRICE_UNDEF"
  by (simp_all add: price_consts)

lemma quantity_from_raw_checked_Inr:
  "quantity_from_raw_checked raw p = Inr q \<longleftrightarrow>
     q = \<lparr>q_raw = raw, q_precision = p\<rparr> \<and> wf_quantity q"
  using quantity_max_lt_undef [of raw]
  by (auto simp: quantity_from_raw_checked_def wf_quantity_def check_fixed_precision_def)

lemma quantity_from_raw_Some:
  "quantity_from_raw raw p = Some q \<longleftrightarrow>
     q = \<lparr>q_raw = raw, q_precision = p\<rparr> \<and> wf_quantity q"
  using quantity_max_lt_undef [of raw]
  by (auto simp: quantity_from_raw_def wf_quantity_def check_fixed_precision_def)

lemma price_from_raw_checked_Inr:
  "price_from_raw_checked raw p = Inr q \<longleftrightarrow>
     q = \<lparr>p_raw = raw, p_precision = p\<rparr> \<and> wf_price q"
  using price_range_i64 [of raw]
  by (auto simp: price_from_raw_checked_def wf_price_def check_fixed_precision_def)

lemma price_from_raw_Some:
  "price_from_raw raw p = Some q \<longleftrightarrow>
     q = \<lparr>p_raw = raw, p_precision = p\<rparr> \<and> wf_price q"
  using price_range_i64 [of raw]
  by (auto simp: price_from_raw_def wf_price_def check_fixed_precision_def)

section \<open>Checked arithmetic\<close>

lemma quantity_checked_add_Some:
  assumes "wf_quantity a" "wf_quantity b"
  shows "quantity_checked_add a b = Some c \<longleftrightarrow>
     \<not> quantity_is_undefined a \<and> \<not> quantity_is_undefined b \<and>
     q_raw a + q_raw b \<le> QUANTITY_RAW_MAX \<and>
     c = \<lparr>q_raw = q_raw a + q_raw b, q_precision = max (q_precision a) (q_precision b)\<rparr>"
  using assms quantity_max_lt_undef [of "q_raw a + q_raw b"]
  by (auto simp: quantity_checked_add_def wf_quantity_def quantity_is_undefined_def
      checked_add_u_def split: if_splits)

lemma quantity_checked_sub_Some:
  assumes "wf_quantity a" "wf_quantity b"
  shows "quantity_checked_sub a b = Some c \<longleftrightarrow>
     \<not> quantity_is_undefined a \<and> \<not> quantity_is_undefined b \<and> q_raw b \<le> q_raw a \<and>
     c = \<lparr>q_raw = q_raw a - q_raw b, q_precision = max (q_precision a) (q_precision b)\<rparr>"
  using assms
  by (auto simp: quantity_checked_sub_def wf_quantity_def quantity_is_undefined_def
      checked_sub_u_def split: if_splits)

lemma price_not_sentinel:
  "wf_price a \<Longrightarrow> \<not> price_is_sentinel a \<longleftrightarrow> PRICE_RAW_MIN \<le> p_raw a \<and> p_raw a \<le> PRICE_RAW_MAX"
  by (auto simp: wf_price_def price_is_sentinel_def price_consts FIXED_PRECISION_def)

lemma price_checked_add_Some:
  assumes "wf_price a" "wf_price b"
  shows "price_checked_add a b = Some c \<longleftrightarrow>
     \<not> price_is_sentinel a \<and> \<not> price_is_sentinel b \<and>
     PRICE_RAW_MIN \<le> p_raw a + p_raw b \<and> p_raw a + p_raw b \<le> PRICE_RAW_MAX \<and>
     c = \<lparr>p_raw = p_raw a + p_raw b, p_precision = max (p_precision a) (p_precision b)\<rparr>"
  using assms price_range_i64 [of "p_raw a + p_raw b"]
  by (auto simp: price_checked_add_def wf_price_def checked_add_i_def checked_i_def
      split: if_splits)

lemma price_checked_sub_Some:
  assumes "wf_price a" "wf_price b"
  shows "price_checked_sub a b = Some c \<longleftrightarrow>
     \<not> price_is_sentinel a \<and> \<not> price_is_sentinel b \<and>
     PRICE_RAW_MIN \<le> p_raw a - p_raw b \<and> p_raw a - p_raw b \<le> PRICE_RAW_MAX \<and>
     c = \<lparr>p_raw = p_raw a - p_raw b, p_precision = max (p_precision a) (p_precision b)\<rparr>"
  using assms price_range_i64 [of "p_raw a - p_raw b"]
  by (auto simp: price_checked_sub_def wf_price_def checked_sub_i_def checked_i_def
      split: if_splits)

section \<open>Decimal conversions\<close>

lemma neg_scale_i8_small: "n \<le> 127 \<Longrightarrow> neg_scale_i8 n = - int n"
  by (simp add: neg_scale_i8_def wrap_i_id in_i_def i_max_def i_min_def)

lemma mantissa_exponent_exact:
  assumes "p \<le> FIXED_PRECISION" and "in_i 128 (m * 10 ^ (FIXED_PRECISION - p))"
  shows "mantissa_exponent_to_fixed_i128 m (- int p) p = Inr (m * 10 ^ (FIXED_PRECISION - p))"
proof -
  have "nat (int FIXED_PRECISION - int p) = FIXED_PRECISION - p" by simp
  moreover have "FIXED_PRECISION - p \<le> 38" by (simp add: FIXED_PRECISION_def)
  ultimately show ?thesis
    using assms by (simp add: mantissa_exponent_to_fixed_i128_eq Let_def)
qed

lemma sdiv_dvd_mult: "(d::int) dvd a \<Longrightarrow> 0 < d \<Longrightarrow> a sdiv d * d = a"
  by (auto simp: signed_divide_int_def sgn_if elim!: dvdE)

lemma dvd_gap:
  fixes s a b :: int
  assumes "s dvd a" "s dvd b" "a < b"
  shows "a + s \<le> b"
  using zdvd_imp_le [of s "b - a"] assms by simp

lemma round_away_in_range:
  fixes s r :: int
  assumes s: "0 < s" and dvd: "s dvd PRICE_RAW_MAX" "s dvd PRICE_RAW_MIN"
    and r: "PRICE_RAW_MIN \<le> r" "r \<le> PRICE_RAW_MAX" and m: "r smod s \<noteq> 0"
  shows "in_i 64 (if 0 \<le> r then r - r smod s + s else r - r smod s - s)"
proof -
  have b: "\<bar>r smod s\<bar> < s" "0 \<le> r \<Longrightarrow> 0 < r smod s" "r < 0 \<Longrightarrow> r smod s < 0"
    using smod_bounds [OF s] smod_sign [OF s] m by (force simp: less_le)+
  have "r - r smod s + s \<le> PRICE_RAW_MAX" if "0 \<le> r"
    using dvd_gap [OF round_dvd_int(1) [OF s] dvd(1), of r] b(2) [OF that] r by linarith
  moreover have "PRICE_RAW_MIN \<le> r - r smod s - s" if "r < 0"
    using dvd_gap [OF dvd(2) round_dvd_int(1) [OF s], of r] b(3) [OF that] r by linarith
  ultimately show ?thesis
    using price_range_i64 b r by (auto simp: not_le)
qed

lemma round_up_in_range:
  assumes s: "0 < s" and dvd: "s dvd QUANTITY_RAW_MAX" and n: "n \<le> QUANTITY_RAW_MAX"
    and m: "n mod s \<noteq> 0"
  shows "n + (s - n mod s) \<le> u_max 64"
proof -
  have "int s dvd int (n - n mod s)" "int s dvd int QUANTITY_RAW_MAX"
    using round_down_dvd dvd by (simp_all only: int_dvd_int_iff)
  moreover have le: "n mod s < s" "n mod s \<le> n" using s by simp_all
  ultimately have "int (n - n mod s) + int s \<le> int QUANTITY_RAW_MAX"
    using n m by (intro dvd_gap) auto
  then have "n + (s - n mod s) \<le> QUANTITY_RAW_MAX" using le by linarith
  then show ?thesis using quantity_max_lt_undef by blast
qed

section \<open>Properties of the value types\<close>

text \<open>
  (C39) The panicking and the fallible constructors from a raw value accept the same inputs, and
  what they accept is exactly the range invariant of the type.
\<close>

theorem from_raw_agree:
  "quantity_from_raw raw p =
     (case quantity_from_raw_checked raw p of Inl _ \<Rightarrow> None | Inr q \<Rightarrow> Some q) \<and>
   price_from_raw r p = (case price_from_raw_checked r p of Inl _ \<Rightarrow> None | Inr x \<Rightarrow> Some x) \<and>
   ((\<exists>q. quantity_from_raw raw p = Some q) = wf_quantity \<lparr>q_raw = raw, q_precision = p\<rparr>) \<and>
   ((\<exists>x. price_from_raw r p = Some x) = wf_price \<lparr>p_raw = r, p_precision = p\<rparr>)"
proof -
  have "quantity_from_raw raw p = Some q \<longleftrightarrow> quantity_from_raw_checked raw p = Inr q"
    and "price_from_raw r p = Some x \<longleftrightarrow> price_from_raw_checked r p = Inr x" for q x
    by (simp_all add: quantity_from_raw_Some quantity_from_raw_checked_Inr price_from_raw_Some
        price_from_raw_checked_Inr)
  then show ?thesis
    by (auto simp: quantity_from_raw_Some price_from_raw_Some not_Some_eq [symmetric]
        split: sum.splits simp del: not_Some_eq)
      (metis Inl_Inr_False option.exhaust)+
qed

text \<open>
  (C36) Checked addition of quantities is exact: when it succeeds the raw value is the sum, the
  result satisfies the range invariant, the panicking addition returns the same quantity, and
  subtracting an operand again gives back the other one. It fails exactly when an operand is the
  undefined sentinel or the sum is out of range.
\<close>

theorem quantity_checked_add_exact:
  assumes "wf_quantity a" and "wf_quantity b"
  shows "case quantity_checked_add a b of
      None \<Rightarrow> quantity_is_undefined a \<or> quantity_is_undefined b \<or>
        QUANTITY_RAW_MAX < q_raw a + q_raw b
    | Some c \<Rightarrow> q_raw c = q_raw a + q_raw b \<and> wf_quantity c \<and> quantity_add a b = Some c \<and>
        (\<exists>d. quantity_checked_sub c b = Some d \<and> quantity_eq d a \<and> quantity_sub c b = Some d)"
proof (cases "quantity_checked_add a b")
  case None
  then show ?thesis
    using quantity_checked_add_Some [OF assms] by fastforce
next
  case (Some c)
  then have c: "\<not> quantity_is_undefined a" "\<not> quantity_is_undefined b"
    "q_raw a + q_raw b \<le> QUANTITY_RAW_MAX"
    "c = \<lparr>q_raw = q_raw a + q_raw b, q_precision = max (q_precision a) (q_precision b)\<rparr>"
    using quantity_checked_add_Some [OF assms] by auto
  then have wf: "wf_quantity c" using assms by (auto simp: wf_quantity_def)
  moreover have "\<not> quantity_is_undefined c"
    using c quantity_max_lt_undef by (simp add: quantity_is_undefined_def)
  ultimately show ?thesis
    using Some c quantity_checked_sub_Some [OF wf assms(2)] quantity_max_lt_undef
    by (auto simp: quantity_add_def checked_add_u_def quantity_sub_def checked_sub_u_def
        quantity_eq_def)
qed

theorem quantity_checked_add_exact_witness:
  "wf_quantity \<lparr>q_raw = 15, q_precision = 1\<rparr> \<and> wf_quantity \<lparr>q_raw = 27, q_precision = 2\<rparr> \<and>
   (\<exists>c. quantity_checked_add \<lparr>q_raw = 15, q_precision = 1\<rparr> \<lparr>q_raw = 27, q_precision = 2\<rparr> = Some c \<and>
        q_raw c = 42 \<and> wf_quantity c)"
  using quantity_checked_add_exact
    [of "\<lparr>q_raw = 15, q_precision = 1\<rparr>" "\<lparr>q_raw = 27, q_precision = 2\<rparr>"]
  by (auto simp: wf_quantity_def FIXED_PRECISION_def quantity_consts quantity_is_undefined_def
      split: option.splits)

text \<open>
  (C37) Checked addition of prices is exact in the same sense; a sentinel operand (undefined,
  error, or the error price) makes it fail, and the result is never a sentinel.
\<close>

theorem price_checked_add_exact:
  assumes "wf_price a" and "wf_price b"
  shows "case price_checked_add a b of
      None \<Rightarrow> price_is_sentinel a \<or> price_is_sentinel b \<or>
        p_raw a + p_raw b < PRICE_RAW_MIN \<or> PRICE_RAW_MAX < p_raw a + p_raw b
    | Some c \<Rightarrow> p_raw c = p_raw a + p_raw b \<and> wf_price c \<and> \<not> price_is_sentinel c \<and>
        price_add a b = Some c \<and> (\<exists>d. price_checked_sub c b = Some d \<and> price_eq d a)"
proof (cases "price_checked_add a b")
  case None
  then show ?thesis
    using price_checked_add_Some [OF assms] by fastforce
next
  case (Some c)
  then have c: "\<not> price_is_sentinel a" "\<not> price_is_sentinel b"
    "PRICE_RAW_MIN \<le> p_raw a + p_raw b" "p_raw a + p_raw b \<le> PRICE_RAW_MAX"
    "c = \<lparr>p_raw = p_raw a + p_raw b, p_precision = max (p_precision a) (p_precision b)\<rparr>"
    using price_checked_add_Some [OF assms] by auto
  then have wf: "wf_price c" using assms by (auto simp: wf_price_def)
  moreover have "\<not> price_is_sentinel c" using c price_not_sentinel [OF wf] by simp
  ultimately show ?thesis
    using Some c price_checked_sub_Some [OF wf assms(2)] price_range_i64
      price_not_sentinel [OF assms(1)]
    by (auto simp: price_add_def checked_add_i_def checked_i_def price_eq_def)
qed

theorem price_checked_add_exact_witness:
  "wf_price \<lparr>p_raw = - 15, p_precision = 1\<rparr> \<and> wf_price \<lparr>p_raw = 57, p_precision = 2\<rparr> \<and>
   (\<exists>c. price_checked_add \<lparr>p_raw = - 15, p_precision = 1\<rparr> \<lparr>p_raw = 57, p_precision = 2\<rparr> = Some c \<and>
        p_raw c = 42 \<and> wf_price c)"
  using price_checked_add_exact
    [of "\<lparr>p_raw = - 15, p_precision = 1\<rparr>" "\<lparr>p_raw = 57, p_precision = 2\<rparr>"]
  by (auto simp: wf_price_def FIXED_PRECISION_def price_consts price_is_sentinel_def
      split: option.splits)

text \<open>
  (C38) A quantity and a price whose raw value is a multiple of the unit of its precision survive
  the conversion to a decimal and back unchanged.
\<close>

theorem decimal_round_trip:
  assumes "wf_quantity q" and "\<not> quantity_is_undefined q"
    and "10 ^ (FIXED_PRECISION - q_precision q) dvd q_raw q"
    and "wf_price x" and "\<not> price_is_sentinel x"
    and "10 ^ (FIXED_PRECISION - p_precision x) dvd p_raw x"
  shows "quantity_from_decimal (quantity_as_decimal q) = Inr q \<and>
    price_from_decimal (price_as_decimal x) = Inr x"
proof
  have p: "q_precision q \<le> FIXED_PRECISION" "p_precision x \<le> FIXED_PRECISION"
    using assms by (auto simp: wf_quantity_def wf_price_def)
  then have s: "q_precision q \<le> 127" "q_precision q mod 256 = q_precision q"
    "p_precision x \<le> 127" "p_precision x mod 256 = p_precision x"
    by (auto simp: FIXED_PRECISION_def)
  have q: "int (q_raw q div 10 ^ (FIXED_PRECISION - q_precision q)) *
      10 ^ (FIXED_PRECISION - q_precision q) = int (q_raw q)" (is "?m * ?d = _")
    using assms(3) by (metis dvd_div_mult_self of_nat_mult of_nat_numeral of_nat_power)
  have "q_raw q \<le> QUANTITY_RAW_MAX"
    using assms(1,2) by (auto simp: wf_quantity_def quantity_is_undefined_def)
  then have "in_i 128 (?m * ?d)" "try_into_u 64 (int (q_raw q)) = Some (q_raw q)"
    by (simp_all add: q in_i_def try_into_u_def quantity_consts)
  then show "quantity_from_decimal (quantity_as_decimal q) = Inr q"
    using mantissa_exponent_exact [OF p(1), of ?m] s p(1) q \<open>q_raw q \<le> QUANTITY_RAW_MAX\<close>
    by (simp add: quantity_from_decimal_def quantity_as_decimal_def quantity_from_decimal_dp_def
        neg_scale_i8_small)
  have x: "p_raw x sdiv 10 ^ (FIXED_PRECISION - p_precision x) *
      10 ^ (FIXED_PRECISION - p_precision x) = p_raw x" (is "?m * ?d = _")
    using assms(6) by (intro sdiv_dvd_mult) simp_all
  have r: "PRICE_RAW_MIN \<le> p_raw x" "p_raw x \<le> PRICE_RAW_MAX"
    using assms(4,5) price_not_sentinel by auto
  then have "in_i 128 (?m * ?d)" "try_into_i 64 (p_raw x) = Some (p_raw x)"
    by (simp_all add: x in_i_def try_into_i_def checked_i_def price_consts)
  then show "price_from_decimal (price_as_decimal x) = Inr x"
    using mantissa_exponent_exact [OF p(2), of ?m] s p(2) x r
    by (simp add: price_from_decimal_def price_as_decimal_def price_from_decimal_dp_def
        neg_scale_i8_small)
qed

theorem decimal_round_trip_witness:
  "quantity_from_decimal (quantity_as_decimal \<lparr>q_raw = 1500000000, q_precision = 1\<rparr>)
     = Inr \<lparr>q_raw = 1500000000, q_precision = 1\<rparr> \<and>
   price_from_decimal (price_as_decimal \<lparr>p_raw = - 1250000000, p_precision = 2\<rparr>)
     = Inr \<lparr>p_raw = - 1250000000, p_precision = 2\<rparr>"
  by (rule decimal_round_trip)
    (simp_all add: wf_quantity_def wf_price_def quantity_is_undefined_def price_is_sentinel_def
      FIXED_PRECISION_def quantity_consts price_consts)

text \<open>
  (C35) Correcting a raw price in range to its precision gives a value that passes the raw
  validation, is at most half a unit of the precision away, and is the value itself when that
  already passes; correcting a raw quantity does the same.
\<close>

theorem correct_raw_valid_nearest:
  assumes "p \<le> FIXED_PRECISION" and "PRICE_RAW_MIN \<le> r" and "r \<le> PRICE_RAW_MAX"
    and "n \<le> QUANTITY_RAW_MAX"
  shows "check_fixed_raw_i64 (correct_price_raw r p) p = Inr () \<and>
    2 * \<bar>r - correct_price_raw r p\<bar> \<le> 10 ^ (FIXED_PRECISION - p) \<and>
    (check_fixed_raw_i64 r p = Inr () \<longrightarrow> correct_price_raw r p = r) \<and>
    check_fixed_raw_u64 (correct_quantity_raw n p) p = Inr () \<and>
    2 * \<bar>int n - int (correct_quantity_raw n p)\<bar> \<le> 10 ^ (FIXED_PRECISION - p) \<and>
    (check_fixed_raw_u64 n p = Inr () \<longrightarrow> correct_quantity_raw n p = n)"
proof (cases "p < FIXED_PRECISION")
  case False
  with assms(1) have "p = FIXED_PRECISION" by simp
  then show ?thesis
    by (simp add: correct_price_raw_def correct_raw_i64_def correct_raw_i_def correct_quantity_raw_def
        correct_raw_u64_def correct_raw_u_def check_fixed_raw_i64_def check_fixed_raw_u64_def
        should_skip_validation_def)
next
  case True
  define s :: nat where "s = 10 ^ (FIXED_PRECISION - p)"
  have s: "0 < s" "int s = 10 ^ (FIXED_PRECISION - p)" by (simp_all add: s_def)
  have ps: "PRICE_RAW_MAX = 9223372036 * 10 ^ FIXED_PRECISION"
    "PRICE_RAW_MIN = - (9223372036 * 10 ^ FIXED_PRECISION)"
    "QUANTITY_RAW_MAX = 18446744073 * 10 ^ FIXED_PRECISION"
    by (simp_all add: price_consts quantity_consts FIXED_PRECISION_def)
  have dvd: "int s dvd PRICE_RAW_MAX" "int s dvd PRICE_RAW_MIN" "int s dvd int QUANTITY_RAW_MAX"
    unfolding ps s(2) by (simp_all add: le_imp_power_dvd)
  have "in_i 64 (if 0 \<le> r then r - r smod int s + int s else r - r smod int s - int s)"
    if "r smod int s \<noteq> 0"
    by (rule round_away_in_range [OF _ dvd(1,2) assms(2,3) that]) (use s in simp)
  then have "int s dvd correct_raw_i 64 r p \<and> 2 * \<bar>r - correct_raw_i 64 r p\<bar> \<le> int s"
    using correct_raw_i_spec [OF True, of 64 r] price_range_i64 [OF assms(2,3)] s
    by (cases "r smod int s = 0") (auto split: if_splits)
  moreover have "n + (s - n mod s) \<le> u_max 64" if "n mod s \<noteq> 0"
    by (rule round_up_in_range [OF s(1) _ assms(4) that]) (use dvd in simp)
  then have "s dvd correct_raw_u 64 n p \<and> 2 * \<bar>int n - int (correct_raw_u 64 n p)\<bar> \<le> int s"
    using correct_raw_u_spec [OF True, of n 64, folded s_def] quantity_max_lt_undef [OF assms(4)]
    by (cases "n mod s = 0") (auto simp del: u_max_64)
  moreover have "r smod int s = 0 \<longrightarrow> correct_raw_i 64 r p = r" and "n mod s = 0 \<longrightarrow> correct_raw_u 64 n p = n"
    using s by (auto simp: correct_raw_i_def correct_raw_u_def s_def)
  moreover have "a smod int s = 0" if "int s dvd a" for a
    using that by (simp add: signed_modulo_int_def)
  moreover have "POWERS_OF_10 ! (FIXED_PRECISION - p) = s" by (simp add: s_def)
  ultimately show ?thesis
    using True s_def unfolding s(2) [symmetric]
    by (simp add: correct_price_raw_def correct_raw_i64_def correct_quantity_raw_def Let_def
        correct_raw_u64_def check_fixed_raw_i64_def check_fixed_raw_u64_def
        should_skip_validation_def del: scale_nth)
qed

theorem correct_raw_valid_nearest_witness:
  "2 * \<bar>- 1250000001 - correct_price_raw (- 1250000001) 2\<bar> \<le> 10000000 \<and>
   2 * \<bar>int 1250000001 - int (correct_quantity_raw 1250000001 2)\<bar> \<le> 10000000"
  using correct_raw_valid_nearest [of 2 "- 1250000001" 1250000001]
  by (simp add: FIXED_PRECISION_def price_consts quantity_consts)

end
