(* ===== verification/Money_Types.thy ===== *)
theory Money_Types
  imports Value_Types
begin

text \<open>
  \<^verbatim>\<open>Currency\<close>, \<^verbatim>\<open>Money\<close>, \<^verbatim>\<open>AccountBalance\<close> and \<^verbatim>\<open>MarginBalance\<close> of
  \<^verbatim>\<open>crates/model/src/types\<close>. Two currencies are equal in the code when their codes are.
  An operation that asserts equal currencies returns \<^const>\<open>None\<close> (a panic) otherwise; where
  the code returns an \<^verbatim>\<open>Option\<close> as well, the two options are nested.
\<close>

datatype currency_type = Crypto | Fiat | CommodityBacked

record currency =
  c_code :: string
  c_precision :: nat
  c_iso4217 :: nat
  c_name :: string
  c_currency_type :: currency_type

definition currency_eq :: "currency \<Rightarrow> currency \<Rightarrow> bool" where
  "currency_eq a b \<longleftrightarrow> c_code a = c_code b"

section \<open>Money\<close>

record money =
  m_raw :: int
  m_currency :: currency

definition MONEY_RAW_MAX :: int where
  "MONEY_RAW_MAX = 9223372036 * int FIXED_SCALAR"

definition MONEY_RAW_MIN :: int where
  "MONEY_RAW_MIN = - 9223372036 * int FIXED_SCALAR"

definition money_from_raw_checked :: "int \<Rightarrow> currency \<Rightarrow> correctness_error + money" where
  "money_from_raw_checked raw cur =
     (if raw < MONEY_RAW_MIN \<or> raw > MONEY_RAW_MAX then Inl PredicateViolation
      else case check_fixed_precision (c_precision cur) of
             Inl e \<Rightarrow> Inl e
           | Inr _ \<Rightarrow> Inr \<lparr>m_raw = raw, m_currency = cur\<rparr>)"

definition money_from_raw :: "int \<Rightarrow> currency \<Rightarrow> money option" where
  "money_from_raw raw cur =
     (case money_from_raw_checked raw cur of Inl _ \<Rightarrow> None | Inr m \<Rightarrow> Some m)"

definition money_from_mantissa_exponent :: "int \<Rightarrow> int \<Rightarrow> currency \<Rightarrow> money option" where
  "money_from_mantissa_exponent m exponent cur =
     (case check_fixed_precision (c_precision cur) of
        Inl _ \<Rightarrow> None
      | Inr _ \<Rightarrow>
          if m = 0 then Some \<lparr>m_raw = 0, m_currency = cur\<rparr>
          else case mantissa_exponent_to_fixed_i128 m exponent (c_precision cur) of
                 Inl _ \<Rightarrow> None
               | Inr raw_i128 \<Rightarrow>
                   (case try_into_i 64 raw_i128 of
                      None \<Rightarrow> None
                    | Some raw \<Rightarrow>
                        if raw \<ge> MONEY_RAW_MIN \<and> raw \<le> MONEY_RAW_MAX
                        then Some \<lparr>m_raw = raw, m_currency = cur\<rparr> else None))"

definition money_zero :: "currency \<Rightarrow> money option" where
  "money_zero cur =
     (case check_fixed_precision (c_precision cur) of
        Inl _ \<Rightarrow> None | Inr _ \<Rightarrow> Some \<lparr>m_raw = 0, m_currency = cur\<rparr>)"

definition money_normalized :: "money \<Rightarrow> money" where
  "money_normalized m =
     \<lparr>m_raw = correct_raw_i64 (m_raw m) (c_precision (m_currency m)), m_currency = m_currency m\<rparr>"

definition money_is_zero :: "money \<Rightarrow> bool" where
  "money_is_zero m \<longleftrightarrow> m_raw m = 0"

definition money_is_positive :: "money \<Rightarrow> bool" where
  "money_is_positive m \<longleftrightarrow> m_raw m > 0"

definition money_checked_add :: "money \<Rightarrow> money \<Rightarrow> money option option" where
  "money_checked_add a b =
     (if \<not> currency_eq (m_currency a) (m_currency b) then None
      else Some
        (if \<not> raw_scales_match (c_precision (m_currency a)) (c_precision (m_currency b)) then None
         else case checked_add_i 64 (m_raw a) (m_raw b) of
                None \<Rightarrow> None
              | Some raw \<Rightarrow>
                  if raw < MONEY_RAW_MIN \<or> raw > MONEY_RAW_MAX then None
                  else Some \<lparr>m_raw = raw, m_currency = m_currency a\<rparr>))"

definition money_checked_sub :: "money \<Rightarrow> money \<Rightarrow> money option option" where
  "money_checked_sub a b =
     (if \<not> currency_eq (m_currency a) (m_currency b) then None
      else Some
        (if \<not> raw_scales_match (c_precision (m_currency a)) (c_precision (m_currency b)) then None
         else case checked_sub_i 64 (m_raw a) (m_raw b) of
                None \<Rightarrow> None
              | Some raw \<Rightarrow>
                  if raw < MONEY_RAW_MIN \<or> raw > MONEY_RAW_MAX then None
                  else Some \<lparr>m_raw = raw, m_currency = m_currency a\<rparr>))"

definition money_as_decimal :: "money \<Rightarrow> decimal" where
  "money_as_decimal m =
     \<lparr>mantissa = m_raw m sdiv 10 ^ (FIXED_PRECISION - c_precision (m_currency m)),
      scale = c_precision (m_currency m)\<rparr>"

definition money_from_decimal :: "decimal \<Rightarrow> currency \<Rightarrow> correctness_error + money" where
  "money_from_decimal d cur =
     (case mantissa_exponent_to_fixed_i128 (mantissa d) (neg_scale_i8 (scale d)) (c_precision cur) of
        Inl e \<Rightarrow> Inl e
      | Inr raw_i128 \<Rightarrow>
          (case try_into_i 64 raw_i128 of
             None \<Rightarrow> Inl PredicateViolation
           | Some raw \<Rightarrow>
               if \<not> (raw \<ge> MONEY_RAW_MIN \<and> raw \<le> MONEY_RAW_MAX) then Inl PredicateViolation
               else Inr \<lparr>m_raw = raw, m_currency = cur\<rparr>))"

definition money_eq :: "money \<Rightarrow> money \<Rightarrow> bool" where
  "money_eq a b \<longleftrightarrow> m_raw a = m_raw b \<and> currency_eq (m_currency a) (m_currency b)"

definition money_lt :: "money \<Rightarrow> money \<Rightarrow> bool option" where
  "money_lt a b =
     (if currency_eq (m_currency a) (m_currency b) then Some (m_raw a < m_raw b) else None)"

definition money_le :: "money \<Rightarrow> money \<Rightarrow> bool option" where
  "money_le a b =
     (if currency_eq (m_currency a) (m_currency b) then Some (m_raw a \<le> m_raw b) else None)"

text \<open>Negation is the wrapping negation of a release build.\<close>

definition money_neg :: "money \<Rightarrow> money" where
  "money_neg m = \<lparr>m_raw = wrap_i 64 (- m_raw m), m_currency = m_currency m\<rparr>"

definition check_positive_money :: "money \<Rightarrow> correctness_error + unit" where
  "check_positive_money value = (if m_raw value \<le> 0 then Inl NotPositive else Inr ())"

definition money_add :: "money \<Rightarrow> money \<Rightarrow> money option" where
  "money_add a b =
     (if \<not> currency_eq (m_currency a) (m_currency b) then None
      else case checked_add_i 64 (m_raw a) (m_raw b) of
             None \<Rightarrow> None
           | Some raw \<Rightarrow> Some \<lparr>m_raw = raw, m_currency = m_currency a\<rparr>)"

definition money_sub :: "money \<Rightarrow> money \<Rightarrow> money option" where
  "money_sub a b =
     (if \<not> currency_eq (m_currency a) (m_currency b) then None
      else case checked_sub_i 64 (m_raw a) (m_raw b) of
             None \<Rightarrow> None
           | Some raw \<Rightarrow> Some \<lparr>m_raw = raw, m_currency = m_currency a\<rparr>)"

section \<open>Balances\<close>

record account_balance =
  ab_currency :: currency
  ab_total :: money
  ab_locked :: money
  ab_free :: money

text \<open>
  \<^verbatim>\<open>locked.checked_add(free) == Some(total)\<close> may panic in \<^verbatim>\<open>checked_add\<close>, so the
  constructor is option-valued around its result.
\<close>

definition account_balance_new_checked ::
    "money \<Rightarrow> money \<Rightarrow> money \<Rightarrow> (correctness_error + account_balance) option" where
  "account_balance_new_checked total_m locked free =
     (case check_predicate_true (currency_eq (m_currency total_m) (m_currency locked)) of
        Inl e \<Rightarrow> Some (Inl e)
      | Inr _ \<Rightarrow>
          (case check_predicate_true (currency_eq (m_currency total_m) (m_currency free)) of
             Inl e \<Rightarrow> Some (Inl e)
           | Inr _ \<Rightarrow>
               (case money_checked_add locked free of
                  None \<Rightarrow> None
                | Some total_opt \<Rightarrow>
                    (case check_predicate_true
                            (case total_opt of None \<Rightarrow> False | Some s \<Rightarrow> money_eq s total_m) of
                       Inl e \<Rightarrow> Some (Inl e)
                     | Inr _ \<Rightarrow>
                         Some (Inr \<lparr>ab_currency = m_currency total_m, ab_total = total_m,
                                    ab_locked = locked, ab_free = free\<rparr>)))))"

definition account_balance_new :: "money \<Rightarrow> money \<Rightarrow> money \<Rightarrow> account_balance option" where
  "account_balance_new total_m locked free =
     (case account_balance_new_checked total_m locked free of
        None \<Rightarrow> None
      | Some (Inl _) \<Rightarrow> None
      | Some (Inr b) \<Rightarrow> Some b)"

definition from_total_and_locked ::
    "decimal \<Rightarrow> decimal \<Rightarrow> currency \<Rightarrow> (correctness_error + account_balance) option" where
  "from_total_and_locked total_dec locked_dec cur =
     (case money_from_decimal total_dec cur of
        Inl e \<Rightarrow> Some (Inl e)
      | Inr total_m \<Rightarrow>
          (case money_from_decimal locked_dec cur of
             Inl e \<Rightarrow> Some (Inl e)
           | Inr locked \<Rightarrow>
               (let locked_raw =
                  (if m_raw total_m \<ge> 0 then clamp_i (m_raw locked) 0 (m_raw total_m)
                   else m_raw locked)
                in case money_from_raw locked_raw cur of
                     None \<Rightarrow> None
                   | Some clamped_locked \<Rightarrow>
                       (case checked_sub_i 64 (m_raw total_m) (m_raw clamped_locked) of
                          None \<Rightarrow> Some (Inl PredicateViolation)
                        | Some free_raw \<Rightarrow>
                            (case money_from_raw_checked free_raw cur of
                               Inl e \<Rightarrow> Some (Inl e)
                             | Inr free \<Rightarrow>
                                 (case account_balance_new total_m clamped_locked free of
                                    None \<Rightarrow> None
                                  | Some b \<Rightarrow> Some (Inr b)))))))"

definition from_total_and_free ::
    "decimal \<Rightarrow> decimal \<Rightarrow> currency \<Rightarrow> (correctness_error + account_balance) option" where
  "from_total_and_free total_dec free_dec cur =
     (case money_from_decimal total_dec cur of
        Inl e \<Rightarrow> Some (Inl e)
      | Inr total_m \<Rightarrow>
          (case money_from_decimal free_dec cur of
             Inl e \<Rightarrow> Some (Inl e)
           | Inr free \<Rightarrow>
               (let free_raw =
                  (if m_raw total_m \<ge> 0 then clamp_i (m_raw free) 0 (m_raw total_m)
                   else m_raw free)
                in case money_from_raw free_raw cur of
                     None \<Rightarrow> None
                   | Some clamped_free \<Rightarrow>
                       (case checked_sub_i 64 (m_raw total_m) (m_raw clamped_free) of
                          None \<Rightarrow> Some (Inl PredicateViolation)
                        | Some locked_raw \<Rightarrow>
                            (case money_from_raw_checked locked_raw cur of
                               Inl e \<Rightarrow> Some (Inl e)
                             | Inr locked \<Rightarrow>
                                 (case account_balance_new total_m locked clamped_free of
                                    None \<Rightarrow> None
                                  | Some b \<Rightarrow> Some (Inr b)))))))"

record margin_balance =
  mb_initial :: money
  mb_maintenance :: money
  mb_currency :: currency
  mb_instrument_id :: "string option"

definition margin_balance_new_checked ::
    "money \<Rightarrow> money \<Rightarrow> string option \<Rightarrow> correctness_error + margin_balance" where
  "margin_balance_new_checked initial maintenance instrument_id =
     (case check_predicate_true (currency_eq (m_currency initial) (m_currency maintenance)) of
        Inl e \<Rightarrow> Inl e
      | Inr _ \<Rightarrow>
          Inr \<lparr>mb_initial = initial, mb_maintenance = maintenance, mb_currency = m_currency initial,
               mb_instrument_id = instrument_id\<rparr>)"

section \<open>The range invariant of money\<close>

definition wf_money :: "money \<Rightarrow> bool" where
  "wf_money m \<longleftrightarrow>
     MONEY_RAW_MIN \<le> m_raw m \<and> m_raw m \<le> MONEY_RAW_MAX \<and>
     c_precision (m_currency m) \<le> FIXED_PRECISION"

lemma money_range_i64:
  "MONEY_RAW_MIN \<le> x \<Longrightarrow> x \<le> MONEY_RAW_MAX \<Longrightarrow> in_i 64 x"
  by (simp add: MONEY_RAW_MIN_def MONEY_RAW_MAX_def FIXED_SCALAR_def in_i_def)

lemma money_from_raw_checked_Inr [simp]:
  "money_from_raw_checked raw cur = Inr m \<longleftrightarrow>
     m = \<lparr>m_raw = raw, m_currency = cur\<rparr> \<and> wf_money m"
  by (auto simp: money_from_raw_checked_def wf_money_def check_fixed_precision_def)

lemma money_from_raw_Some [simp]:
  "money_from_raw raw cur = Some m \<longleftrightarrow>
     m = \<lparr>m_raw = raw, m_currency = cur\<rparr> \<and> wf_money m"
  by (auto simp: money_from_raw_def split: sum.splits)
    (metis Inl_Inr_False money_from_raw_checked_Inr)

lemma money_from_decimal_wf:
  "money_from_decimal d cur = Inr m \<Longrightarrow> wf_money m \<and> m_currency m = cur"
  by (auto simp: money_from_decimal_def wf_money_def mantissa_exponent_to_fixed_i128_def
      check_fixed_precision_def split: sum.splits option.splits if_splits)

lemma currency_eq_refl [simp]: "currency_eq c c"
  by (simp add: currency_eq_def)

lemma raw_scales_match_refl [simp]: "raw_scales_match p p"
  by (simp add: raw_scales_match_def)

lemma account_balance_new_total:
  assumes "wf_money t" and "m_raw l + m_raw f = m_raw t"
    and "m_currency l = m_currency t" and "m_currency f = m_currency t"
  shows "account_balance_new t l f =
    Some \<lparr>ab_currency = m_currency t, ab_total = t, ab_locked = l, ab_free = f\<rparr>"
proof -
  have "in_i 64 (m_raw l + m_raw f)"
    using assms money_range_i64 by (simp add: wf_money_def)
  then have "money_checked_add l f = Some (Some \<lparr>m_raw = m_raw t, m_currency = m_currency t\<rparr>)"
    using assms by (simp add: money_checked_add_def checked_add_i_def checked_i_def wf_money_def)
  then show ?thesis
    using assms by (simp add: account_balance_new_def account_balance_new_checked_def
        check_predicate_true_def money_eq_def)
qed

text \<open>
  The shared core of the two balance constructors: what is left of the total when a clamped
  part is taken out of it.
\<close>

lemma clamp_part:
  assumes "wf_money t" and "wf_money x"
  defines "c \<equiv> (if m_raw t \<ge> 0 then clamp_i (m_raw x) 0 (m_raw t) else m_raw x)"
  shows "MONEY_RAW_MIN \<le> c \<and> c \<le> MONEY_RAW_MAX \<and>
    (0 \<le> m_raw t \<longrightarrow> 0 \<le> c \<and> c \<le> m_raw t) \<and> (m_raw t < 0 \<longrightarrow> c = m_raw x)"
  using assms by (auto simp: wf_money_def clamp_i_def MONEY_RAW_MIN_def MONEY_RAW_MAX_def
      FIXED_SCALAR_def)

definition derive_part ::
    "(money \<Rightarrow> money \<Rightarrow> account_balance option) \<Rightarrow> money \<Rightarrow> money \<Rightarrow> currency \<Rightarrow>
     (correctness_error + account_balance) option" where
  "derive_part new total_m part cur =
     (let part_raw = (if m_raw total_m \<ge> 0 then clamp_i (m_raw part) 0 (m_raw total_m)
                      else m_raw part)
      in case money_from_raw part_raw cur of
           None \<Rightarrow> None
         | Some clamped \<Rightarrow>
             (case checked_sub_i 64 (m_raw total_m) (m_raw clamped) of
                None \<Rightarrow> Some (Inl PredicateViolation)
              | Some rest_raw \<Rightarrow>
                  (case money_from_raw_checked rest_raw cur of
                     Inl e \<Rightarrow> Some (Inl e)
                   | Inr rest \<Rightarrow>
                       (case new clamped rest of None \<Rightarrow> None | Some b \<Rightarrow> Some (Inr b)))))"

lemma from_total_and_locked_derive:
  "from_total_and_locked td ld cur =
     (case money_from_decimal td cur of
        Inl e \<Rightarrow> Some (Inl e)
      | Inr t \<Rightarrow>
          (case money_from_decimal ld cur of
             Inl e \<Rightarrow> Some (Inl e)
           | Inr l \<Rightarrow> derive_part (\<lambda>l f. account_balance_new t l f) t l cur))"
  unfolding from_total_and_locked_def derive_part_def ..

lemma from_total_and_free_derive:
  "from_total_and_free td fd cur =
     (case money_from_decimal td cur of
        Inl e \<Rightarrow> Some (Inl e)
      | Inr t \<Rightarrow>
          (case money_from_decimal fd cur of
             Inl e \<Rightarrow> Some (Inl e)
           | Inr f \<Rightarrow> derive_part (\<lambda>f l. account_balance_new t l f) t f cur))"
  unfolding from_total_and_free_def derive_part_def ..

lemma derive_part_cases:
  assumes t: "wf_money t" "m_currency t = cur" and x: "wf_money x" "m_currency x = cur"
  defines "c \<equiv> (if m_raw t \<ge> 0 then clamp_i (m_raw x) 0 (m_raw t) else m_raw x)"
  defines "lk \<equiv> \<lparr>m_raw = c, m_currency = cur\<rparr>"
  defines "fr \<equiv> \<lparr>m_raw = m_raw t - c, m_currency = cur\<rparr>"
  shows "wf_money lk"
    and "derive_part new t x cur =
      (if wf_money fr then (case new lk fr of None \<Rightarrow> None | Some b \<Rightarrow> Some (Inr b))
       else Some (Inl PredicateViolation))"
    and "0 \<le> m_raw t \<Longrightarrow> wf_money fr \<and> 0 \<le> c \<and> c \<le> m_raw t"
proof -
  have p: "c_precision cur \<le> FIXED_PRECISION"
    using t by (auto simp: wf_money_def)
  have c: "MONEY_RAW_MIN \<le> c" "c \<le> MONEY_RAW_MAX"
    "0 \<le> m_raw t \<longrightarrow> 0 \<le> c \<and> c \<le> m_raw t"
    using clamp_part [OF t(1) x(1)] by (simp_all add: c_def)
  then show lk: "wf_money lk"
    using p by (simp add: wf_money_def lk_def)
  show "wf_money fr \<and> 0 \<le> c \<and> c \<le> m_raw t" if "0 \<le> m_raw t"
    using c that p t(1) by (auto simp: wf_money_def fr_def MONEY_RAW_MIN_def FIXED_SCALAR_def)
  have raw: "money_from_raw c cur = Some lk"
    using lk by (simp add: lk_def)
  show "derive_part new t x cur =
      (if wf_money fr then (case new lk fr of None \<Rightarrow> None | Some b \<Rightarrow> Some (Inr b))
       else Some (Inl PredicateViolation))"
  proof (cases "wf_money fr")
    case True
    then have "in_i 64 (m_raw t - c)" using money_range_i64 by (simp add: wf_money_def fr_def)
    moreover have "money_from_raw_checked (m_raw t - c) cur = Inr fr"
      using True by (simp add: fr_def)
    ultimately show ?thesis
      using True raw unfolding derive_part_def c_def [symmetric] Let_def
      by (simp add: checked_sub_i_def checked_i_def lk_def
          del: money_from_raw_checked_Inr money_from_raw_Some)
  next
    case False
    then have "money_from_raw_checked (m_raw t - c) cur = Inl PredicateViolation"
      using p by (auto simp: money_from_raw_checked_def wf_money_def fr_def)
    then show ?thesis
      using False raw unfolding derive_part_def c_def [symmetric] Let_def
      by (simp add: checked_sub_i_def checked_i_def lk_def
          del: money_from_raw_checked_Inr money_from_raw_Some)
  qed
qed

lemma account_balance_new_Some:
  "account_balance_new t l f = Some b \<Longrightarrow>
     ab_total b = t \<and> ab_locked b = l \<and> ab_free b = f \<and> ab_currency b = m_currency t"
  by (auto simp: account_balance_new_def account_balance_new_checked_def
      split: option.splits sum.splits)

definition wf_balance :: "account_balance \<Rightarrow> bool" where
  "wf_balance b \<longleftrightarrow>
     wf_money (ab_total b) \<and> wf_money (ab_locked b) \<and> wf_money (ab_free b) \<and>
     m_currency (ab_total b) = ab_currency b \<and> m_currency (ab_locked b) = ab_currency b \<and>
     m_currency (ab_free b) = ab_currency b \<and>
     m_raw (ab_total b) = m_raw (ab_locked b) + m_raw (ab_free b) \<and>
     (0 \<le> m_raw (ab_total b) \<longrightarrow> 0 \<le> m_raw (ab_locked b) \<and> 0 \<le> m_raw (ab_free b))"

lemmas balance_evals = from_total_and_locked_def from_total_and_free_def money_from_decimal_def
  money_from_raw_def money_from_raw_checked_def account_balance_new_def
  account_balance_new_checked_def money_checked_add_def money_eq_def check_predicate_true_def
  checked_add_i_def checked_sub_i_def try_into_i_def MONEY_RAW_MAX_def MONEY_RAW_MIN_def
  FIXED_SCALAR_def neg_scale_i8_def wrap_i_def clamp_i_def fixed_evals

text \<open>
  (C32) Building a balance from a total and a locked amount never panics. A balance it returns
  satisfies total = locked + free in fixed point, with every part in range and in the given
  currency; when the total is not negative neither part is. The total is the converted total, and
  a locked amount that already fits (or any, for a negative total) is kept as it is.
\<close>

theorem from_total_and_locked_result:
  "\<exists>r. from_total_and_locked td ld cur = Some r \<and>
     (case r of
        Inl _ \<Rightarrow> True
      | Inr b \<Rightarrow> wf_balance b \<and> ab_currency b = cur \<and> money_from_decimal td cur = Inr (ab_total b) \<and>
          (\<forall>l. money_from_decimal ld cur = Inr l \<and> (m_raw (ab_total b) < 0 \<or>
                 0 \<le> m_raw l \<and> m_raw l \<le> m_raw (ab_total b)) \<longrightarrow> ab_locked b = l))"
proof (cases "\<exists>t l. money_from_decimal td cur = Inr t \<and> money_from_decimal ld cur = Inr l")
  case False
  then show ?thesis
    by (cases "money_from_decimal td cur"; cases "money_from_decimal ld cur")
      (auto simp: from_total_and_locked_derive)
next
  case True
  then obtain t l where e: "money_from_decimal td cur = Inr t" "money_from_decimal ld cur = Inr l"
    by blast
  note w = money_from_decimal_wf [OF e(1)] money_from_decimal_wf [OF e(2)]
  define c where "c = (if m_raw t \<ge> 0 then clamp_i (m_raw l) 0 (m_raw t) else m_raw l)"
  note d = derive_part_cases [of t cur l, folded c_def]
  have new: "account_balance_new t \<lparr>m_raw = c, m_currency = cur\<rparr> \<lparr>m_raw = m_raw t - c, m_currency = cur\<rparr>
      = Some \<lparr>ab_currency = cur, ab_total = t, ab_locked = \<lparr>m_raw = c, m_currency = cur\<rparr>,
              ab_free = \<lparr>m_raw = m_raw t - c, m_currency = cur\<rparr>\<rparr>"
    using w by (subst account_balance_new_total) auto
  have l: "\<lparr>m_raw = c, m_currency = cur\<rparr> = l"
    if "m_raw t < 0 \<or> 0 \<le> m_raw l \<and> m_raw l \<le> m_raw t"
    using that w by (cases l) (auto simp: c_def clamp_i_def)
  show ?thesis
    using e w d new l by (auto simp: from_total_and_locked_derive wf_balance_def)
qed

theorem from_total_and_locked_result_witness:
  "from_total_and_locked \<lparr>mantissa = 10, scale = 0\<rparr> \<lparr>mantissa = 15, scale = 0\<rparr>
     \<lparr>c_code = ''USD'', c_precision = 2, c_iso4217 = 840, c_name = ''US Dollar'', c_currency_type = Fiat\<rparr>
     \<noteq> None \<and>
   (\<exists>b. from_total_and_locked \<lparr>mantissa = - 10, scale = 0\<rparr> \<lparr>mantissa = 3, scale = 0\<rparr>
     \<lparr>c_code = ''USD'', c_precision = 2, c_iso4217 = 840, c_name = ''US Dollar'', c_currency_type = Fiat\<rparr>
     = Some (Inr b) \<and> wf_balance b)"
proof -
  let ?c = "\<lparr>c_code = ''USD'', c_precision = 2, c_iso4217 = 840, c_name = ''US Dollar'',
             c_currency_type = Fiat\<rparr>"
  have "\<exists>b. from_total_and_locked \<lparr>mantissa = - 10, scale = 0\<rparr> \<lparr>mantissa = 3, scale = 0\<rparr> ?c =
      Some (Inr b)"
    by (simp add: balance_evals)
  then show ?thesis
    using from_total_and_locked_result
        [of "\<lparr>mantissa = 10, scale = 0\<rparr>" "\<lparr>mantissa = 15, scale = 0\<rparr>" ?c]
      from_total_and_locked_result
        [of "\<lparr>mantissa = - 10, scale = 0\<rparr>" "\<lparr>mantissa = 3, scale = 0\<rparr>" ?c]
    by auto
qed

text \<open>
  (C33) Building a balance from a total and a free amount has the same guarantees, with the free
  amount kept and the locked amount derived.
\<close>

theorem from_total_and_free_result:
  "\<exists>r. from_total_and_free td fd cur = Some r \<and>
     (case r of
        Inl _ \<Rightarrow> True
      | Inr b \<Rightarrow> wf_balance b \<and> ab_currency b = cur \<and> money_from_decimal td cur = Inr (ab_total b) \<and>
          (\<forall>f. money_from_decimal fd cur = Inr f \<and> (m_raw (ab_total b) < 0 \<or>
                 0 \<le> m_raw f \<and> m_raw f \<le> m_raw (ab_total b)) \<longrightarrow> ab_free b = f))"
proof (cases "\<exists>t f. money_from_decimal td cur = Inr t \<and> money_from_decimal fd cur = Inr f")
  case False
  then show ?thesis
    by (cases "money_from_decimal td cur"; cases "money_from_decimal fd cur")
      (auto simp: from_total_and_free_derive)
next
  case True
  then obtain t f where e: "money_from_decimal td cur = Inr t" "money_from_decimal fd cur = Inr f"
    by blast
  note w = money_from_decimal_wf [OF e(1)] money_from_decimal_wf [OF e(2)]
  define c where "c = (if m_raw t \<ge> 0 then clamp_i (m_raw f) 0 (m_raw t) else m_raw f)"
  note d = derive_part_cases [of t cur f, folded c_def]
  have new: "account_balance_new t \<lparr>m_raw = m_raw t - c, m_currency = cur\<rparr> \<lparr>m_raw = c, m_currency = cur\<rparr>
      = Some \<lparr>ab_currency = cur, ab_total = t, ab_locked = \<lparr>m_raw = m_raw t - c, m_currency = cur\<rparr>,
              ab_free = \<lparr>m_raw = c, m_currency = cur\<rparr>\<rparr>"
    using w by (subst account_balance_new_total) auto
  have f: "\<lparr>m_raw = c, m_currency = cur\<rparr> = f"
    if "m_raw t < 0 \<or> 0 \<le> m_raw f \<and> m_raw f \<le> m_raw t"
    using that w by (cases f) (auto simp: c_def clamp_i_def)
  show ?thesis
    using e w d new f by (auto simp: from_total_and_free_derive wf_balance_def)
qed

theorem from_total_and_free_result_witness:
  "\<exists>b. from_total_and_free \<lparr>mantissa = - 10, scale = 0\<rparr> \<lparr>mantissa = 3, scale = 0\<rparr>
     \<lparr>c_code = ''USD'', c_precision = 2, c_iso4217 = 840, c_name = ''US Dollar'', c_currency_type = Fiat\<rparr>
     = Some (Inr b) \<and> wf_balance b"
proof -
  let ?c = "\<lparr>c_code = ''USD'', c_precision = 2, c_iso4217 = 840, c_name = ''US Dollar'',
             c_currency_type = Fiat\<rparr>"
  have "\<exists>b. from_total_and_free \<lparr>mantissa = - 10, scale = 0\<rparr> \<lparr>mantissa = 3, scale = 0\<rparr> ?c =
      Some (Inr b)"
    by (simp add: balance_evals)
  then show ?thesis
    using from_total_and_free_result
        [of "\<lparr>mantissa = - 10, scale = 0\<rparr>" "\<lparr>mantissa = 3, scale = 0\<rparr>" ?c]
    by auto
qed

end
