(* ===== verification/Ordered_Map.thy ===== *)
theory Ordered_Map
  imports Prelude
begin

text \<open>
  Rust's \<^verbatim>\<open>BTreeMap\<close>: an association list kept strictly sorted by the rank of its keys,
  the rank being an order embedding of the keys' \<^verbatim>\<open>Ord\<close> into the integers. Inserting under
  a key that is already present keeps the old key and replaces the value. The locale at the end
  is the interface the order book relies on, and its interpretation shows that the sorted lists
  provide it for every rank.
\<close>

fun bt_get :: "('k \<Rightarrow> int) \<Rightarrow> 'k \<Rightarrow> ('k \<times> 'v) list \<Rightarrow> 'v option" where
  "bt_get r k [] = None"
| "bt_get r k ((k', v) # m) = (if r k = r k' then Some v else bt_get r k m)"

fun bt_insert :: "('k \<Rightarrow> int) \<Rightarrow> 'k \<Rightarrow> 'v \<Rightarrow> ('k \<times> 'v) list \<Rightarrow> ('k \<times> 'v) list" where
  "bt_insert r k v [] = [(k, v)]"
| "bt_insert r k v ((k', v') # m) =
     (if r k < r k' then (k, v) # (k', v') # m
      else if r k = r k' then (k', v) # m
      else (k', v') # bt_insert r k v m)"

fun bt_remove :: "('k \<Rightarrow> int) \<Rightarrow> 'k \<Rightarrow> ('k \<times> 'v) list \<Rightarrow> ('k \<times> 'v) list" where
  "bt_remove r k [] = []"
| "bt_remove r k ((k', v) # m) = (if r k = r k' then m else (k', v) # bt_remove r k m)"

definition bt_sorted :: "('k \<Rightarrow> int) \<Rightarrow> ('k \<times> 'v) list \<Rightarrow> bool" where
  "bt_sorted r m \<longleftrightarrow> sorted_wrt (<) (map (\<lambda>(k, _). r k) m)"

lemma bt_sorted_Nil [simp]: "bt_sorted r []"
  by (simp add: bt_sorted_def)

lemma bt_sorted_Cons [simp]:
  "bt_sorted r ((k, v) # m) \<longleftrightarrow> (\<forall>(k', _) \<in> set m. r k < r k') \<and> bt_sorted r m"
  by (auto simp: bt_sorted_def)

lemma bt_insert_keys:
  "(a, b) \<in> set (bt_insert r k v m) \<Longrightarrow> (a, b) \<in> set m \<or> r a = r k \<and> b = v"
  by (induction r k v m rule: bt_insert.induct) (auto split: if_splits)

lemma bt_insert_fst: "(a, b) \<in> set (bt_insert r k v m) \<Longrightarrow> a = k \<or> (\<exists>c. (a, c) \<in> set m)"
  by (induction r k v m rule: bt_insert.induct) (auto split: if_splits)

lemma bt_insert_length: "length (bt_insert r k v m) \<le> Suc (length m)"
  by (induction r k v m rule: bt_insert.induct) auto

lemma bt_insert_nonempty [simp]: "bt_insert r k v m \<noteq> []"
  by (induction r k v m rule: bt_insert.induct) auto

lemma bt_insert_sorted [simp]: "bt_sorted r m \<Longrightarrow> bt_sorted r (bt_insert r k v m)"
  by (induction r k v m rule: bt_insert.induct) (auto dest!: bt_insert_keys split: if_splits)

lemma bt_remove_subset: "set (bt_remove r k m) \<subseteq> set m"
  by (induction r k m rule: bt_remove.induct) auto

lemma bt_remove_sorted [simp]: "bt_sorted r m \<Longrightarrow> bt_sorted r (bt_remove r k m)"
  by (induction r k m rule: bt_remove.induct) (use bt_remove_subset in fastforce)+

lemma bt_get_insert:
  "bt_sorted r m \<Longrightarrow> bt_get r k' (bt_insert r k v m) = (if r k' = r k then Some v else bt_get r k' m)"
  by (induction r k v m rule: bt_insert.induct) auto

lemma bt_get_none: "(\<forall>(k', _) \<in> set m. r k < r k') \<Longrightarrow> r k'' = r k \<Longrightarrow> bt_get r k'' m = None"
  by (induction m) auto

lemma bt_get_remove:
  "bt_sorted r m \<Longrightarrow> bt_get r k' (bt_remove r k m) = (if r k' = r k then None else bt_get r k' m)"
  by (induction r k m rule: bt_remove.induct) (auto intro!: bt_get_none)

lemma bt_remove_length: "length (bt_remove r k m) \<le> length m"
  by (induction r k m rule: bt_remove.induct) auto

lemma bt_get_in: "bt_get r k m = Some v \<Longrightarrow> \<exists>k'. (k', v) \<in> set m \<and> r k' = r k"
  by (induction m) (auto split: if_splits)

lemma bt_insert_present:
  "bt_sorted r m \<Longrightarrow> bt_get r k m \<noteq> None \<Longrightarrow> length (bt_insert r k v m) = length m"
  by (induction r k v m rule: bt_insert.induct) (auto split: if_splits dest!: bt_get_in)

lemma bt_in_get: "bt_sorted r m \<Longrightarrow> (k, v) \<in> set m \<Longrightarrow> bt_get r k m = Some v"
  by (induction m) force+

lemma bt_head_least:
  "bt_sorted r ((k, v) # m) \<Longrightarrow> (k', v') \<in> set ((k, v) # m) \<Longrightarrow> r k \<le> r k'"
  by auto

lemma bt_remove_set:
  "bt_sorted r m \<Longrightarrow> set (bt_remove r k m) = {(k', v') \<in> set m. r k' \<noteq> r k}"
  by (induction r k m rule: bt_remove.induct) (auto simp: bt_remove_subset)

section \<open>The interface\<close>

locale ordered_map =
  fixes rank :: "'k \<Rightarrow> int"
    and lookup :: "'m \<Rightarrow> 'k \<Rightarrow> 'v option"
    and insert_at :: "'k \<Rightarrow> 'v \<Rightarrow> 'm \<Rightarrow> 'm"
    and remove_at :: "'k \<Rightarrow> 'm \<Rightarrow> 'm"
    and first :: "'m \<Rightarrow> ('k \<times> 'v) option"
    and wf :: "'m \<Rightarrow> bool"
  assumes wf_insert: "wf m \<Longrightarrow> wf (insert_at k v m)"
    and wf_remove: "wf m \<Longrightarrow> wf (remove_at k m)"
    and lookup_insert: "wf m \<Longrightarrow>
      lookup (insert_at k v m) k' = (if rank k' = rank k then Some v else lookup m k')"
    and lookup_remove: "wf m \<Longrightarrow>
      lookup (remove_at k m) k' = (if rank k' = rank k then None else lookup m k')"
    and first_lookup: "wf m \<Longrightarrow> first m = Some (k, v) \<Longrightarrow> lookup m k = Some v"
    and first_least: "wf m \<Longrightarrow> first m = Some (k, v) \<Longrightarrow> lookup m k' = Some v' \<Longrightarrow> rank k \<le> rank k'"
    and first_None: "wf m \<Longrightarrow> first m = None \<Longrightarrow> lookup m k = None"
begin

lemma insert_remove_lookup:
  "wf m \<Longrightarrow>
     lookup (remove_at k (insert_at k v m)) k' = (if rank k' = rank k then None else lookup m k')"
  by (simp add: lookup_remove lookup_insert wf_insert)

lemma first_unique:
  assumes "wf m" and "wf m'" and "\<And>k. lookup m k = lookup m' k"
    and "first m = Some (k, v)" and "first m' = Some (k', v')"
  shows "rank k = rank k'"
  by (rule antisym) (use assms first_lookup first_least in metis)+

lemma first_insert:
  assumes "wf m" and "first (insert_at k v m) = Some (k', v')"
  shows "rank k' \<le> rank k"
  using assms first_least [OF wf_insert [OF assms(1)] assms(2), of k v] lookup_insert [OF assms(1)]
  by simp

end

definition bt_first :: "('k \<times> 'v) list \<Rightarrow> ('k \<times> 'v) option" where
  "bt_first m = (case m of [] \<Rightarrow> None | e # _ \<Rightarrow> Some e)"

interpretation btree: ordered_map r "\<lambda>m k. bt_get r k m" "bt_insert r" "bt_remove r" bt_first
  "bt_sorted r"
  for r :: "'k \<Rightarrow> int"
proof unfold_locales
  fix m :: "('k \<times> 'v) list" and k k' :: 'k and v v' :: 'v
  show "bt_first m = Some (k, v) \<Longrightarrow> bt_get r k m = Some v"
    by (auto simp: bt_first_def split: list.splits)
  show "bt_sorted r m \<Longrightarrow> bt_first m = Some (k, v) \<Longrightarrow> bt_get r k' m = Some v' \<Longrightarrow> r k \<le> r k'"
    by (auto simp: bt_first_def dest!: bt_get_in split: list.splits if_splits)
  show "bt_first m = None \<Longrightarrow> bt_get r k m = None"
    by (auto simp: bt_first_def split: list.splits)
qed (simp_all add: bt_get_insert bt_get_remove)

end
