(* ===== verification/Order_Events.thy ===== *)
theory Order_Events
  imports Money_Types
begin

text \<open>
  The enums and order events of \<^verbatim>\<open>crates/model/src\<close> that drive the order state machine
  (\<^verbatim>\<open>enums.rs\<close> and \<^verbatim>\<open>events/order\<close>). Every event struct extends a common header
  record; the venue-reported ones add the reconciliation flag. Identifiers and interned strings
  are strings, timestamps are natural numbers of nanoseconds.
\<close>

section \<open>Enums\<close>

datatype order_side = NoOrderSide | Buy | Sell

datatype order_side_specified = BuySide | SellSide

datatype order_status =
    Initialized | Denied | Emulated | Released | Submitted | Accepted | Rejected | Canceled
  | Expired | Triggered | PendingUpdate | PendingCancel | PartiallyFilled | Filled

datatype order_type =
    Market | Limit | StopMarket | StopLimit | MarketToLimit | MarketIfTouched | LimitIfTouched
  | TrailingStopMarket | TrailingStopLimit

datatype time_in_force = Gtc | Ioc | Fok | Gtd | Day | AtTheOpen | AtTheClose

datatype trailing_offset_type =
    NoTrailingOffset | PriceOffset | BasisPoints | Ticks | PriceTier

datatype trigger_type =
    NoTrigger | DefaultTrigger | LastPrice | MarkPrice | IndexPrice | BidAsk | DoubleLast
  | DoubleBidAsk | LastOrBidAsk | MidPoint

datatype contingency_type = NoContingency | Oco | Oto | Ouo

datatype liquidity_side = NoLiquiditySide | Maker | Taker

datatype position_side = NoPositionSide | Flat | Long | Short

definition as_specified :: "order_side \<Rightarrow> order_side_specified option" where
  "as_specified s = (case s of Buy \<Rightarrow> Some BuySide | Sell \<Rightarrow> Some SellSide | NoOrderSide \<Rightarrow> None)"

definition opposite :: "order_side_specified \<Rightarrow> order_side_specified" where
  "opposite s = (case s of BuySide \<Rightarrow> SellSide | SellSide \<Rightarrow> BuySide)"

definition as_order_side :: "order_side_specified \<Rightarrow> order_side" where
  "as_order_side s = (case s of BuySide \<Rightarrow> Buy | SellSide \<Rightarrow> Sell)"

definition status_is_open :: "order_status \<Rightarrow> bool" where
  "status_is_open s \<longleftrightarrow>
     s \<in> {Submitted, Accepted, Triggered, PendingUpdate, PendingCancel, PartiallyFilled}"

definition status_is_closed :: "order_status \<Rightarrow> bool" where
  "status_is_closed s \<longleftrightarrow> s \<in> {Denied, Rejected, Canceled, Expired, Filled}"

definition status_is_cancellable :: "order_status \<Rightarrow> bool" where
  "status_is_cancellable s \<longleftrightarrow> s \<in> {Accepted, Triggered, PendingUpdate, PartiallyFilled}"

section \<open>Event structs\<close>

record event_header =
  ev_trader_id :: string
  ev_strategy_id :: string
  ev_instrument_id :: string
  ev_client_order_id :: string
  ev_event_id :: string
  ev_ts_event :: nat
  ev_ts_init :: nat
  ev_causation_id :: "string option"

record venue_event = event_header +
  ev_reconciliation :: bool

record order_initialized_terms = venue_event +
  oi_order_side :: order_side
  oi_order_type :: order_type
  oi_quantity :: quantity
  oi_time_in_force :: time_in_force
  oi_post_only :: bool
  oi_reduce_only :: bool
  oi_quote_quantity :: bool
  oi_price :: "price option"
  oi_trigger_price :: "price option"
  oi_trigger_type :: "trigger_type option"
  oi_limit_offset :: "decimal option"
  oi_trailing_offset :: "decimal option"
  oi_trailing_offset_type :: "trailing_offset_type option"
  oi_expire_time :: "nat option"
  oi_display_qty :: "quantity option"

record order_initialized = order_initialized_terms +
  oi_emulation_trigger :: "trigger_type option"
  oi_trigger_instrument_id :: "string option"
  oi_contingency_type :: "contingency_type option"
  oi_order_list_id :: "string option"
  oi_linked_order_ids :: "string list option"
  oi_parent_order_id :: "string option"
  oi_exec_algorithm_id :: "string option"
  oi_exec_algorithm_params :: "(string \<times> string) list option"
  oi_exec_spawn_id :: "string option"
  oi_tags :: "string list option"

record order_denied = event_header +
  od_reason :: string

type_synonym order_emulated = event_header

record order_released = event_header +
  orl_released_price :: price

record order_submitted = event_header +
  os_account_id :: string

record order_accepted = venue_event +
  oa_venue_order_id :: string
  oa_account_id :: string

record order_rejected = venue_event +
  orj_account_id :: string
  orj_reason :: string
  orj_due_post_only :: bool

record order_pending_update = venue_event +
  opu_account_id :: string
  opu_venue_order_id :: "string option"

record order_pending_cancel = venue_event +
  opc_account_id :: string
  opc_venue_order_id :: "string option"

record order_modify_rejected = venue_event +
  omr_reason :: string
  omr_venue_order_id :: "string option"
  omr_account_id :: "string option"

record order_cancel_rejected = venue_event +
  ocr_reason :: string
  ocr_venue_order_id :: "string option"
  ocr_account_id :: "string option"

record order_updated = venue_event +
  ou_venue_order_id :: "string option"
  ou_account_id :: "string option"
  ou_quantity :: quantity
  ou_price :: "price option"
  ou_trigger_price :: "price option"
  ou_protection_price :: "price option"
  ou_is_quote_quantity :: bool

record order_triggered = venue_event +
  otr_venue_order_id :: "string option"
  otr_account_id :: "string option"

record order_canceled = venue_event +
  ocn_venue_order_id :: "string option"
  ocn_account_id :: "string option"

record order_expired = venue_event +
  oex_venue_order_id :: "string option"
  oex_account_id :: "string option"

record order_filled = venue_event +
  of_venue_order_id :: string
  of_account_id :: string
  of_trade_id :: string
  of_order_side :: order_side
  of_order_type :: order_type
  of_last_qty :: quantity
  of_last_px :: price
  of_currency :: currency
  of_liquidity_side :: liquidity_side
  of_position_id :: "string option"
  of_commission :: "money option"

section \<open>OrderEventAny\<close>

datatype order_event_any =
    EvInitialized order_initialized
  | EvDenied order_denied
  | EvEmulated order_emulated
  | EvReleased order_released
  | EvSubmitted order_submitted
  | EvAccepted order_accepted
  | EvRejected order_rejected
  | EvCanceled order_canceled
  | EvExpired order_expired
  | EvTriggered order_triggered
  | EvPendingUpdate order_pending_update
  | EvPendingCancel order_pending_cancel
  | EvModifyRejected order_modify_rejected
  | EvCancelRejected order_cancel_rejected
  | EvUpdated order_updated
  | EvFilled order_filled

datatype order_event_type =
    TypeInitialized
  | TypeDenied
  | TypeEmulated
  | TypeReleased
  | TypeSubmitted
  | TypeAccepted
  | TypeRejected
  | TypeCanceled
  | TypeExpired
  | TypeTriggered
  | TypePendingUpdate
  | TypePendingCancel
  | TypeModifyRejected
  | TypeCancelRejected
  | TypeUpdated
  | TypeFilled

fun event_type :: "order_event_any \<Rightarrow> order_event_type" where
  "event_type (EvInitialized _) = TypeInitialized"
| "event_type (EvDenied _) = TypeDenied"
| "event_type (EvEmulated _) = TypeEmulated"
| "event_type (EvReleased _) = TypeReleased"
| "event_type (EvSubmitted _) = TypeSubmitted"
| "event_type (EvAccepted _) = TypeAccepted"
| "event_type (EvRejected _) = TypeRejected"
| "event_type (EvCanceled _) = TypeCanceled"
| "event_type (EvExpired _) = TypeExpired"
| "event_type (EvTriggered _) = TypeTriggered"
| "event_type (EvPendingUpdate _) = TypePendingUpdate"
| "event_type (EvPendingCancel _) = TypePendingCancel"
| "event_type (EvModifyRejected _) = TypeModifyRejected"
| "event_type (EvCancelRejected _) = TypeCancelRejected"
| "event_type (EvUpdated _) = TypeUpdated"
| "event_type (EvFilled _) = TypeFilled"

fun event_trader_id :: "order_event_any \<Rightarrow> string" where
  "event_trader_id (EvInitialized e) = ev_trader_id e"
| "event_trader_id (EvDenied e) = ev_trader_id e"
| "event_trader_id (EvEmulated e) = ev_trader_id e"
| "event_trader_id (EvReleased e) = ev_trader_id e"
| "event_trader_id (EvSubmitted e) = ev_trader_id e"
| "event_trader_id (EvAccepted e) = ev_trader_id e"
| "event_trader_id (EvRejected e) = ev_trader_id e"
| "event_trader_id (EvCanceled e) = ev_trader_id e"
| "event_trader_id (EvExpired e) = ev_trader_id e"
| "event_trader_id (EvTriggered e) = ev_trader_id e"
| "event_trader_id (EvPendingUpdate e) = ev_trader_id e"
| "event_trader_id (EvPendingCancel e) = ev_trader_id e"
| "event_trader_id (EvModifyRejected e) = ev_trader_id e"
| "event_trader_id (EvCancelRejected e) = ev_trader_id e"
| "event_trader_id (EvUpdated e) = ev_trader_id e"
| "event_trader_id (EvFilled e) = ev_trader_id e"

fun event_client_order_id :: "order_event_any \<Rightarrow> string" where
  "event_client_order_id (EvInitialized e) = ev_client_order_id e"
| "event_client_order_id (EvDenied e) = ev_client_order_id e"
| "event_client_order_id (EvEmulated e) = ev_client_order_id e"
| "event_client_order_id (EvReleased e) = ev_client_order_id e"
| "event_client_order_id (EvSubmitted e) = ev_client_order_id e"
| "event_client_order_id (EvAccepted e) = ev_client_order_id e"
| "event_client_order_id (EvRejected e) = ev_client_order_id e"
| "event_client_order_id (EvCanceled e) = ev_client_order_id e"
| "event_client_order_id (EvExpired e) = ev_client_order_id e"
| "event_client_order_id (EvTriggered e) = ev_client_order_id e"
| "event_client_order_id (EvPendingUpdate e) = ev_client_order_id e"
| "event_client_order_id (EvPendingCancel e) = ev_client_order_id e"
| "event_client_order_id (EvModifyRejected e) = ev_client_order_id e"
| "event_client_order_id (EvCancelRejected e) = ev_client_order_id e"
| "event_client_order_id (EvUpdated e) = ev_client_order_id e"
| "event_client_order_id (EvFilled e) = ev_client_order_id e"

fun event_instrument_id :: "order_event_any \<Rightarrow> string" where
  "event_instrument_id (EvInitialized e) = ev_instrument_id e"
| "event_instrument_id (EvDenied e) = ev_instrument_id e"
| "event_instrument_id (EvEmulated e) = ev_instrument_id e"
| "event_instrument_id (EvReleased e) = ev_instrument_id e"
| "event_instrument_id (EvSubmitted e) = ev_instrument_id e"
| "event_instrument_id (EvAccepted e) = ev_instrument_id e"
| "event_instrument_id (EvRejected e) = ev_instrument_id e"
| "event_instrument_id (EvCanceled e) = ev_instrument_id e"
| "event_instrument_id (EvExpired e) = ev_instrument_id e"
| "event_instrument_id (EvTriggered e) = ev_instrument_id e"
| "event_instrument_id (EvPendingUpdate e) = ev_instrument_id e"
| "event_instrument_id (EvPendingCancel e) = ev_instrument_id e"
| "event_instrument_id (EvModifyRejected e) = ev_instrument_id e"
| "event_instrument_id (EvCancelRejected e) = ev_instrument_id e"
| "event_instrument_id (EvUpdated e) = ev_instrument_id e"
| "event_instrument_id (EvFilled e) = ev_instrument_id e"

fun event_strategy_id :: "order_event_any \<Rightarrow> string" where
  "event_strategy_id (EvInitialized e) = ev_strategy_id e"
| "event_strategy_id (EvDenied e) = ev_strategy_id e"
| "event_strategy_id (EvEmulated e) = ev_strategy_id e"
| "event_strategy_id (EvReleased e) = ev_strategy_id e"
| "event_strategy_id (EvSubmitted e) = ev_strategy_id e"
| "event_strategy_id (EvAccepted e) = ev_strategy_id e"
| "event_strategy_id (EvRejected e) = ev_strategy_id e"
| "event_strategy_id (EvCanceled e) = ev_strategy_id e"
| "event_strategy_id (EvExpired e) = ev_strategy_id e"
| "event_strategy_id (EvTriggered e) = ev_strategy_id e"
| "event_strategy_id (EvPendingUpdate e) = ev_strategy_id e"
| "event_strategy_id (EvPendingCancel e) = ev_strategy_id e"
| "event_strategy_id (EvModifyRejected e) = ev_strategy_id e"
| "event_strategy_id (EvCancelRejected e) = ev_strategy_id e"
| "event_strategy_id (EvUpdated e) = ev_strategy_id e"
| "event_strategy_id (EvFilled e) = ev_strategy_id e"

fun event_ts_event :: "order_event_any \<Rightarrow> nat" where
  "event_ts_event (EvInitialized e) = ev_ts_event e"
| "event_ts_event (EvDenied e) = ev_ts_event e"
| "event_ts_event (EvEmulated e) = ev_ts_event e"
| "event_ts_event (EvReleased e) = ev_ts_event e"
| "event_ts_event (EvSubmitted e) = ev_ts_event e"
| "event_ts_event (EvAccepted e) = ev_ts_event e"
| "event_ts_event (EvRejected e) = ev_ts_event e"
| "event_ts_event (EvCanceled e) = ev_ts_event e"
| "event_ts_event (EvExpired e) = ev_ts_event e"
| "event_ts_event (EvTriggered e) = ev_ts_event e"
| "event_ts_event (EvPendingUpdate e) = ev_ts_event e"
| "event_ts_event (EvPendingCancel e) = ev_ts_event e"
| "event_ts_event (EvModifyRejected e) = ev_ts_event e"
| "event_ts_event (EvCancelRejected e) = ev_ts_event e"
| "event_ts_event (EvUpdated e) = ev_ts_event e"
| "event_ts_event (EvFilled e) = ev_ts_event e"

fun with_client_order_id :: "string \<Rightarrow> order_event_any \<Rightarrow> order_event_any" where
  "with_client_order_id c (EvInitialized e) = EvInitialized (e\<lparr>ev_client_order_id := c\<rparr>)"
| "with_client_order_id c (EvDenied e) = EvDenied (e\<lparr>ev_client_order_id := c\<rparr>)"
| "with_client_order_id c (EvEmulated e) = EvEmulated (e\<lparr>ev_client_order_id := c\<rparr>)"
| "with_client_order_id c (EvReleased e) = EvReleased (e\<lparr>ev_client_order_id := c\<rparr>)"
| "with_client_order_id c (EvSubmitted e) = EvSubmitted (e\<lparr>ev_client_order_id := c\<rparr>)"
| "with_client_order_id c (EvAccepted e) = EvAccepted (e\<lparr>ev_client_order_id := c\<rparr>)"
| "with_client_order_id c (EvRejected e) = EvRejected (e\<lparr>ev_client_order_id := c\<rparr>)"
| "with_client_order_id c (EvCanceled e) = EvCanceled (e\<lparr>ev_client_order_id := c\<rparr>)"
| "with_client_order_id c (EvExpired e) = EvExpired (e\<lparr>ev_client_order_id := c\<rparr>)"
| "with_client_order_id c (EvTriggered e) = EvTriggered (e\<lparr>ev_client_order_id := c\<rparr>)"
| "with_client_order_id c (EvPendingUpdate e) = EvPendingUpdate (e\<lparr>ev_client_order_id := c\<rparr>)"
| "with_client_order_id c (EvPendingCancel e) = EvPendingCancel (e\<lparr>ev_client_order_id := c\<rparr>)"
| "with_client_order_id c (EvModifyRejected e) = EvModifyRejected (e\<lparr>ev_client_order_id := c\<rparr>)"
| "with_client_order_id c (EvCancelRejected e) = EvCancelRejected (e\<lparr>ev_client_order_id := c\<rparr>)"
| "with_client_order_id c (EvUpdated e) = EvUpdated (e\<lparr>ev_client_order_id := c\<rparr>)"
| "with_client_order_id c (EvFilled e) = EvFilled (e\<lparr>ev_client_order_id := c\<rparr>)"

fun event_message :: "order_event_any \<Rightarrow> string option" where
  "event_message (EvInitialized _) = None"
| "event_message (EvDenied e) = Some (od_reason e)"
| "event_message (EvEmulated _) = None"
| "event_message (EvReleased _) = None"
| "event_message (EvSubmitted _) = None"
| "event_message (EvAccepted _) = None"
| "event_message (EvRejected e) = Some (orj_reason e)"
| "event_message (EvCanceled _) = None"
| "event_message (EvExpired _) = None"
| "event_message (EvTriggered _) = None"
| "event_message (EvPendingUpdate _) = None"
| "event_message (EvPendingCancel _) = None"
| "event_message (EvModifyRejected e) = Some (omr_reason e)"
| "event_message (EvCancelRejected e) = Some (ocr_reason e)"
| "event_message (EvUpdated _) = None"
| "event_message (EvFilled _) = None"

definition order_filled_from :: "order_event_any \<Rightarrow> order_filled option" where
  "order_filled_from e = (case e of EvFilled f \<Rightarrow> Some f | _ \<Rightarrow> None)"

lemma with_client_order_id_simps [simp]:
  "event_client_order_id (with_client_order_id c e) = c"
  "event_strategy_id (with_client_order_id c e) = event_strategy_id e"
  "event_type (with_client_order_id c e) = event_type e"
  by (cases e; simp)+

end
