(* ===== verification/Order_Core.thy ===== *)
theory Order_Core
  imports Order_Events
begin

text \<open>
  The order state machine and \<^verbatim>\<open>OrderCore\<close> of \<^verbatim>\<open>crates/model/src/orders/mod.rs\<close>: the
  transition table, the application of an event with its per-event handlers, and the queries of
  the \<^verbatim>\<open>Order\<close> trait that have a default body.

  Floating-point values appear only in the average price and the slippage. Their operations are a
  parameter \<open>ops\<close> over an arbitrary type; no theorem depends on them. The key of a commission is
  the code of its currency, by which the code hashes and compares currencies.
\<close>

record 'f f64_ops =
  f_of_price :: "price \<Rightarrow> 'f"
  f_of_qty :: "quantity \<Rightarrow> 'f"
  f_add :: "'f \<Rightarrow> 'f \<Rightarrow> 'f"
  f_sub :: "'f \<Rightarrow> 'f \<Rightarrow> 'f"
  f_mul :: "'f \<Rightarrow> 'f \<Rightarrow> 'f"
  f_mul_add :: "'f \<Rightarrow> 'f \<Rightarrow> 'f \<Rightarrow> 'f"
  f_div :: "'f \<Rightarrow> 'f \<Rightarrow> 'f"
  f_gt :: "'f \<Rightarrow> 'f \<Rightarrow> bool"

section \<open>Order types, errors and checks\<close>

definition STOP_ORDER_TYPES :: "order_type list" where
  "STOP_ORDER_TYPES = [StopMarket, StopLimit, MarketIfTouched, LimitIfTouched]"

definition LIMIT_ORDER_TYPES :: "order_type list" where
  "LIMIT_ORDER_TYPES = [Limit, StopLimit, LimitIfTouched, TrailingStopLimit]"

definition TRIGGERABLE_ORDER_TYPES :: "order_type list" where
  "TRIGGERABLE_ORDER_TYPES = [StopLimit, TrailingStopLimit, LimitIfTouched]"

definition LOCAL_ACTIVE_ORDER_STATUSES :: "order_status list" where
  "LOCAL_ACTIVE_ORDER_STATUSES = [Initialized, Emulated, Released]"

definition CANCELLABLE_ORDER_STATUSES :: "order_status list" where
  "CANCELLABLE_ORDER_STATUSES = [Accepted, Triggered, PendingUpdate, PartiallyFilled]"

datatype order_error =
    NotFound string
  | NoOrderSideError
  | InvalidOrderEvent
  | InvalidStateTransition
  | AlreadyInitialized
  | NoPreviousState
  | DuplicateFill string
  | Invariant correctness_error

definition check_display_qty :: "quantity option \<Rightarrow> quantity \<Rightarrow> order_error + unit" where
  "check_display_qty display_qty quantity =
     (case display_qty of
        None \<Rightarrow> Inr ()
      | Some q \<Rightarrow>
          (case check_predicate_false (quantity_lt quantity q) of
             Inl e \<Rightarrow> Inl (Invariant e) | Inr _ \<Rightarrow> Inr ()))"

definition check_time_in_force :: "time_in_force \<Rightarrow> nat option \<Rightarrow> order_error + unit" where
  "check_time_in_force tif expire_time =
     (case check_predicate_false
             (tif = Gtd \<and> (case expire_time of None \<Rightarrow> 0 | Some t \<Rightarrow> t) = 0) of
        Inl e \<Rightarrow> Inl (Invariant e) | Inr _ \<Rightarrow> Inr ())"

section \<open>Status transitions\<close>

fun transition :: "order_status \<Rightarrow> order_event_any \<Rightarrow> order_error + order_status" where
  "transition Initialized e = (case e of
       EvDenied _ \<Rightarrow> Inr Denied
     | EvEmulated _ \<Rightarrow> Inr Emulated
     | EvReleased _ \<Rightarrow> Inr Released
     | EvSubmitted _ \<Rightarrow> Inr Submitted
     | EvRejected _ \<Rightarrow> Inr Rejected
     | EvAccepted _ \<Rightarrow> Inr Accepted
     | EvCanceled _ \<Rightarrow> Inr Canceled
     | EvExpired _ \<Rightarrow> Inr Expired
     | EvTriggered _ \<Rightarrow> Inr Triggered
     | EvUpdated _ \<Rightarrow> Inr Initialized
     | _ \<Rightarrow> Inl InvalidStateTransition)"
| "transition Emulated e = (case e of
       EvCanceled _ \<Rightarrow> Inr Canceled
     | EvExpired _ \<Rightarrow> Inr Expired
     | EvUpdated _ \<Rightarrow> Inr Emulated
     | EvReleased _ \<Rightarrow> Inr Released
     | _ \<Rightarrow> Inl InvalidStateTransition)"
| "transition Released e = (case e of
       EvSubmitted _ \<Rightarrow> Inr Submitted
     | EvDenied _ \<Rightarrow> Inr Denied
     | EvCanceled _ \<Rightarrow> Inr Canceled
     | EvUpdated _ \<Rightarrow> Inr Released
     | _ \<Rightarrow> Inl InvalidStateTransition)"
| "transition Submitted e = (case e of
       EvPendingUpdate _ \<Rightarrow> Inr PendingUpdate
     | EvPendingCancel _ \<Rightarrow> Inr PendingCancel
     | EvRejected _ \<Rightarrow> Inr Rejected
     | EvCanceled _ \<Rightarrow> Inr Canceled
     | EvAccepted _ \<Rightarrow> Inr Accepted
     | EvUpdated _ \<Rightarrow> Inr Submitted
     | EvFilled _ \<Rightarrow> Inr Filled
     | _ \<Rightarrow> Inl InvalidStateTransition)"
| "transition Accepted e = (case e of
       EvRejected _ \<Rightarrow> Inr Rejected
     | EvPendingUpdate _ \<Rightarrow> Inr PendingUpdate
     | EvPendingCancel _ \<Rightarrow> Inr PendingCancel
     | EvCanceled _ \<Rightarrow> Inr Canceled
     | EvTriggered _ \<Rightarrow> Inr Triggered
     | EvUpdated _ \<Rightarrow> Inr Accepted
     | EvExpired _ \<Rightarrow> Inr Expired
     | EvFilled _ \<Rightarrow> Inr Filled
     | _ \<Rightarrow> Inl InvalidStateTransition)"
| "transition Canceled e = (case e of
       EvFilled _ \<Rightarrow> Inr Filled
     | _ \<Rightarrow> Inl InvalidStateTransition)"
| "transition PendingUpdate e = (case e of
       EvRejected _ \<Rightarrow> Inr Rejected
     | EvAccepted _ \<Rightarrow> Inr Accepted
     | EvCanceled _ \<Rightarrow> Inr Canceled
     | EvExpired _ \<Rightarrow> Inr Expired
     | EvTriggered _ \<Rightarrow> Inr Triggered
     | EvPendingUpdate _ \<Rightarrow> Inr PendingUpdate
     | EvPendingCancel _ \<Rightarrow> Inr PendingCancel
     | EvModifyRejected _ \<Rightarrow> Inr PendingUpdate
     | EvUpdated _ \<Rightarrow> Inr PendingUpdate
     | EvFilled _ \<Rightarrow> Inr Filled
     | _ \<Rightarrow> Inl InvalidStateTransition)"
| "transition PendingCancel e = (case e of
       EvRejected _ \<Rightarrow> Inr Rejected
     | EvPendingCancel _ \<Rightarrow> Inr PendingCancel
     | EvCancelRejected _ \<Rightarrow> Inr PendingCancel
     | EvCanceled _ \<Rightarrow> Inr Canceled
     | EvExpired _ \<Rightarrow> Inr Expired
     | EvAccepted _ \<Rightarrow> Inr Accepted
     | EvFilled _ \<Rightarrow> Inr Filled
     | _ \<Rightarrow> Inl InvalidStateTransition)"
| "transition Triggered e = (case e of
       EvRejected _ \<Rightarrow> Inr Rejected
     | EvPendingUpdate _ \<Rightarrow> Inr PendingUpdate
     | EvPendingCancel _ \<Rightarrow> Inr PendingCancel
     | EvCanceled _ \<Rightarrow> Inr Canceled
     | EvExpired _ \<Rightarrow> Inr Expired
     | EvFilled _ \<Rightarrow> Inr Filled
     | EvUpdated _ \<Rightarrow> Inr Triggered
     | _ \<Rightarrow> Inl InvalidStateTransition)"
| "transition PartiallyFilled e = (case e of
       EvPendingUpdate _ \<Rightarrow> Inr PendingUpdate
     | EvPendingCancel _ \<Rightarrow> Inr PendingCancel
     | EvCanceled _ \<Rightarrow> Inr Canceled
     | EvExpired _ \<Rightarrow> Inr Expired
     | EvFilled _ \<Rightarrow> Inr Filled
     | EvAccepted _ \<Rightarrow> Inr Accepted
     | EvUpdated _ \<Rightarrow> Inr PartiallyFilled
     | _ \<Rightarrow> Inl InvalidStateTransition)"
| "transition _ e = Inl InvalidStateTransition"

section \<open>OrderCore\<close>

record order_core_terms =
  oc_trader_id :: string
  oc_strategy_id :: string
  oc_instrument_id :: string
  oc_client_order_id :: string
  oc_side :: order_side
  oc_order_type :: order_type
  oc_quantity :: quantity
  oc_time_in_force :: time_in_force
  oc_is_reduce_only :: bool
  oc_is_quote_quantity :: bool
  oc_emulation_trigger :: "trigger_type option"
  oc_contingency_type :: "contingency_type option"
  oc_order_list_id :: "string option"
  oc_linked_order_ids :: "string list option"
  oc_parent_order_id :: "string option"
  oc_exec_algorithm_id :: "string option"
  oc_exec_algorithm_params :: "(string \<times> string) list option"
  oc_exec_spawn_id :: "string option"
  oc_tags :: "string list option"
  oc_init_id :: string
  oc_ts_init :: nat

record 'f order_core = order_core_terms +
  oc_events :: "order_event_any list"
  oc_commissions :: "(string \<times> money) list"
  oc_venue_order_ids :: "string list"
  oc_trade_ids :: "string list"
  oc_previous_status :: "order_status option"
  oc_status :: order_status
  oc_venue_order_id :: "string option"
  oc_position_id :: "string option"
  oc_account_id :: "string option"
  oc_last_trade_id :: "string option"
  oc_liquidity_side :: "liquidity_side option"
  oc_filled_qty :: quantity
  oc_leaves_qty :: quantity
  oc_overfill_qty :: quantity
  oc_avg_px :: "'f option"
  oc_slippage :: "'f option"
  oc_ts_submitted :: "nat option"
  oc_ts_accepted :: "nat option"
  oc_ts_closed :: "nat option"
  oc_ts_last :: nat

definition or_option :: "'a option \<Rightarrow> 'a \<Rightarrow> 'a option" where
  "or_option x d = (case x of None \<Rightarrow> Some d | Some y \<Rightarrow> Some y)"

definition order_core_new :: "order_initialized \<Rightarrow> 'f order_core option" where
  "order_core_new init = do {
     filled \<leftarrow> quantity_zero (q_precision (oi_quantity init));
     overfill \<leftarrow> quantity_zero (q_precision (oi_quantity init));
     Some \<lparr>oc_trader_id = ev_trader_id init, oc_strategy_id = ev_strategy_id init,
           oc_instrument_id = ev_instrument_id init, oc_client_order_id = ev_client_order_id init,
           oc_side = oi_order_side init, oc_order_type = oi_order_type init,
           oc_quantity = oi_quantity init, oc_time_in_force = oi_time_in_force init,
           oc_is_reduce_only = oi_reduce_only init, oc_is_quote_quantity = oi_quote_quantity init,
           oc_emulation_trigger = or_option (oi_emulation_trigger init) NoTrigger,
           oc_contingency_type = or_option (oi_contingency_type init) NoContingency,
           oc_order_list_id = oi_order_list_id init, oc_linked_order_ids = oi_linked_order_ids init,
           oc_parent_order_id = oi_parent_order_id init,
           oc_exec_algorithm_id = oi_exec_algorithm_id init,
           oc_exec_algorithm_params = oi_exec_algorithm_params init,
           oc_exec_spawn_id = oi_exec_spawn_id init, oc_tags = oi_tags init,
           oc_init_id = ev_event_id init, oc_ts_init = ev_ts_event init,
           oc_events = [EvInitialized init], oc_commissions = [], oc_venue_order_ids = [],
           oc_trade_ids = [], oc_previous_status = None, oc_status = Initialized,
           oc_venue_order_id = None, oc_position_id = None, oc_account_id = None,
           oc_last_trade_id = None, oc_liquidity_side = Some NoLiquiditySide,
           oc_filled_qty = filled, oc_leaves_qty = oi_quantity init, oc_overfill_qty = overfill,
           oc_avg_px = None, oc_slippage = None, oc_ts_submitted = None, oc_ts_accepted = None,
           oc_ts_closed = None, oc_ts_last = ev_ts_event init\<rparr>}"

section \<open>Event handlers\<close>

definition denied :: "order_denied \<Rightarrow> 'f order_core \<Rightarrow> 'f order_core" where
  "denied e c = c\<lparr>oc_ts_closed := Some (ev_ts_event e)\<rparr>"

definition emulated :: "order_emulated \<Rightarrow> 'f order_core \<Rightarrow> 'f order_core" where
  "emulated e c = c"

definition released :: "order_released \<Rightarrow> 'f order_core \<Rightarrow> 'f order_core" where
  "released e c = c\<lparr>oc_emulation_trigger := None\<rparr>"

definition submitted :: "order_submitted \<Rightarrow> 'f order_core \<Rightarrow> 'f order_core" where
  "submitted e c =
     c\<lparr>oc_account_id := Some (os_account_id e), oc_ts_submitted := Some (ev_ts_event e)\<rparr>"

definition accepted :: "order_accepted \<Rightarrow> 'f order_core \<Rightarrow> 'f order_core" where
  "accepted e c =
     c\<lparr>oc_account_id := Some (oa_account_id e),
       oc_venue_order_id := Some (oa_venue_order_id e),
       oc_venue_order_ids := oc_venue_order_ids c @ [oa_venue_order_id e],
       oc_ts_accepted := Some (ev_ts_event e)\<rparr>"

definition rejected :: "order_rejected \<Rightarrow> 'f order_core \<Rightarrow> 'f order_core" where
  "rejected e c = c\<lparr>oc_ts_closed := Some (ev_ts_event e)\<rparr>"

definition pending_update :: "order_pending_update \<Rightarrow> 'f order_core \<Rightarrow> 'f order_core" where
  "pending_update e c = c"

definition pending_cancel :: "order_pending_cancel \<Rightarrow> 'f order_core \<Rightarrow> 'f order_core" where
  "pending_cancel e c = c"

text \<open>The two rejections restore the status from before the pending request.\<close>

definition modify_rejected ::
    "order_modify_rejected \<Rightarrow> 'f order_core \<Rightarrow> 'f order_core \<times> (order_error + unit)" where
  "modify_rejected e c =
     (case oc_previous_status c of
        None \<Rightarrow> (c, Inl NoPreviousState)
      | Some s \<Rightarrow> (c\<lparr>oc_status := s\<rparr>, Inr ()))"

definition cancel_rejected ::
    "order_cancel_rejected \<Rightarrow> 'f order_core \<Rightarrow> 'f order_core \<times> (order_error + unit)" where
  "cancel_rejected e c =
     (case oc_previous_status c of
        None \<Rightarrow> (c, Inl NoPreviousState)
      | Some s \<Rightarrow> (c\<lparr>oc_status := s\<rparr>, Inr ()))"

definition triggered :: "order_triggered \<Rightarrow> 'f order_core \<Rightarrow> 'f order_core" where
  "triggered e c = c"

definition canceled :: "order_canceled \<Rightarrow> 'f order_core \<Rightarrow> 'f order_core" where
  "canceled e c = c\<lparr>oc_ts_closed := Some (ev_ts_event e)\<rparr>"

definition expired :: "order_expired \<Rightarrow> 'f order_core \<Rightarrow> 'f order_core" where
  "expired e c = c\<lparr>oc_ts_closed := Some (ev_ts_event e)\<rparr>"

definition updated :: "order_updated \<Rightarrow> 'f order_core \<Rightarrow> 'f order_core" where
  "updated e c =
     (let c1 = (case oc_previous_status c of
                  Some s \<Rightarrow> if oc_status c = PendingUpdate then c\<lparr>oc_status := s\<rparr> else c
                | None \<Rightarrow> c);
          c2 = (case ou_venue_order_id e of
                  Some v \<Rightarrow>
                    if oc_venue_order_id c1 = None \<or> oc_venue_order_id c1 \<noteq> Some v
                    then c1\<lparr>oc_venue_order_id := Some v,
                            oc_venue_order_ids := oc_venue_order_ids c1 @ [v]\<rparr>
                    else c1
                | None \<Rightarrow> c1)
      in c2\<lparr>oc_is_quote_quantity := ou_is_quote_quantity e\<rparr>)"

definition set_avg_px ::
    "'f f64_ops \<Rightarrow> quantity \<Rightarrow> price \<Rightarrow> 'f order_core \<Rightarrow> 'f order_core option" where
  "set_avg_px ops last_qty last_px c =
     (case oc_avg_px c of
        None \<Rightarrow> Some (c\<lparr>oc_avg_px := Some (f_of_price ops last_px)\<rparr>)
      | Some avg \<Rightarrow> do {
          prev \<leftarrow> quantity_sub (oc_filled_qty c) last_qty;
          let prev_filled_qty = f_of_qty ops prev;
          let last_qty_f64 = f_of_qty ops last_qty;
          let total_qty = f_add ops prev_filled_qty last_qty_f64;
          let avg_px = f_div ops
                (f_mul_add ops avg prev_filled_qty
                   (f_mul ops (f_of_price ops last_px) last_qty_f64))
                total_qty;
          Some (c\<lparr>oc_avg_px := Some avg_px\<rparr>)})"

definition add_commission ::
    "money option \<Rightarrow> (string \<times> money) list \<Rightarrow> (string \<times> money) list option" where
  "add_commission commission m =
     (case commission of
        None \<Rightarrow> Some m
      | Some x \<Rightarrow>
          (let k = c_code (m_currency x)
           in case map_of m k of
                Some existing \<Rightarrow> do { y \<leftarrow> money_add existing x; Some (AList.update k y m) }
              | None \<Rightarrow> Some (AList.update k x m)))"

definition filled :: "'f f64_ops \<Rightarrow> order_filled \<Rightarrow> 'f order_core \<Rightarrow> 'f order_core option" where
  "filled ops e c = do {
     new_filled_qty \<leftarrow> quantity_from_raw
       (saturating_add_u 64 (q_raw (oc_filled_qty c)) (q_raw (of_last_qty e)))
       (q_precision (oc_filled_qty c));
     overfill \<leftarrow>
       (if quantity_lt (oc_quantity c) new_filled_qty
        then quantity_from_raw
               (saturating_add_u 64 (q_raw (oc_overfill_qty c))
                  (q_raw new_filled_qty - q_raw (oc_quantity c)))
               (q_precision (oc_filled_qty c))
        else Some (oc_overfill_qty c));
     let c1 = c\<lparr>oc_overfill_qty := overfill\<rparr>;
     let c2 = (if quantity_lt new_filled_qty (oc_quantity c1)
               then c1\<lparr>oc_status := PartiallyFilled\<rparr>
               else c1\<lparr>oc_status := Filled, oc_ts_closed := Some (ev_ts_event e)\<rparr>);
     let c3 = c2\<lparr>oc_venue_order_id := Some (of_venue_order_id e),
                 oc_position_id := of_position_id e,
                 oc_trade_ids := oc_trade_ids c2 @ [of_trade_id e],
                 oc_last_trade_id := Some (of_trade_id e),
                 oc_liquidity_side := Some (of_liquidity_side e),
                 oc_filled_qty := new_filled_qty,
                 oc_leaves_qty := quantity_saturating_sub (oc_leaves_qty c2) (of_last_qty e),
                 oc_ts_last := ev_ts_event e\<rparr>;
     commissions \<leftarrow> add_commission (of_commission e) (oc_commissions c3);
     let c4 = c3\<lparr>oc_commissions := commissions\<rparr>;
     let c5 = (if oc_ts_accepted c4 = None then c4\<lparr>oc_ts_accepted := Some (ev_ts_event e)\<rparr> else c4);
     set_avg_px ops (of_last_qty e) (of_last_px e) c5}"

section \<open>Applying an event\<close>

text \<open>
  The outer option is a panic. An error is returned with the state as the code leaves it: the
  previous status may already have been saved.
\<close>

definition save_previous_status :: "order_event_any \<Rightarrow> 'f order_core \<Rightarrow> 'f order_core" where
  "save_previous_status event c =
     (if \<not> (case event of EvInitialized _ \<Rightarrow> True | EvModifyRejected _ \<Rightarrow> True
                        | EvCancelRejected _ \<Rightarrow> True | _ \<Rightarrow> False) \<and>
         oc_status c \<notin> {PendingUpdate, PendingCancel}
      then c\<lparr>oc_previous_status := Some (oc_status c)\<rparr> else c)"

definition duplicate_trade_id :: "order_event_any \<Rightarrow> 'f order_core \<Rightarrow> string option" where
  "duplicate_trade_id event c =
     (case event of
        EvFilled f \<Rightarrow> if of_trade_id f \<in> set (oc_trade_ids c) then Some (of_trade_id f) else None
      | _ \<Rightarrow> None)"

definition dispatch ::
    "'f f64_ops \<Rightarrow> order_event_any \<Rightarrow> 'f order_core \<Rightarrow>
     ('f order_core \<times> (order_error + unit)) option" where
  "dispatch ops event c =
     (case event of
        EvInitialized _ \<Rightarrow> Some (c, Inl AlreadyInitialized)
      | EvDenied e \<Rightarrow> Some (denied e c, Inr ())
      | EvEmulated e \<Rightarrow> Some (emulated e c, Inr ())
      | EvReleased e \<Rightarrow> Some (released e c, Inr ())
      | EvSubmitted e \<Rightarrow> Some (submitted e c, Inr ())
      | EvRejected e \<Rightarrow> Some (rejected e c, Inr ())
      | EvAccepted e \<Rightarrow> Some (accepted e c, Inr ())
      | EvPendingUpdate e \<Rightarrow> Some (pending_update e c, Inr ())
      | EvPendingCancel e \<Rightarrow> Some (pending_cancel e c, Inr ())
      | EvModifyRejected e \<Rightarrow> Some (modify_rejected e c)
      | EvCancelRejected e \<Rightarrow> Some (cancel_rejected e c)
      | EvUpdated e \<Rightarrow> Some (updated e c, Inr ())
      | EvTriggered e \<Rightarrow> Some (triggered e c, Inr ())
      | EvCanceled e \<Rightarrow> Some (canceled e c, Inr ())
      | EvExpired e \<Rightarrow> Some (expired e c, Inr ())
      | EvFilled e \<Rightarrow> do { c' \<leftarrow> filled ops e c; Some (c', Inr ()) })"

definition core_apply ::
    "'f f64_ops \<Rightarrow> order_event_any \<Rightarrow> 'f order_core \<Rightarrow>
     ('f order_core \<times> (order_error + unit)) option" where
  "core_apply ops event c =
     (if oc_client_order_id c \<noteq> event_client_order_id event
      then Some (c, Inl (Invariant PredicateViolation))
      else if oc_strategy_id c \<noteq> event_strategy_id event
      then Some (c, Inl (Invariant PredicateViolation))
      else
        let c1 = save_previous_status event c
        in case duplicate_trade_id event c1 of
             Some t \<Rightarrow> Some (c1, Inl (DuplicateFill t))
           | None \<Rightarrow>
           if (case event of EvTriggered _ \<Rightarrow> True | _ \<Rightarrow> False) \<and>
                   oc_order_type c1 \<notin> set TRIGGERABLE_ORDER_TYPES
           then Some (c1, Inl InvalidOrderEvent)
           else case transition (oc_status c1) event of
                  Inl err \<Rightarrow> Some (c1, Inl err)
                | Inr new_status \<Rightarrow> do {
                    (c2, r) \<leftarrow> dispatch ops event (c1\<lparr>oc_status := new_status\<rparr>);
                    (case r of
                       Inl err \<Rightarrow> Some (c2, Inl err)
                     | Inr _ \<Rightarrow>
                         Some (c2\<lparr>oc_ts_last := event_ts_event event,
                                  oc_events := oc_events c2 @ [event]\<rparr>, Inr ()))})"

section \<open>Queries\<close>

definition set_slippage :: "'f f64_ops \<Rightarrow> price \<Rightarrow> 'f order_core \<Rightarrow> 'f order_core" where
  "set_slippage ops px c =
     c\<lparr>oc_slippage :=
         (case oc_avg_px c of
            None \<Rightarrow> None
          | Some avg \<Rightarrow>
              (let current_price = f_of_price ops px
               in case oc_side c of
                    Buy \<Rightarrow> if f_gt ops avg current_price then Some (f_sub ops avg current_price)
                           else None
                  | Sell \<Rightarrow> if f_gt ops current_price avg then Some (f_sub ops current_price avg)
                            else None
                  | NoOrderSide \<Rightarrow> None))\<rparr>"

definition opposite_side :: "order_side \<Rightarrow> order_side" where
  "opposite_side side = (case side of Buy \<Rightarrow> Sell | Sell \<Rightarrow> Buy | NoOrderSide \<Rightarrow> NoOrderSide)"

definition closing_side :: "position_side \<Rightarrow> order_side" where
  "closing_side side =
     (case side of Long \<Rightarrow> Sell | Short \<Rightarrow> Buy | Flat \<Rightarrow> NoOrderSide | NoPositionSide \<Rightarrow> NoOrderSide)"

definition would_reduce_only :: "position_side \<Rightarrow> quantity \<Rightarrow> 'f order_core \<Rightarrow> bool" where
  "would_reduce_only side position_qty c =
     (if side = Flat then False
      else case (oc_side c, side) of
             (Buy, Long) \<Rightarrow> False
           | (Buy, Short) \<Rightarrow> quantity_le (oc_leaves_qty c) position_qty
           | (Sell, Short) \<Rightarrow> False
           | (Sell, Long) \<Rightarrow> quantity_le (oc_leaves_qty c) position_qty
           | _ \<Rightarrow> True)"

definition core_commission :: "currency \<Rightarrow> 'f order_core \<Rightarrow> money option" where
  "core_commission cur c = map_of (oc_commissions c) (c_code cur)"

definition calculate_overfill :: "quantity \<Rightarrow> 'f order_core \<Rightarrow> quantity option" where
  "calculate_overfill fill_qty c = do {
     potential_filled \<leftarrow> quantity_add (oc_filled_qty c) fill_qty;
     (if quantity_lt (oc_quantity c) potential_filled
      then quantity_sub potential_filled (oc_quantity c)
      else quantity_zero (q_precision fill_qty))}"

definition is_duplicate_fill :: "order_filled \<Rightarrow> 'f order_core \<Rightarrow> bool" where
  "is_duplicate_fill fill c \<longleftrightarrow>
     list_ex (\<lambda>event. case event of
         EvFilled existing \<Rightarrow>
           of_trade_id existing = of_trade_id fill \<and>
           of_order_side existing = of_order_side fill \<and>
           quantity_eq (of_last_qty existing) (of_last_qty fill) \<and>
           price_eq (of_last_px existing) (of_last_px fill)
       | _ \<Rightarrow> False) (oc_events c)"

definition emulating :: "'f order_core \<Rightarrow> bool" where
  "emulating c \<longleftrightarrow>
     (case oc_emulation_trigger c of Some t \<Rightarrow> t \<noteq> NoTrigger | None \<Rightarrow> False)"

definition is_open :: "'f order_core \<Rightarrow> bool" where
  "is_open c =
     (if emulating c then False
      else oc_status c \<in> {Accepted, Triggered, PendingCancel, PendingUpdate, PartiallyFilled})"

definition is_closed :: "'f order_core \<Rightarrow> bool" where
  "is_closed c \<longleftrightarrow> oc_status c \<in> {Denied, Rejected, Canceled, Expired, Filled}"

definition is_inflight :: "'f order_core \<Rightarrow> bool" where
  "is_inflight c =
     (if emulating c then False
      else oc_status c \<in> {Submitted, PendingCancel, PendingUpdate})"

definition is_active_local :: "'f order_core \<Rightarrow> bool" where
  "is_active_local c \<longleftrightarrow> oc_status c \<in> {Initialized, Emulated, Released}"

definition is_primary :: "'f order_core \<Rightarrow> bool" where
  "is_primary c \<longleftrightarrow>
     oc_exec_algorithm_id c \<noteq> None \<and>
     (case oc_exec_spawn_id c of None \<Rightarrow> False | Some s \<Rightarrow> oc_client_order_id c = s)"

definition is_spawned :: "'f order_core \<Rightarrow> bool" where
  "is_spawned c \<longleftrightarrow>
     oc_exec_algorithm_id c \<noteq> None \<and>
     (case oc_exec_spawn_id c of None \<Rightarrow> False | Some s \<Rightarrow> oc_client_order_id c \<noteq> s)"

definition is_contingency :: "'f order_core \<Rightarrow> bool" where
  "is_contingency c \<longleftrightarrow> oc_contingency_type c \<noteq> None"

definition is_parent_order :: "'f order_core \<Rightarrow> bool" where
  "is_parent_order c \<longleftrightarrow>
     (case oc_contingency_type c of Some t \<Rightarrow> t = Oto | None \<Rightarrow> False)"

definition is_child_order :: "'f order_core \<Rightarrow> bool" where
  "is_child_order c \<longleftrightarrow> oc_parent_order_id c \<noteq> None"

section \<open>Shape of an application\<close>

lemma save_previous_status_simps [simp]:
  "oc_status (save_previous_status e c) = oc_status c"
  "oc_trade_ids (save_previous_status e c) = oc_trade_ids c"
  "oc_order_type (save_previous_status e c) = oc_order_type c"
  "oc_events (save_previous_status e c) = oc_events c"
  "oc_quantity (save_previous_status e c) = oc_quantity c"
  "oc_filled_qty (save_previous_status e c) = oc_filled_qty c"
  "oc_leaves_qty (save_previous_status e c) = oc_leaves_qty c"
  "oc_overfill_qty (save_previous_status e c) = oc_overfill_qty c"
  "oc_ts_closed (save_previous_status e c) = oc_ts_closed c"
  "oc_client_order_id (save_previous_status e c) = oc_client_order_id c"
  "oc_strategy_id (save_previous_status e c) = oc_strategy_id c"
  "oc_avg_px (save_previous_status e c) = oc_avg_px c"
  "oc_commissions (save_previous_status e c) = oc_commissions c"
  by (simp_all add: save_previous_status_def)

lemma duplicate_trade_id_save [simp]:
  "duplicate_trade_id e (save_previous_status e c) = duplicate_trade_id e c"
  by (cases e) (simp_all add: duplicate_trade_id_def)

definition trigger_refused :: "order_event_any \<Rightarrow> 'f order_core \<Rightarrow> bool" where
  "trigger_refused e c \<longleftrightarrow>
     (case e of EvTriggered _ \<Rightarrow> True | _ \<Rightarrow> False) \<and>
     oc_order_type c \<notin> set TRIGGERABLE_ORDER_TYPES"

text \<open>The guards of an application, in the order the code tests them.\<close>

lemma core_apply_guards:
  "oc_client_order_id c \<noteq> event_client_order_id e \<or> oc_strategy_id c \<noteq> event_strategy_id e \<Longrightarrow>
     core_apply ops e c = Some (c, Inl (Invariant PredicateViolation))"
  "\<lbrakk>oc_client_order_id c = event_client_order_id e; oc_strategy_id c = event_strategy_id e;
    duplicate_trade_id e c = Some t\<rbrakk> \<Longrightarrow>
     core_apply ops e c = Some (save_previous_status e c, Inl (DuplicateFill t))"
  "\<lbrakk>oc_client_order_id c = event_client_order_id e; oc_strategy_id c = event_strategy_id e;
    duplicate_trade_id e c = None; trigger_refused e c\<rbrakk> \<Longrightarrow>
     core_apply ops e c = Some (save_previous_status e c, Inl InvalidOrderEvent)"
  "\<lbrakk>oc_client_order_id c = event_client_order_id e; oc_strategy_id c = event_strategy_id e;
    duplicate_trade_id e c = None; \<not> trigger_refused e c\<rbrakk> \<Longrightarrow>
     core_apply ops e c =
       (case transition (oc_status c) e of
          Inl err \<Rightarrow> Some (save_previous_status e c, Inl err)
        | Inr st \<Rightarrow> do {
            (c2, r) \<leftarrow> dispatch ops e ((save_previous_status e c)\<lparr>oc_status := st\<rparr>);
            (case r of
               Inl err \<Rightarrow> Some (c2, Inl err)
             | Inr _ \<Rightarrow>
                 Some (c2\<lparr>oc_ts_last := event_ts_event e,
                          oc_events := oc_events c2 @ [e]\<rparr>, Inr ()))})"
  by (auto simp: core_apply_def trigger_refused_def Let_def)

lemma core_apply_cases:
  assumes a: "core_apply ops e c = Some (c', r)"
  obtains (refused) "c' = c" "r = Inl (Invariant PredicateViolation)"
  | (failed) err where "c' = save_previous_status e c" "r = Inl err"
  | (applied) st c2 where
      "oc_client_order_id c = event_client_order_id e" "oc_strategy_id c = event_strategy_id e"
      "duplicate_trade_id e c = None" "transition (oc_status c) e = Inr st"
      "dispatch ops e ((save_previous_status e c)\<lparr>oc_status := st\<rparr>) = Some (c2, r)"
      "c' = (case r of Inl _ \<Rightarrow> c2
             | Inr _ \<Rightarrow> c2\<lparr>oc_ts_last := event_ts_event e, oc_events := oc_events c2 @ [e]\<rparr>)"
      "\<not> trigger_refused e c"
proof (cases "oc_client_order_id c = event_client_order_id e \<and> oc_strategy_id c = event_strategy_id e")
  case False
  then have "core_apply ops e c = Some (c, Inl (Invariant PredicateViolation))"
    by (intro core_apply_guards(1)) blast
  then show thesis using a refused by simp
next
  case ids: True
  note id1 = conjunct1 [OF ids] and id2 = conjunct2 [OF ids]
  consider t where "duplicate_trade_id e c = Some t"
    | "duplicate_trade_id e c = None" "trigger_refused e c"
    | "duplicate_trade_id e c = None" "\<not> trigger_refused e c" by (cases "duplicate_trade_id e c") auto
  then show thesis
  proof cases
    case 1
    show thesis
      using a core_apply_guards(2) [OF id1 id2 1, of ops] failed [of "DuplicateFill t"] by simp
  next
    case 2
    show thesis
      using a core_apply_guards(3) [OF id1 id2 2, of ops] failed [of InvalidOrderEvent] by simp
  next
    case 3
    note eq = core_apply_guards(4) [OF id1 id2 3, of ops]
    show thesis
    proof (cases "transition (oc_status c) e")
      case (Inl err)
      then show thesis using a eq failed [of err] by simp
    next
      case (Inr st)
      let ?d = "dispatch ops e ((save_previous_status e c)\<lparr>oc_status := st\<rparr>)"
      obtain c2 r2 where "?d = Some (c2, r2)"
        using Inr a eq by (cases ?d) auto
      with a eq Inr show thesis
        using applied [OF _ _ 3(1) Inr] 3(2) ids by (cases r2) auto
    qed
  qed
qed

end
