(* ===== verification/Order_Invariants.thy ===== *)
theory Order_Invariants
  imports Order_Core
begin

text \<open>
  The invariant of \<^verbatim>\<open>OrderCore\<close> and its preservation by every applied event, whatever the
  event is and whether or not it is accepted: the status saved before a pending request can be
  restored, the trade ids are those of the logged fills and occur once, and the filled, remaining
  and overfilled quantities account for exactly the logged fills.
\<close>

section \<open>The invariant\<close>

definition fills :: "order_event_any list \<Rightarrow> order_filled list" where
  "fills es = List.map_filter (\<lambda>e. case e of EvFilled f \<Rightarrow> Some f | _ \<Rightarrow> None) es"

definition fills_raw :: "order_event_any list \<Rightarrow> nat" where
  "fills_raw es = sum_list (map (\<lambda>f. q_raw (of_last_qty f)) (fills es))"

definition prev_inv :: "'f order_core \<Rightarrow> bool" where
  "prev_inv c \<longleftrightarrow>
     (oc_status c \<in> {PendingUpdate, PendingCancel} \<longrightarrow>
        oc_previous_status c \<in> Some ` {Submitted, Accepted, Triggered, PartiallyFilled})"

definition log_inv :: "'f order_core \<Rightarrow> bool" where
  "log_inv c \<longleftrightarrow>
     (\<exists>i es. oc_events c = EvInitialized i # es \<and> (\<forall>j. EvInitialized j \<notin> set es)) \<and>
     oc_trade_ids c = map of_trade_id (fills (oc_events c)) \<and> distinct (oc_trade_ids c) \<and>
     (\<forall>e \<in> set (oc_events c).
        event_client_order_id e = oc_client_order_id c \<and> event_strategy_id e = oc_strategy_id c)"

definition qty_inv :: "'f order_core \<Rightarrow> bool" where
  "qty_inv c \<longleftrightarrow>
     q_raw (oc_filled_qty c) = min (u_max 64) (fills_raw (oc_events c)) \<and>
     (fills_raw (oc_events c) \<le> u_max 64 \<longrightarrow>
        q_raw (oc_leaves_qty c) = q_raw (oc_quantity c) - fills_raw (oc_events c)) \<and>
     q_raw (oc_overfill_qty c) =
       (if oc_status c = Filled then q_raw (oc_filled_qty c) - q_raw (oc_quantity c) else 0) \<and>
     (oc_status c = Filled \<longrightarrow> q_raw (oc_quantity c) \<le> q_raw (oc_filled_qty c)) \<and>
     (oc_avg_px c = None \<longleftrightarrow> fills (oc_events c) = []) \<and>
     q_precision (oc_filled_qty c) \<le> FIXED_PRECISION"

definition closed_inv :: "'f order_core \<Rightarrow> bool" where
  "closed_inv c \<longleftrightarrow> (is_closed c \<longrightarrow> oc_ts_closed c \<noteq> None)"

definition core_inv :: "'f order_core \<Rightarrow> bool" where
  "core_inv c \<longleftrightarrow> prev_inv c \<and> log_inv c \<and> qty_inv c \<and> closed_inv c"

lemma fills_simps [simp]:
  "fills [] = []"
  "fills (es @ fs) = fills es @ fills fs"
  "fills (e # es) = (case e of EvFilled f \<Rightarrow> f # fills es | _ \<Rightarrow> fills es)"
  by (auto simp: fills_def map_filter_def split: order_event_any.splits)

lemma fills_raw_simps [simp]:
  "fills_raw [] = 0"
  "fills_raw (es @ fs) = fills_raw es + fills_raw fs"
  "fills_raw (e # es) =
     (case e of EvFilled f \<Rightarrow> q_raw (of_last_qty f) + fills_raw es | _ \<Rightarrow> fills_raw es)"
  by (auto simp: fills_raw_def split: order_event_any.splits)

section \<open>Transitions\<close>

lemma transition_pending:
  "transition s e = Inr s' \<Longrightarrow> s' \<in> {PendingUpdate, PendingCancel} \<Longrightarrow>
     s \<in> {PendingUpdate, PendingCancel} \<or>
     s \<in> {Submitted, Accepted, Triggered, PartiallyFilled} \<and>
     (case e of EvPendingUpdate _ \<Rightarrow> True | EvPendingCancel _ \<Rightarrow> True | _ \<Rightarrow> False)"
  by (cases s; cases e; simp)

lemma transition_from_final:
  "s \<in> {Denied, Rejected, Expired, Filled} \<Longrightarrow> transition s e = Inl InvalidStateTransition"
  by auto

lemma transition_Filled: "transition s e = Inr Filled \<Longrightarrow> (\<exists>f. e = EvFilled f) \<and> s \<noteq> Filled"
  by (cases s; cases e; simp)

lemma transition_closed:
  "transition s e = Inr s' \<Longrightarrow> s' \<in> {Denied, Rejected, Canceled, Expired, Filled} \<Longrightarrow>
     (case e of EvDenied _ \<Rightarrow> s' = Denied | EvRejected _ \<Rightarrow> s' = Rejected
      | EvCanceled _ \<Rightarrow> s' = Canceled | EvExpired _ \<Rightarrow> s' = Expired | EvFilled _ \<Rightarrow> s' = Filled
      | _ \<Rightarrow> False)"
  by (cases s; cases e; simp)

lemma transition_Initialized: "transition s (EvInitialized i) = Inl InvalidStateTransition"
  by (cases s) simp_all

lemma transition_rejection:
  "transition s e = Inr s' \<Longrightarrow>
     (case e of EvModifyRejected _ \<Rightarrow> s' = PendingUpdate | EvCancelRejected _ \<Rightarrow> s' = PendingCancel
      | EvUpdated _ \<Rightarrow> s' \<notin> {PendingCancel, Denied, Rejected, Canceled, Expired, Filled}
      | EvFilled _ \<Rightarrow> s' = Filled | _ \<Rightarrow> s' \<noteq> Filled)"
  by (cases s; cases e; simp)

section \<open>What the handlers change\<close>

lemmas handler_defs = denied_def emulated_def released_def submitted_def rejected_def accepted_def
  pending_update_def pending_cancel_def triggered_def canceled_def expired_def

lemma updated_frame [simp]:
  "oc_previous_status (updated u c) = oc_previous_status c"
  "oc_events (updated u c) = oc_events c" "oc_trade_ids (updated u c) = oc_trade_ids c"
  "oc_client_order_id (updated u c) = oc_client_order_id c"
  "oc_strategy_id (updated u c) = oc_strategy_id c" "oc_quantity (updated u c) = oc_quantity c"
  "oc_filled_qty (updated u c) = oc_filled_qty c" "oc_leaves_qty (updated u c) = oc_leaves_qty c"
  "oc_overfill_qty (updated u c) = oc_overfill_qty c" "oc_avg_px (updated u c) = oc_avg_px c"
  "oc_ts_closed (updated u c) = oc_ts_closed c" "oc_order_type (updated u c) = oc_order_type c"
  "oc_status (updated u c) =
     (case oc_previous_status c of
        Some s \<Rightarrow> if oc_status c = PendingUpdate then s else oc_status c | None \<Rightarrow> oc_status c)"
  by (simp_all add: updated_def Let_def split: option.split)

lemma set_avg_px_frame:
  assumes "set_avg_px ops q p c = Some c2"
  shows "\<exists>a. c2 = c\<lparr>oc_avg_px := Some a\<rparr>"
  using assms by (auto simp: set_avg_px_def Let_def split: option.splits bind_splits)

lemma filled_effect:
  assumes "filled ops e c = Some c2"
  defines "n \<equiv> saturating_add_u 64 (q_raw (oc_filled_qty c)) (q_raw (of_last_qty e))"
  shows "q_raw (oc_filled_qty c2) = n"
    and "q_precision (oc_filled_qty c2) = q_precision (oc_filled_qty c)"
    and "oc_status c2 = (if n < q_raw (oc_quantity c) then PartiallyFilled else Filled)"
    and "oc_ts_closed c2 =
      (if n < q_raw (oc_quantity c) then oc_ts_closed c else Some (ev_ts_event e))"
    and "q_raw (oc_overfill_qty c2) = (if q_raw (oc_quantity c) < n
      then saturating_add_u 64 (q_raw (oc_overfill_qty c)) (n - q_raw (oc_quantity c))
      else q_raw (oc_overfill_qty c))"
    and "oc_leaves_qty c2 = quantity_saturating_sub (oc_leaves_qty c) (of_last_qty e)"
    and "oc_trade_ids c2 = oc_trade_ids c @ [of_trade_id e]"
    and "oc_previous_status c2 = oc_previous_status c" "oc_events c2 = oc_events c"
    and "oc_client_order_id c2 = oc_client_order_id c" "oc_strategy_id c2 = oc_strategy_id c"
    and "oc_quantity c2 = oc_quantity c" "oc_avg_px c2 \<noteq> None" "oc_order_type c2 = oc_order_type c"
  using assms(1) unfolding filled_def n_def
  by (auto simp: quantity_from_raw_Some quantity_lt_def Let_def split: bind_splits if_splits
      dest!: set_avg_px_frame)

lemma dispatch_frame:
  assumes "dispatch ops e c = Some (c2, r)"
  shows "oc_previous_status c2 = oc_previous_status c" "oc_events c2 = oc_events c"
    and "oc_client_order_id c2 = oc_client_order_id c" "oc_strategy_id c2 = oc_strategy_id c"
    and "oc_quantity c2 = oc_quantity c" "oc_order_type c2 = oc_order_type c"
  using assms
  by (cases e; auto simp: dispatch_def handler_defs modify_rejected_def cancel_rejected_def
      filled_effect split: option.splits bind_splits)+

lemma dispatch_not_fill:
  assumes "dispatch ops e c = Some (c2, r)" and "\<And>f. e \<noteq> EvFilled f"
  shows "oc_trade_ids c2 = oc_trade_ids c" "oc_filled_qty c2 = oc_filled_qty c"
    and "oc_leaves_qty c2 = oc_leaves_qty c" "oc_overfill_qty c2 = oc_overfill_qty c"
    and "oc_avg_px c2 = oc_avg_px c"
  using assms
  by (cases e; auto simp: dispatch_def handler_defs modify_rejected_def cancel_rejected_def
      split: option.splits)+

lemma dispatch_fill:
  "dispatch ops (EvFilled f) c = Some (c2, r) \<longleftrightarrow> filled ops f c = Some c2 \<and> r = Inr ()"
  by (auto simp: dispatch_def split: bind_splits)

text \<open>The status after the handler, given the status the transition table chose.\<close>

definition handler_status :: "order_event_any \<Rightarrow> 'f order_core \<Rightarrow> order_status" where
  "handler_status e c =
     (case e of
        EvModifyRejected _ \<Rightarrow>
          (case oc_previous_status c of None \<Rightarrow> oc_status c | Some s \<Rightarrow> s)
      | EvCancelRejected _ \<Rightarrow>
          (case oc_previous_status c of None \<Rightarrow> oc_status c | Some s \<Rightarrow> s)
      | EvUpdated _ \<Rightarrow>
          (case oc_previous_status c of
             Some s \<Rightarrow> if oc_status c = PendingUpdate then s else oc_status c
           | None \<Rightarrow> oc_status c)
      | EvFilled f \<Rightarrow>
          (if saturating_add_u 64 (q_raw (oc_filled_qty c)) (q_raw (of_last_qty f))
              < q_raw (oc_quantity c) then PartiallyFilled else Filled)
      | _ \<Rightarrow> oc_status c)"

lemma dispatch_status:
  assumes "dispatch ops e c = Some (c2, r)"
  shows "oc_status c2 = handler_status e c"
  using assms
  by (cases e; auto simp: dispatch_def handler_defs handler_status_def modify_rejected_def
      cancel_rejected_def filled_effect(3) split: option.splits bind_splits)

section \<open>Preservation\<close>

lemma prev_inv_apply:
  assumes "prev_inv c" and "core_apply ops e c = Some (c', r)"
  shows "prev_inv c'"
  using assms(2)
proof (cases rule: core_apply_cases)
  case refused
  then show ?thesis using assms by simp
next
  case (failed err)
  then show ?thesis using assms by (auto simp: prev_inv_def save_previous_status_def)
next
  case (applied st c2)
  let ?c = "save_previous_status e c" and ?restore = "{Submitted, Accepted, Triggered, PartiallyFilled}"
  have st: "st \<in> {PendingUpdate, PendingCancel} \<Longrightarrow> oc_previous_status ?c \<in> Some ` ?restore"
    using transition_pending [OF applied(4)] assms(1)
    by (auto simp: prev_inv_def save_previous_status_def split: order_event_any.splits)
  have "handler_status e (?c\<lparr>oc_status := st\<rparr>) \<in> {PendingUpdate, PendingCancel} \<Longrightarrow>
      st \<in> {PendingUpdate, PendingCancel}"
    using st transition_rejection [OF applied(4)]
    by (auto simp: handler_status_def split: order_event_any.splits option.splits if_splits)
  then have "prev_inv c2"
    using st dispatch_status [OF applied(5)] dispatch_frame(1) [OF applied(5)]
    by (auto simp: prev_inv_def)
  then show ?thesis using applied by (auto simp: prev_inv_def split: sum.splits)
qed

lemma log_inv_apply:
  assumes "log_inv c" and "core_apply ops e c = Some (c', r)"
  shows "log_inv c'"
  using assms(2)
proof (cases rule: core_apply_cases)
  case refused
  then show ?thesis using assms by simp
next
  case (failed err)
  then show ?thesis using assms by (auto simp: log_inv_def)
next
  case (applied st c2)
  have ne: "e \<noteq> EvInitialized i" for i using applied(4) transition_Initialized by auto
  note fr = dispatch_frame [OF applied(5)]
  show ?thesis
  proof (cases "\<exists>f. e = EvFilled f")
    case True
    then obtain f where e: "e = EvFilled f" by blast
    then have "of_trade_id f \<notin> set (oc_trade_ids c)"
      using applied(3) by (auto simp: duplicate_trade_id_def split: if_splits)
    moreover have "oc_trade_ids c2 = oc_trade_ids c @ [of_trade_id f]" and "r = Inr ()"
      using applied(5) by (auto simp: e dispatch_fill filled_effect(7))
    ultimately show ?thesis
      using assms(1) applied(1,2,6) fr e by (auto simp: log_inv_def)
  next
    case False
    then have "oc_trade_ids c2 = oc_trade_ids c" using dispatch_not_fill(1) [OF applied(5)] by auto
    then show ?thesis
      using assms(1) applied(1,2,6) fr ne False
      by (auto simp: log_inv_def split: sum.splits order_event_any.splits)
  qed
qed

lemma handler_status_not_closed:
  assumes "prev_inv c" and "transition (oc_status c) e = Inr st"
    and "\<not> (case e of EvDenied _ \<Rightarrow> True | EvRejected _ \<Rightarrow> True | EvCanceled _ \<Rightarrow> True
           | EvExpired _ \<Rightarrow> True | EvFilled _ \<Rightarrow> True | _ \<Rightarrow> False)"
  shows "handler_status e ((save_previous_status e c)\<lparr>oc_status := st\<rparr>)
     \<notin> {Denied, Rejected, Canceled, Expired, Filled}"
proof -
  have st: "st \<in> {PendingUpdate, PendingCancel} \<Longrightarrow>
      oc_previous_status (save_previous_status e c)
        \<in> Some ` {Submitted, Accepted, Triggered, PartiallyFilled}"
    using transition_pending [OF assms(2)] assms(1)
    by (auto simp: prev_inv_def save_previous_status_def split: order_event_any.splits)
  then show ?thesis
    using assms(3) transition_closed [OF assms(2)] transition_rejection [OF assms(2)]
    by (auto simp: handler_status_def split: order_event_any.splits option.splits if_splits)
qed

lemma closed_inv_apply:
  assumes "closed_inv c" and "prev_inv c" and "core_apply ops e c = Some (c', r)"
  shows "closed_inv c'"
  using assms(3)
proof (cases rule: core_apply_cases)
  case refused
  then show ?thesis using assms by simp
next
  case (failed err)
  then show ?thesis using assms by (auto simp: closed_inv_def is_closed_def)
next
  case (applied st c2)
  note st = dispatch_status [OF applied(5)]
  have "closed_inv c2"
  proof (cases "case e of EvDenied _ \<Rightarrow> True | EvRejected _ \<Rightarrow> True | EvCanceled _ \<Rightarrow> True
      | EvExpired _ \<Rightarrow> True | EvFilled _ \<Rightarrow> True | _ \<Rightarrow> False")
    case True
    then show ?thesis
      using applied(5)
      by (auto simp: closed_inv_def is_closed_def dispatch_def handler_defs filled_effect(3,4)
          split: order_event_any.splits bind_splits if_splits)
  next
    case False
    then show ?thesis
      using handler_status_not_closed [OF assms(2) applied(4)] st
      by (simp add: closed_inv_def is_closed_def)
  qed
  then show ?thesis using applied(6) by (auto simp: closed_inv_def is_closed_def split: sum.splits)
qed

lemma saturating_add_min: "saturating_add_u 64 (min (u_max 64) a) b = min (u_max 64) (a + b)"
  by (auto simp: saturating_add_u_def)

lemma qty_inv_apply:
  assumes q: "qty_inv c" and p: "prev_inv c" and a: "core_apply ops e c = Some (c', r)"
  shows "qty_inv c'"
  using a
proof (cases rule: core_apply_cases)
  case refused
  then show ?thesis using q by simp
next
  case (failed err)
  then show ?thesis using q by (auto simp: qty_inv_def)
next
  case (applied st c2)
  have nf: "oc_status c \<noteq> Filled" using applied(4) by auto
  note fr = dispatch_frame [OF applied(5)]
  show ?thesis
  proof (cases "\<exists>f. e = EvFilled f")
    case True
    then obtain f where e: "e = EvFilled f" by blast
    then have f: "filled ops f ((save_previous_status e c)\<lparr>oc_status := st\<rparr>) = Some c2"
      and r: "r = Inr ()" using applied(5) by (simp_all add: dispatch_fill)
    note fe = filled_effect [OF f, simplified]
    have "q_raw (oc_overfill_qty c) = 0" using q nf by (simp add: qty_inv_def)
    moreover have "q_raw (oc_filled_qty c) = min (u_max 64) (fills_raw (oc_events c))"
      using q by (simp add: qty_inv_def)
    ultimately show ?thesis
      using q nf r fe applied(6) e
      by (auto simp: qty_inv_def saturating_add_min saturating_add_u_def quantity_saturating_sub_def
          saturating_sub_u_def min_def)
  next
    case False
    then have "handler_status e ((save_previous_status e c)\<lparr>oc_status := st\<rparr>) \<noteq> Filled"
      using handler_status_not_closed [OF p applied(4)] transition_closed [OF applied(4)]
      by (auto simp: handler_status_def split: order_event_any.splits)
    then show ?thesis
      using q nf fr dispatch_status [OF applied(5)] dispatch_not_fill [OF applied(5)] False applied(6)
      by (auto simp: qty_inv_def split: sum.splits order_event_any.splits)
  qed
qed

lemma core_inv_apply:
  "core_inv c \<Longrightarrow> core_apply ops e c = Some (c', r) \<Longrightarrow> core_inv c'"
  using prev_inv_apply log_inv_apply closed_inv_apply qty_inv_apply by (auto simp: core_inv_def)

lemma core_inv_new: "order_core_new init = Some c \<Longrightarrow> core_inv c"
  by (auto simp: order_core_new_def core_inv_def prev_inv_def log_inv_def qty_inv_def closed_inv_def
      is_closed_def quantity_zero_def check_fixed_precision_def split: bind_splits sum.splits if_splits)

end
