(* ===== verification/Order_Types.thy ===== *)
theory Order_Types
  imports Order_Core
begin

text \<open>
  The nine order types of \<^verbatim>\<open>crates/model/src/orders\<close> around \<^verbatim>\<open>OrderCore\<close>: their
  structs, checked constructors, conversions from an initialization event, event application and
  updates, and the enum \<^verbatim>\<open>OrderAny\<close> over them with the replay of an event log.

  The many scalar arguments of a constructor are passed as one \<^typ>\<open>order_initialized\<close> record
  \<open>a\<close>; the required prices, trigger types and offsets are separate arguments. The constructors
  overwrite in it what the code passes as a constant to \<^verbatim>\<open>OrderInitialized::new\<close>. A result is
  nested in an option because \<^verbatim>\<open>OrderCore::new\<close> and the updates can panic.
\<close>

definition and_then :: "'e + 'a \<Rightarrow> ('a \<Rightarrow> 'e + 'b) \<Rightarrow> 'e + 'b" where
  "and_then r f = (case r of Inl e \<Rightarrow> Inl e | Inr x \<Rightarrow> f x)"

definition as_order_error :: "correctness_error + 'a \<Rightarrow> order_error + 'a" where
  "as_order_error r = (case r of Inl e \<Rightarrow> Inl (Invariant e) | Inr x \<Rightarrow> Inr x)"

text \<open>\<^verbatim>\<open>Option::ok_or\<close> with the error of a missing required field.\<close>

definition required :: "'a option \<Rightarrow> order_error + 'a" where
  "required x = (case x of None \<Rightarrow> Inl (Invariant PredicateViolation) | Some y \<Rightarrow> Inr y)"

definition order_initialized_new :: "order_initialized \<Rightarrow> order_initialized" where
  "order_initialized_new a = a\<lparr>ev_causation_id := None\<rparr>"

text \<open>The quantity part of every update.\<close>

definition core_set_quantity :: "quantity \<Rightarrow> 'f order_core \<Rightarrow> 'f order_core" where
  "core_set_quantity q c =
     c\<lparr>oc_quantity := q, oc_leaves_qty := quantity_saturating_sub q (oc_filled_qty c)\<rparr>"

definition is_fill :: "order_event_any \<Rightarrow> bool" where
  "is_fill e \<longleftrightarrow> (case e of EvFilled _ \<Rightarrow> True | _ \<Rightarrow> False)"

definition is_trigger :: "order_event_any \<Rightarrow> bool" where
  "is_trigger e \<longleftrightarrow> (case e of EvTriggered _ \<Rightarrow> True | _ \<Rightarrow> False)"

text \<open>
  What all types share in applying an event: the core first, stopping at its error with the core
  as it is then, and the type's own work on success.
\<close>

definition apply_with ::
    "('o \<Rightarrow> 'f order_core) \<Rightarrow> ('f order_core \<Rightarrow> 'o \<Rightarrow> 'o) \<Rightarrow> 'f f64_ops \<Rightarrow> order_event_any \<Rightarrow>
     ('o \<Rightarrow> 'o option) \<Rightarrow> 'o \<Rightarrow> ('o \<times> (order_error + unit)) option" where
  "apply_with get put ops e after_ok ord = do {
     (c, r) \<leftarrow> core_apply ops e (get ord);
     (case r of
        Inl err \<Rightarrow> Some (put c ord, Inl err)
      | Inr _ \<Rightarrow> do { ord' \<leftarrow> after_ok (put c ord); Some (ord', Inr ()) })}"

section \<open>Limit orders\<close>

record 'f limit_order =
  lo_core :: "'f order_core"
  lo_price :: price
  lo_expire_time :: "nat option"
  lo_is_post_only :: bool
  lo_display_qty :: "quantity option"
  lo_trigger_instrument_id :: "string option"

definition limit_order_init ::
    "order_initialized \<Rightarrow> price \<Rightarrow> order_initialized" where
  "limit_order_init a px =
     order_initialized_new
       (a\<lparr>oi_order_type := Limit, ev_reconciliation := False,
          ev_ts_init := ev_ts_event a, oi_price := Some px, oi_trigger_price := None,
          oi_trigger_type := None, oi_limit_offset := None, oi_trailing_offset := None,
          oi_trailing_offset_type := None\<rparr>)"

definition limit_order_new_checked ::
    "order_initialized \<Rightarrow> price \<Rightarrow>
     (order_error + 'f limit_order) option" where
  "limit_order_new_checked a px =
     (case and_then (as_order_error (check_positive_quantity (oi_quantity a))) (\<lambda>_.
            and_then (check_display_qty (oi_display_qty a) (oi_quantity a)) (\<lambda>_.
            check_time_in_force (oi_time_in_force a) (oi_expire_time a))) of
        Inl e \<Rightarrow> Some (Inl e)
      | Inr _ \<Rightarrow> do {
          core \<leftarrow> order_core_new (limit_order_init a px);
          Some (Inr \<lparr>lo_core = core, lo_price = px, lo_expire_time = oi_expire_time a,
             lo_is_post_only = oi_post_only a, lo_display_qty = oi_display_qty a,
             lo_trigger_instrument_id = oi_trigger_instrument_id a\<rparr>)})"

definition limit_order_try_from ::
    "order_initialized \<Rightarrow> (order_error + 'f limit_order) option" where
  "limit_order_try_from event =
     (case required (oi_price event) of Inl e \<Rightarrow> Some (Inl e) | Inr px \<Rightarrow>
     limit_order_new_checked event px)"

definition limit_order_update ::
    "order_updated \<Rightarrow> 'f limit_order \<Rightarrow> 'f limit_order option" where
  "limit_order_update event ord =
     (if ou_trigger_price event \<noteq> None then None
      else Some (ord\<lparr>lo_price := (case ou_price event of Some x \<Rightarrow> x | None \<Rightarrow> lo_price ord),
             lo_core := core_set_quantity (ou_quantity event) (lo_core ord)\<rparr>))"

definition limit_order_apply ::
    "'f f64_ops \<Rightarrow> order_event_any \<Rightarrow> 'f limit_order \<Rightarrow>
     ('f limit_order \<times> (order_error + unit)) option" where
  "limit_order_apply ops event =
     apply_with lo_core (\<lambda>c ord. ord\<lparr>lo_core := c\<rparr>) ops event (\<lambda>ord0. do {
       ord1 \<leftarrow> (case event of EvUpdated u \<Rightarrow> limit_order_update u ord0 | _ \<Rightarrow> Some ord0);
       Some (if is_fill event
             then ord1\<lparr>lo_core := set_slippage ops (lo_price ord1) (lo_core ord1)\<rparr>
             else ord1)})"

section \<open>Limit-if-touched orders\<close>

record 'f limit_if_touched_order =
  lit_core :: "'f order_core"
  lit_price :: price
  lit_trigger_price :: price
  lit_trigger_type :: trigger_type
  lit_expire_time :: "nat option"
  lit_is_post_only :: bool
  lit_display_qty :: "quantity option"
  lit_trigger_instrument_id :: "string option"
  lit_is_triggered :: bool
  lit_ts_triggered :: "nat option"

definition check_lit_prices :: "order_side \<Rightarrow> price \<Rightarrow> price \<Rightarrow> order_error + unit" where
  "check_lit_prices side px trigger_px =
     (case side of
        Buy \<Rightarrow> if price_lt px trigger_px then Inl (Invariant PredicateViolation) else Inr ()
      | Sell \<Rightarrow> if price_lt trigger_px px then Inl (Invariant PredicateViolation) else Inr ()
      | NoOrderSide \<Rightarrow> Inr ())"

definition limit_if_touched_order_init ::
    "order_initialized \<Rightarrow> price \<Rightarrow> price \<Rightarrow> trigger_type \<Rightarrow> order_initialized" where
  "limit_if_touched_order_init a px trigger_px trig =
     order_initialized_new
       (a\<lparr>oi_order_type := LimitIfTouched, ev_reconciliation := False,
          ev_ts_init := ev_ts_event a, oi_price := Some px, oi_trigger_price := Some trigger_px,
          oi_trigger_type := Some trig, oi_limit_offset := None, oi_trailing_offset := None,
          oi_trailing_offset_type := None\<rparr>)"

definition limit_if_touched_order_new_checked ::
    "order_initialized \<Rightarrow> price \<Rightarrow> price \<Rightarrow> trigger_type \<Rightarrow>
     (order_error + 'f limit_if_touched_order) option" where
  "limit_if_touched_order_new_checked a px trigger_px trig =
     (case and_then (as_order_error (check_positive_quantity (oi_quantity a))) (\<lambda>_.
            and_then (check_display_qty (oi_display_qty a) (oi_quantity a)) (\<lambda>_.
            and_then (check_time_in_force (oi_time_in_force a) (oi_expire_time a)) (\<lambda>_.
            check_lit_prices (oi_order_side a) px trigger_px))) of
        Inl e \<Rightarrow> Some (Inl e)
      | Inr _ \<Rightarrow> do {
          core \<leftarrow> order_core_new (limit_if_touched_order_init a px trigger_px trig);
          Some (Inr \<lparr>lit_core = core, lit_price = px, lit_trigger_price = trigger_px,
             lit_trigger_type = trig, lit_expire_time = oi_expire_time a,
             lit_is_post_only = oi_post_only a, lit_display_qty = oi_display_qty a,
             lit_trigger_instrument_id = oi_trigger_instrument_id a, lit_is_triggered = False,
             lit_ts_triggered = None\<rparr>)})"

definition limit_if_touched_order_try_from ::
    "order_initialized \<Rightarrow> (order_error + 'f limit_if_touched_order) option" where
  "limit_if_touched_order_try_from event =
     (case required (oi_price event) of Inl e \<Rightarrow> Some (Inl e) | Inr px \<Rightarrow>
     (case required (oi_trigger_price event) of Inl e \<Rightarrow> Some (Inl e) | Inr trigger_px \<Rightarrow>
     (case required (oi_trigger_type event) of Inl e \<Rightarrow> Some (Inl e) | Inr trig \<Rightarrow>
     limit_if_touched_order_new_checked event px trigger_px trig)))"

definition limit_if_touched_order_update ::
    "order_updated \<Rightarrow> 'f limit_if_touched_order \<Rightarrow> 'f limit_if_touched_order option" where
  "limit_if_touched_order_update event ord =
     Some (ord\<lparr>lit_price := (case ou_price event of Some x \<Rightarrow> x | None \<Rightarrow> lit_price ord),
             lit_trigger_price :=
               (case ou_trigger_price event of Some x \<Rightarrow> x | None \<Rightarrow> lit_trigger_price ord),
             lit_core := core_set_quantity (ou_quantity event) (lit_core ord)\<rparr>)"

definition limit_if_touched_order_apply ::
    "'f f64_ops \<Rightarrow> order_event_any \<Rightarrow> 'f limit_if_touched_order \<Rightarrow>
     ('f limit_if_touched_order \<times> (order_error + unit)) option" where
  "limit_if_touched_order_apply ops event =
     apply_with lit_core (\<lambda>c ord. ord\<lparr>lit_core := c\<rparr>) ops event (\<lambda>ord0. do {
       ord1 \<leftarrow> (case event of EvUpdated u \<Rightarrow> limit_if_touched_order_update u ord0 | _ \<Rightarrow> Some ord0);
       let ord2 = (if is_trigger event
                   then ord1\<lparr>lit_is_triggered := True, lit_ts_triggered := Some (event_ts_event event)\<rparr>
                   else ord1);
       Some (if is_fill event
             then ord2\<lparr>lit_core := set_slippage ops (lit_price ord2) (lit_core ord2)\<rparr>
             else ord2)})"

section \<open>Market orders\<close>

record 'f market_order =
  mo_core :: "'f order_core"
  mo_protection_price :: "price option"

definition market_order_init ::
    "order_initialized \<Rightarrow> order_initialized" where
  "market_order_init a =
     order_initialized_new
       (a\<lparr>oi_order_type := Market, ev_reconciliation := False,
          ev_ts_init := ev_ts_event a, oi_price := None, oi_trigger_price := None,
          oi_trigger_type := Some NoTrigger, oi_limit_offset := None,
          oi_trailing_offset := None, oi_trailing_offset_type := None, oi_post_only := False,
          oi_expire_time := None, oi_display_qty := None, oi_emulation_trigger := None,
          oi_trigger_instrument_id := None\<rparr>)"

definition market_order_new_checked ::
    "order_initialized \<Rightarrow>
     (order_error + 'f market_order) option" where
  "market_order_new_checked a =
     (case and_then (as_order_error (check_positive_quantity (oi_quantity a))) (\<lambda>_.
            as_order_error (check_predicate_false (oi_time_in_force a = Gtd))) of
        Inl e \<Rightarrow> Some (Inl e)
      | Inr _ \<Rightarrow> do {
          core \<leftarrow> order_core_new (market_order_init a);
          Some (Inr \<lparr>mo_core = core, mo_protection_price = None\<rparr>)})"

definition market_order_try_from ::
    "order_initialized \<Rightarrow> (order_error + 'f market_order) option" where
  "market_order_try_from event =
     market_order_new_checked event"

definition market_order_update ::
    "order_updated \<Rightarrow> 'f market_order \<Rightarrow> 'f market_order option" where
  "market_order_update event ord =
     (if ou_price event \<noteq> None \<or> ou_trigger_price event \<noteq> None then None
      else Some (ord\<lparr>mo_protection_price :=
               (case ou_protection_price event of Some x \<Rightarrow> Some x | None \<Rightarrow> mo_protection_price ord),
             mo_core := core_set_quantity (ou_quantity event) (mo_core ord)\<rparr>))"

definition market_order_apply ::
    "'f f64_ops \<Rightarrow> order_event_any \<Rightarrow> 'f market_order \<Rightarrow>
     ('f market_order \<times> (order_error + unit)) option" where
  "market_order_apply ops event =
     apply_with mo_core (\<lambda>c ord. ord\<lparr>mo_core := c\<rparr>) ops event (\<lambda>ord0. do {
       ord1 \<leftarrow> (case event of EvUpdated u \<Rightarrow> market_order_update u ord0 | _ \<Rightarrow> Some ord0);
       Some ord1})"

section \<open>Market-if-touched orders\<close>

record 'f market_if_touched_order =
  mit_core :: "'f order_core"
  mit_trigger_price :: price
  mit_trigger_type :: trigger_type
  mit_expire_time :: "nat option"
  mit_trigger_instrument_id :: "string option"
  mit_is_triggered :: bool
  mit_ts_triggered :: "nat option"

definition market_if_touched_order_init ::
    "order_initialized \<Rightarrow> price \<Rightarrow> trigger_type \<Rightarrow> order_initialized" where
  "market_if_touched_order_init a trigger_px trig =
     order_initialized_new
       (a\<lparr>oi_order_type := MarketIfTouched, ev_reconciliation := False,
          ev_ts_init := ev_ts_event a, oi_price := None, oi_trigger_price := Some trigger_px,
          oi_trigger_type := Some trig, oi_limit_offset := None, oi_trailing_offset := None,
          oi_trailing_offset_type := None, oi_post_only := False,
          oi_display_qty := None\<rparr>)"

definition market_if_touched_order_new_checked ::
    "order_initialized \<Rightarrow> price \<Rightarrow> trigger_type \<Rightarrow>
     (order_error + 'f market_if_touched_order) option" where
  "market_if_touched_order_new_checked a trigger_px trig =
     (case and_then (as_order_error (check_positive_quantity (oi_quantity a))) (\<lambda>_.
            check_time_in_force (oi_time_in_force a) (oi_expire_time a)) of
        Inl e \<Rightarrow> Some (Inl e)
      | Inr _ \<Rightarrow> do {
          core \<leftarrow> order_core_new (market_if_touched_order_init a trigger_px trig);
          Some (Inr \<lparr>mit_core = core, mit_trigger_price = trigger_px,
             mit_trigger_type = trig, mit_expire_time = oi_expire_time a,
             mit_trigger_instrument_id = oi_trigger_instrument_id a, mit_is_triggered = False,
             mit_ts_triggered = None\<rparr>)})"

definition market_if_touched_order_try_from ::
    "order_initialized \<Rightarrow> (order_error + 'f market_if_touched_order) option" where
  "market_if_touched_order_try_from event =
     (case required (oi_trigger_price event) of Inl e \<Rightarrow> Some (Inl e) | Inr trigger_px \<Rightarrow>
     (case required (oi_trigger_type event) of Inl e \<Rightarrow> Some (Inl e) | Inr trig \<Rightarrow>
     market_if_touched_order_new_checked event trigger_px trig))"

definition market_if_touched_order_update ::
    "order_updated \<Rightarrow> 'f market_if_touched_order \<Rightarrow> 'f market_if_touched_order option" where
  "market_if_touched_order_update event ord =
     (if ou_price event \<noteq> None then None
      else Some (ord\<lparr>mit_trigger_price :=
               (case ou_trigger_price event of Some x \<Rightarrow> x | None \<Rightarrow> mit_trigger_price ord),
             mit_core := core_set_quantity (ou_quantity event) (mit_core ord)\<rparr>))"

definition market_if_touched_order_apply ::
    "'f f64_ops \<Rightarrow> order_event_any \<Rightarrow> 'f market_if_touched_order \<Rightarrow>
     ('f market_if_touched_order \<times> (order_error + unit)) option" where
  "market_if_touched_order_apply ops event =
     apply_with mit_core (\<lambda>c ord. ord\<lparr>mit_core := c\<rparr>) ops event (\<lambda>ord0. do {
       ord1 \<leftarrow> (case event of EvUpdated u \<Rightarrow> market_if_touched_order_update u ord0 | _ \<Rightarrow> Some ord0);
       let ord2 = (if is_trigger event
                   then ord1\<lparr>mit_is_triggered := True, mit_ts_triggered := Some (event_ts_event event)\<rparr>
                   else ord1);
       Some (if is_fill event
             then ord2\<lparr>mit_core := set_slippage ops (mit_trigger_price ord2) (mit_core ord2)\<rparr>
             else ord2)})"

section \<open>Market-to-limit orders\<close>

record 'f market_to_limit_order =
  mtl_core :: "'f order_core"
  mtl_price :: "price option"
  mtl_expire_time :: "nat option"
  mtl_is_post_only :: bool
  mtl_display_qty :: "quantity option"

definition market_to_limit_order_init ::
    "order_initialized \<Rightarrow> order_initialized" where
  "market_to_limit_order_init a =
     order_initialized_new
       (a\<lparr>oi_order_type := MarketToLimit, ev_reconciliation := False,
          ev_ts_init := ev_ts_event a, oi_price := None, oi_trigger_price := None,
          oi_trigger_type := None, oi_limit_offset := None, oi_trailing_offset := None,
          oi_trailing_offset_type := None, oi_emulation_trigger := Some NoTrigger,
          oi_trigger_instrument_id := None\<rparr>)"

definition market_to_limit_order_new_checked ::
    "order_initialized \<Rightarrow>
     (order_error + 'f market_to_limit_order) option" where
  "market_to_limit_order_new_checked a =
     (case and_then (as_order_error (check_positive_quantity (oi_quantity a))) (\<lambda>_.
            and_then (check_display_qty (oi_display_qty a) (oi_quantity a)) (\<lambda>_.
            check_time_in_force (oi_time_in_force a) (oi_expire_time a))) of
        Inl e \<Rightarrow> Some (Inl e)
      | Inr _ \<Rightarrow> do {
          core \<leftarrow> order_core_new (market_to_limit_order_init a);
          Some (Inr \<lparr>mtl_core = core, mtl_price = None,
             mtl_expire_time = oi_expire_time a, mtl_is_post_only = oi_post_only a,
             mtl_display_qty = oi_display_qty a\<rparr>)})"

definition market_to_limit_order_try_from ::
    "order_initialized \<Rightarrow> (order_error + 'f market_to_limit_order) option" where
  "market_to_limit_order_try_from event =
     market_to_limit_order_new_checked event"

definition market_to_limit_order_update ::
    "order_updated \<Rightarrow> 'f market_to_limit_order \<Rightarrow> 'f market_to_limit_order option" where
  "market_to_limit_order_update event ord =
     (if ou_trigger_price event \<noteq> None then None
      else Some (ord\<lparr>mtl_price := (case ou_price event of Some x \<Rightarrow> Some x | None \<Rightarrow> mtl_price ord),
             mtl_core := core_set_quantity (ou_quantity event) (mtl_core ord)\<rparr>))"

definition market_to_limit_order_apply ::
    "'f f64_ops \<Rightarrow> order_event_any \<Rightarrow> 'f market_to_limit_order \<Rightarrow>
     ('f market_to_limit_order \<times> (order_error + unit)) option" where
  "market_to_limit_order_apply ops event =
     apply_with mtl_core (\<lambda>c ord. ord\<lparr>mtl_core := c\<rparr>) ops event (\<lambda>ord0. do {
       ord1 \<leftarrow> (case event of EvUpdated u \<Rightarrow> market_to_limit_order_update u ord0 | _ \<Rightarrow> Some ord0);
       Some (case mtl_price ord1 of
               Some x \<Rightarrow> if is_fill event
                         then ord1\<lparr>mtl_core := set_slippage ops x (mtl_core ord1)\<rparr> else ord1
             | None \<Rightarrow> ord1)})"

section \<open>Stop-limit orders\<close>

record 'f stop_limit_order =
  sl_core :: "'f order_core"
  sl_price :: price
  sl_trigger_price :: price
  sl_trigger_type :: trigger_type
  sl_expire_time :: "nat option"
  sl_is_post_only :: bool
  sl_display_qty :: "quantity option"
  sl_trigger_instrument_id :: "string option"
  sl_is_triggered :: bool
  sl_ts_triggered :: "nat option"

definition stop_limit_order_init ::
    "order_initialized \<Rightarrow> price \<Rightarrow> price \<Rightarrow> trigger_type \<Rightarrow> order_initialized" where
  "stop_limit_order_init a px trigger_px trig =
     order_initialized_new
       (a\<lparr>oi_order_type := StopLimit, ev_reconciliation := False,
          ev_ts_init := ev_ts_event a, oi_price := Some px, oi_trigger_price := Some trigger_px,
          oi_trigger_type := Some trig, oi_limit_offset := None, oi_trailing_offset := None,
          oi_trailing_offset_type := None\<rparr>)"

definition stop_limit_order_new_checked ::
    "order_initialized \<Rightarrow> price \<Rightarrow> price \<Rightarrow> trigger_type \<Rightarrow>
     (order_error + 'f stop_limit_order) option" where
  "stop_limit_order_new_checked a px trigger_px trig =
     (case and_then (as_order_error (check_positive_quantity (oi_quantity a))) (\<lambda>_.
            and_then (check_display_qty (oi_display_qty a) (oi_quantity a)) (\<lambda>_.
            check_time_in_force (oi_time_in_force a) (oi_expire_time a))) of
        Inl e \<Rightarrow> Some (Inl e)
      | Inr _ \<Rightarrow> do {
          core \<leftarrow> order_core_new (stop_limit_order_init a px trigger_px trig);
          Some (Inr \<lparr>sl_core = core, sl_price = px, sl_trigger_price = trigger_px,
             sl_trigger_type = trig, sl_expire_time = oi_expire_time a,
             sl_is_post_only = oi_post_only a, sl_display_qty = oi_display_qty a,
             sl_trigger_instrument_id = oi_trigger_instrument_id a, sl_is_triggered = False,
             sl_ts_triggered = None\<rparr>)})"

definition stop_limit_order_try_from ::
    "order_initialized \<Rightarrow> (order_error + 'f stop_limit_order) option" where
  "stop_limit_order_try_from event =
     (case required (oi_price event) of Inl e \<Rightarrow> Some (Inl e) | Inr px \<Rightarrow>
     (case required (oi_trigger_price event) of Inl e \<Rightarrow> Some (Inl e) | Inr trigger_px \<Rightarrow>
     (case required (oi_trigger_type event) of Inl e \<Rightarrow> Some (Inl e) | Inr trig \<Rightarrow>
     stop_limit_order_new_checked event px trigger_px trig)))"

definition stop_limit_order_update ::
    "order_updated \<Rightarrow> 'f stop_limit_order \<Rightarrow> 'f stop_limit_order option" where
  "stop_limit_order_update event ord =
     Some (ord\<lparr>sl_price := (case ou_price event of Some x \<Rightarrow> x | None \<Rightarrow> sl_price ord),
             sl_trigger_price :=
               (case ou_trigger_price event of Some x \<Rightarrow> x | None \<Rightarrow> sl_trigger_price ord),
             sl_core := core_set_quantity (ou_quantity event) (sl_core ord)\<rparr>)"

definition stop_limit_order_apply ::
    "'f f64_ops \<Rightarrow> order_event_any \<Rightarrow> 'f stop_limit_order \<Rightarrow>
     ('f stop_limit_order \<times> (order_error + unit)) option" where
  "stop_limit_order_apply ops event =
     apply_with sl_core (\<lambda>c ord. ord\<lparr>sl_core := c\<rparr>) ops event (\<lambda>ord0. do {
       ord1 \<leftarrow> (case event of EvUpdated u \<Rightarrow> stop_limit_order_update u ord0 | _ \<Rightarrow> Some ord0);
       let ord2 = (if is_trigger event
                   then ord1\<lparr>sl_is_triggered := True, sl_ts_triggered := Some (event_ts_event event)\<rparr>
                   else ord1);
       Some (if is_fill event
             then ord2\<lparr>sl_core := set_slippage ops (sl_price ord2) (sl_core ord2)\<rparr>
             else ord2)})"

section \<open>Stop-market orders\<close>

record 'f stop_market_order =
  sm_core :: "'f order_core"
  sm_trigger_price :: price
  sm_trigger_type :: trigger_type
  sm_expire_time :: "nat option"
  sm_display_qty :: "quantity option"
  sm_trigger_instrument_id :: "string option"
  sm_is_triggered :: bool
  sm_ts_triggered :: "nat option"
  sm_protection_price :: "price option"

definition stop_market_order_init ::
    "order_initialized \<Rightarrow> price \<Rightarrow> trigger_type \<Rightarrow> order_initialized" where
  "stop_market_order_init a trigger_px trig =
     order_initialized_new
       (a\<lparr>oi_order_type := StopMarket, ev_reconciliation := False,
          ev_ts_init := ev_ts_event a, oi_price := None, oi_trigger_price := Some trigger_px,
          oi_trigger_type := Some trig, oi_limit_offset := None, oi_trailing_offset := None,
          oi_trailing_offset_type := None, oi_post_only := False\<rparr>)"

definition stop_market_order_new_checked ::
    "order_initialized \<Rightarrow> price \<Rightarrow> trigger_type \<Rightarrow>
     (order_error + 'f stop_market_order) option" where
  "stop_market_order_new_checked a trigger_px trig =
     (case and_then (as_order_error (check_positive_quantity (oi_quantity a))) (\<lambda>_.
            and_then (check_display_qty (oi_display_qty a) (oi_quantity a)) (\<lambda>_.
            check_time_in_force (oi_time_in_force a) (oi_expire_time a))) of
        Inl e \<Rightarrow> Some (Inl e)
      | Inr _ \<Rightarrow> do {
          core \<leftarrow> order_core_new (stop_market_order_init a trigger_px trig);
          Some (Inr \<lparr>sm_core = core, sm_trigger_price = trigger_px,
             sm_trigger_type = trig, sm_expire_time = oi_expire_time a,
             sm_display_qty = oi_display_qty a,
             sm_trigger_instrument_id = oi_trigger_instrument_id a, sm_is_triggered = False,
             sm_ts_triggered = None, sm_protection_price = None\<rparr>)})"

definition stop_market_order_try_from ::
    "order_initialized \<Rightarrow> (order_error + 'f stop_market_order) option" where
  "stop_market_order_try_from event =
     (case required (oi_trigger_price event) of Inl e \<Rightarrow> Some (Inl e) | Inr trigger_px \<Rightarrow>
     (case required (oi_trigger_type event) of Inl e \<Rightarrow> Some (Inl e) | Inr trig \<Rightarrow>
     stop_market_order_new_checked event trigger_px trig))"

definition stop_market_order_update ::
    "order_updated \<Rightarrow> 'f stop_market_order \<Rightarrow> 'f stop_market_order option" where
  "stop_market_order_update event ord =
     (if ou_price event \<noteq> None then None
      else Some (ord\<lparr>sm_trigger_price :=
               (case ou_trigger_price event of Some x \<Rightarrow> x | None \<Rightarrow> sm_trigger_price ord),
             sm_protection_price := ou_protection_price event,
             sm_core := core_set_quantity (ou_quantity event) (sm_core ord)\<rparr>))"

definition stop_market_order_apply ::
    "'f f64_ops \<Rightarrow> order_event_any \<Rightarrow> 'f stop_market_order \<Rightarrow>
     ('f stop_market_order \<times> (order_error + unit)) option" where
  "stop_market_order_apply ops event =
     apply_with sm_core (\<lambda>c ord. ord\<lparr>sm_core := c\<rparr>) ops event (\<lambda>ord0. do {
       ord1 \<leftarrow> (case event of EvUpdated u \<Rightarrow> stop_market_order_update u ord0 | _ \<Rightarrow> Some ord0);
       let ord2 = (if is_trigger event
                   then ord1\<lparr>sm_is_triggered := True, sm_ts_triggered := Some (event_ts_event event)\<rparr>
                   else ord1);
       Some (if is_fill event
             then ord2\<lparr>sm_core := set_slippage ops (sm_trigger_price ord2) (sm_core ord2)\<rparr>
             else ord2)})"

section \<open>Trailing-stop-limit orders\<close>

record 'f trailing_stop_limit_order =
  tsl_core :: "'f order_core"
  tsl_activation_price :: "price option"
  tsl_price :: price
  tsl_trigger_price :: price
  tsl_trigger_type :: trigger_type
  tsl_limit_offset :: decimal
  tsl_trailing_offset :: decimal
  tsl_trailing_offset_type :: trailing_offset_type
  tsl_expire_time :: "nat option"
  tsl_is_post_only :: bool
  tsl_display_qty :: "quantity option"
  tsl_trigger_instrument_id :: "string option"
  tsl_is_activated :: bool
  tsl_is_triggered :: bool
  tsl_ts_triggered :: "nat option"

definition trailing_stop_limit_order_init ::
    "order_initialized \<Rightarrow> price \<Rightarrow> price \<Rightarrow> trigger_type \<Rightarrow> decimal \<Rightarrow> decimal \<Rightarrow> trailing_offset_type \<Rightarrow> order_initialized" where
  "trailing_stop_limit_order_init a px trigger_px trig limit_off trailing_off trailing_ty =
     order_initialized_new
       (a\<lparr>oi_order_type := TrailingStopLimit, ev_reconciliation := False,
          ev_ts_init := ev_ts_event a, oi_price := Some px, oi_trigger_price := Some trigger_px,
          oi_trigger_type := Some trig, oi_limit_offset := Some limit_off,
          oi_trailing_offset := Some trailing_off,
          oi_trailing_offset_type := Some trailing_ty\<rparr>)"

definition trailing_stop_limit_order_new_checked ::
    "order_initialized \<Rightarrow> price \<Rightarrow> price \<Rightarrow> trigger_type \<Rightarrow> decimal \<Rightarrow> decimal \<Rightarrow> trailing_offset_type \<Rightarrow>
     (order_error + 'f trailing_stop_limit_order) option" where
  "trailing_stop_limit_order_new_checked a px trigger_px trig limit_off trailing_off trailing_ty =
     (case and_then (as_order_error (check_positive_quantity (oi_quantity a))) (\<lambda>_.
            and_then (check_display_qty (oi_display_qty a) (oi_quantity a)) (\<lambda>_.
            check_time_in_force (oi_time_in_force a) (oi_expire_time a))) of
        Inl e \<Rightarrow> Some (Inl e)
      | Inr _ \<Rightarrow> do {
          core \<leftarrow> order_core_new (trailing_stop_limit_order_init a px trigger_px trig limit_off trailing_off trailing_ty);
          Some (Inr \<lparr>tsl_core = core, tsl_activation_price = None, tsl_price = px,
             tsl_trigger_price = trigger_px, tsl_trigger_type = trig,
             tsl_limit_offset = limit_off, tsl_trailing_offset = trailing_off,
             tsl_trailing_offset_type = trailing_ty, tsl_expire_time = oi_expire_time a,
             tsl_is_post_only = oi_post_only a, tsl_display_qty = oi_display_qty a,
             tsl_trigger_instrument_id = oi_trigger_instrument_id a, tsl_is_activated = False,
             tsl_is_triggered = False, tsl_ts_triggered = None\<rparr>)})"

definition trailing_stop_limit_order_try_from ::
    "order_initialized \<Rightarrow> (order_error + 'f trailing_stop_limit_order) option" where
  "trailing_stop_limit_order_try_from event =
     (case required (oi_price event) of Inl e \<Rightarrow> Some (Inl e) | Inr px \<Rightarrow>
     (case required (oi_trigger_price event) of Inl e \<Rightarrow> Some (Inl e) | Inr trigger_px \<Rightarrow>
     (case required (oi_trigger_type event) of Inl e \<Rightarrow> Some (Inl e) | Inr trig \<Rightarrow>
     (case required (oi_limit_offset event) of Inl e \<Rightarrow> Some (Inl e) | Inr limit_off \<Rightarrow>
     (case required (oi_trailing_offset event) of Inl e \<Rightarrow> Some (Inl e) | Inr trailing_off \<Rightarrow>
     (case required (oi_trailing_offset_type event) of Inl e \<Rightarrow> Some (Inl e) | Inr trailing_ty \<Rightarrow>
     trailing_stop_limit_order_new_checked event px trigger_px trig limit_off trailing_off trailing_ty))))))"

definition trailing_stop_limit_order_update ::
    "order_updated \<Rightarrow> 'f trailing_stop_limit_order \<Rightarrow> 'f trailing_stop_limit_order option" where
  "trailing_stop_limit_order_update event ord =
     Some (ord\<lparr>tsl_price := (case ou_price event of Some x \<Rightarrow> x | None \<Rightarrow> tsl_price ord),
             tsl_trigger_price :=
               (case ou_trigger_price event of Some x \<Rightarrow> x | None \<Rightarrow> tsl_trigger_price ord),
             tsl_core := core_set_quantity (ou_quantity event) (tsl_core ord)\<rparr>)"

definition trailing_stop_limit_order_apply ::
    "'f f64_ops \<Rightarrow> order_event_any \<Rightarrow> 'f trailing_stop_limit_order \<Rightarrow>
     ('f trailing_stop_limit_order \<times> (order_error + unit)) option" where
  "trailing_stop_limit_order_apply ops event =
     apply_with tsl_core (\<lambda>c ord. ord\<lparr>tsl_core := c\<rparr>) ops event (\<lambda>ord0. do {
       ord1 \<leftarrow> (case event of EvUpdated u \<Rightarrow> trailing_stop_limit_order_update u ord0 | _ \<Rightarrow> Some ord0);
       let ord2 = (if is_trigger event
                   then ord1\<lparr>tsl_is_triggered := True, tsl_ts_triggered := Some (event_ts_event event)\<rparr>
                   else ord1);
       Some (if is_fill event
             then ord2\<lparr>tsl_core := set_slippage ops (tsl_price ord2) (tsl_core ord2)\<rparr>
             else ord2)})"

section \<open>Trailing-stop-market orders\<close>

record 'f trailing_stop_market_order =
  tsm_core :: "'f order_core"
  tsm_activation_price :: "price option"
  tsm_trigger_price :: price
  tsm_trigger_type :: trigger_type
  tsm_trailing_offset :: decimal
  tsm_trailing_offset_type :: trailing_offset_type
  tsm_expire_time :: "nat option"
  tsm_display_qty :: "quantity option"
  tsm_trigger_instrument_id :: "string option"
  tsm_is_activated :: bool
  tsm_is_triggered :: bool
  tsm_ts_triggered :: "nat option"

definition trailing_stop_market_order_init ::
    "order_initialized \<Rightarrow> price \<Rightarrow> trigger_type \<Rightarrow> decimal \<Rightarrow> trailing_offset_type \<Rightarrow> order_initialized" where
  "trailing_stop_market_order_init a trigger_px trig trailing_off trailing_ty =
     order_initialized_new
       (a\<lparr>oi_order_type := TrailingStopMarket, ev_reconciliation := False,
          ev_ts_init := ev_ts_event a, oi_price := None, oi_trigger_price := Some trigger_px,
          oi_trigger_type := Some trig, oi_limit_offset := None,
          oi_trailing_offset := Some trailing_off, oi_trailing_offset_type := Some trailing_ty,
          oi_post_only := False\<rparr>)"

definition trailing_stop_market_order_new_checked ::
    "order_initialized \<Rightarrow> price \<Rightarrow> trigger_type \<Rightarrow> decimal \<Rightarrow> trailing_offset_type \<Rightarrow>
     (order_error + 'f trailing_stop_market_order) option" where
  "trailing_stop_market_order_new_checked a trigger_px trig trailing_off trailing_ty =
     (case and_then (as_order_error (check_positive_quantity (oi_quantity a))) (\<lambda>_.
            and_then (check_display_qty (oi_display_qty a) (oi_quantity a)) (\<lambda>_.
            check_time_in_force (oi_time_in_force a) (oi_expire_time a))) of
        Inl e \<Rightarrow> Some (Inl e)
      | Inr _ \<Rightarrow> do {
          core \<leftarrow> order_core_new (trailing_stop_market_order_init a trigger_px trig trailing_off trailing_ty);
          Some (Inr \<lparr>tsm_core = core, tsm_activation_price = None,
             tsm_trigger_price = trigger_px, tsm_trigger_type = trig,
             tsm_trailing_offset = trailing_off, tsm_trailing_offset_type = trailing_ty,
             tsm_expire_time = oi_expire_time a, tsm_display_qty = oi_display_qty a,
             tsm_trigger_instrument_id = oi_trigger_instrument_id a, tsm_is_activated = False,
             tsm_is_triggered = False, tsm_ts_triggered = None\<rparr>)})"

definition trailing_stop_market_order_try_from ::
    "order_initialized \<Rightarrow> (order_error + 'f trailing_stop_market_order) option" where
  "trailing_stop_market_order_try_from event =
     (case required (oi_trigger_price event) of Inl e \<Rightarrow> Some (Inl e) | Inr trigger_px \<Rightarrow>
     (case required (oi_trigger_type event) of Inl e \<Rightarrow> Some (Inl e) | Inr trig \<Rightarrow>
     (case required (oi_trailing_offset event) of Inl e \<Rightarrow> Some (Inl e) | Inr trailing_off \<Rightarrow>
     (case required (oi_trailing_offset_type event) of Inl e \<Rightarrow> Some (Inl e) | Inr trailing_ty \<Rightarrow>
     trailing_stop_market_order_new_checked event trigger_px trig trailing_off trailing_ty))))"

definition trailing_stop_market_order_update ::
    "order_updated \<Rightarrow> 'f trailing_stop_market_order \<Rightarrow> 'f trailing_stop_market_order option" where
  "trailing_stop_market_order_update event ord =
     (if ou_price event \<noteq> None then None
      else Some (ord\<lparr>tsm_trigger_price :=
               (case ou_trigger_price event of Some x \<Rightarrow> x | None \<Rightarrow> tsm_trigger_price ord),
             tsm_core := core_set_quantity (ou_quantity event) (tsm_core ord)\<rparr>))"

definition trailing_stop_market_order_apply ::
    "'f f64_ops \<Rightarrow> order_event_any \<Rightarrow> 'f trailing_stop_market_order \<Rightarrow>
     ('f trailing_stop_market_order \<times> (order_error + unit)) option" where
  "trailing_stop_market_order_apply ops event =
     apply_with tsm_core (\<lambda>c ord. ord\<lparr>tsm_core := c\<rparr>) ops event (\<lambda>ord0. do {
       ord1 \<leftarrow> (case event of EvUpdated u \<Rightarrow> trailing_stop_market_order_update u ord0 | _ \<Rightarrow> Some ord0);
       let ord2 = (if is_trigger event
                   then ord1\<lparr>tsm_is_triggered := True, tsm_ts_triggered := Some (event_ts_event event)\<rparr>
                   else ord1);
       Some (if is_fill event
             then ord2\<lparr>tsm_core := set_slippage ops (tsm_trigger_price ord2) (tsm_core ord2)\<rparr>
             else ord2)})"

section \<open>OrderAny\<close>

datatype 'f order_any =
    OrdLimit "'f limit_order"
  | OrdLimitIfTouched "'f limit_if_touched_order"
  | OrdMarket "'f market_order"
  | OrdMarketIfTouched "'f market_if_touched_order"
  | OrdMarketToLimit "'f market_to_limit_order"
  | OrdStopLimit "'f stop_limit_order"
  | OrdStopMarket "'f stop_market_order"
  | OrdTrailingStopLimit "'f trailing_stop_limit_order"
  | OrdTrailingStopMarket "'f trailing_stop_market_order"

fun any_core :: "'f order_any \<Rightarrow> 'f order_core" where
  "any_core (OrdLimit ord) = lo_core ord"
| "any_core (OrdLimitIfTouched ord) = lit_core ord"
| "any_core (OrdMarket ord) = mo_core ord"
| "any_core (OrdMarketIfTouched ord) = mit_core ord"
| "any_core (OrdMarketToLimit ord) = mtl_core ord"
| "any_core (OrdStopLimit ord) = sl_core ord"
| "any_core (OrdStopMarket ord) = sm_core ord"
| "any_core (OrdTrailingStopLimit ord) = tsl_core ord"
| "any_core (OrdTrailingStopMarket ord) = tsm_core ord"

fun any_is_triggered :: "'f order_any \<Rightarrow> bool option" where
  "any_is_triggered (OrdLimit _) = None"
| "any_is_triggered (OrdLimitIfTouched ord) = Some (lit_is_triggered ord)"
| "any_is_triggered (OrdMarket _) = None"
| "any_is_triggered (OrdMarketIfTouched ord) = Some (mit_is_triggered ord)"
| "any_is_triggered (OrdMarketToLimit _) = None"
| "any_is_triggered (OrdStopLimit ord) = Some (sl_is_triggered ord)"
| "any_is_triggered (OrdStopMarket ord) = Some (sm_is_triggered ord)"
| "any_is_triggered (OrdTrailingStopLimit ord) = Some (tsl_is_triggered ord)"
| "any_is_triggered (OrdTrailingStopMarket ord) = Some (tsm_is_triggered ord)"

text \<open>Wrapping the result of a type's own operation.\<close>

definition map_ok :: "('a \<Rightarrow> 'b) \<Rightarrow> ('e + 'a) option \<Rightarrow> ('e + 'b) option" where
  "map_ok f r = map_option (map_sum id f) r"

definition map_order ::
    "('a \<Rightarrow> 'b) \<Rightarrow> ('a \<times> (order_error + unit)) option \<Rightarrow> ('b \<times> (order_error + unit)) option" where
  "map_order f r = map_option (apfst f) r"

definition any_try_from :: "order_initialized \<Rightarrow> (order_error + 'f order_any) option" where
  "any_try_from init =
     (case oi_order_type init of
        Limit \<Rightarrow> map_ok OrdLimit (limit_order_try_from init)
      | Market \<Rightarrow> map_ok OrdMarket (market_order_try_from init)
      | StopMarket \<Rightarrow> map_ok OrdStopMarket (stop_market_order_try_from init)
      | StopLimit \<Rightarrow> map_ok OrdStopLimit (stop_limit_order_try_from init)
      | LimitIfTouched \<Rightarrow> map_ok OrdLimitIfTouched (limit_if_touched_order_try_from init)
      | TrailingStopLimit \<Rightarrow> map_ok OrdTrailingStopLimit (trailing_stop_limit_order_try_from init)
      | TrailingStopMarket \<Rightarrow> map_ok OrdTrailingStopMarket (trailing_stop_market_order_try_from init)
      | MarketToLimit \<Rightarrow> map_ok OrdMarketToLimit (market_to_limit_order_try_from init)
      | MarketIfTouched \<Rightarrow> map_ok OrdMarketIfTouched (market_if_touched_order_try_from init))"

fun any_apply ::
    "'f f64_ops \<Rightarrow> order_event_any \<Rightarrow> 'f order_any \<Rightarrow> ('f order_any \<times> (order_error + unit)) option"
where
  "any_apply ops e (OrdLimit ord) = map_order OrdLimit (limit_order_apply ops e ord)"
| "any_apply ops e (OrdLimitIfTouched ord) = map_order OrdLimitIfTouched (limit_if_touched_order_apply ops e ord)"
| "any_apply ops e (OrdMarket ord) = map_order OrdMarket (market_order_apply ops e ord)"
| "any_apply ops e (OrdMarketIfTouched ord) = map_order OrdMarketIfTouched (market_if_touched_order_apply ops e ord)"
| "any_apply ops e (OrdMarketToLimit ord) = map_order OrdMarketToLimit (market_to_limit_order_apply ops e ord)"
| "any_apply ops e (OrdStopLimit ord) = map_order OrdStopLimit (stop_limit_order_apply ops e ord)"
| "any_apply ops e (OrdStopMarket ord) = map_order OrdStopMarket (stop_market_order_apply ops e ord)"
| "any_apply ops e (OrdTrailingStopLimit ord) = map_order OrdTrailingStopLimit (trailing_stop_limit_order_apply ops e ord)"
| "any_apply ops e (OrdTrailingStopMarket ord) = map_order OrdTrailingStopMarket (trailing_stop_market_order_apply ops e ord)"

datatype order_replay_error =
    EmptyInput
  | WrongFirstEvent
  | InvalidInitialization order_error
  | ApplyFailed order_error

fun replay ::
    "'f f64_ops \<Rightarrow> 'f order_any \<Rightarrow> order_event_any list \<Rightarrow>
     (order_replay_error + 'f order_any) option"
where
  "replay ops ord [] = Some (Inr ord)"
| "replay ops ord (e # es) =
     (case any_apply ops e ord of
        None \<Rightarrow> None
      | Some (_, Inl err) \<Rightarrow> Some (Inl (ApplyFailed err))
      | Some (ord', Inr _) \<Rightarrow> replay ops ord' es)"

definition from_events ::
    "'f f64_ops \<Rightarrow> order_event_any list \<Rightarrow> (order_replay_error + 'f order_any) option" where
  "from_events ops events =
     (case events of
        [] \<Rightarrow> Some (Inl EmptyInput)
      | EvInitialized init # rest \<Rightarrow>
          (case any_try_from init of
             None \<Rightarrow> None
           | Some (Inl err) \<Rightarrow> Some (Inl (InvalidInitialization err))
           | Some (Inr ord) \<Rightarrow> replay ops ord rest)
      | _ # _ \<Rightarrow> Some (Inl WrongFirstEvent))"

definition any_init_event :: "'f order_any \<Rightarrow> order_initialized option" where
  "any_init_event ord =
     (case oc_events (any_core ord) of EvInitialized init # _ \<Rightarrow> Some init | _ \<Rightarrow> None)"

section \<open>Passive, limit and stop views\<close>

datatype 'f limit_order_any =
    LimLimit "'f limit_order"
  | LimMarketToLimit "'f market_to_limit_order"
  | LimStopLimit "'f stop_limit_order"
  | LimTrailingStopLimit "'f trailing_stop_limit_order"
  | LimMarketOrderWithProtection "'f market_order"

datatype 'f stop_order_any =
    StLimitIfTouched "'f limit_if_touched_order"
  | StMarketIfTouched "'f market_if_touched_order"
  | StStopLimit "'f stop_limit_order"
  | StStopMarket "'f stop_market_order"
  | StTrailingStopLimit "'f trailing_stop_limit_order"
  | StTrailingStopMarket "'f trailing_stop_market_order"

datatype 'f passive_order_any =
    PassLimit "'f limit_order_any"
  | PassStop "'f stop_order_any"

text \<open>The error of a conversion is a message, which is not modelled.\<close>

definition limit_order_any_try_from :: "'f order_any \<Rightarrow> unit + 'f limit_order_any" where
  "limit_order_any_try_from ord =
     (case ord of
        OrdLimit x \<Rightarrow> Inr (LimLimit x)
      | OrdMarketToLimit x \<Rightarrow> Inr (LimMarketToLimit x)
      | OrdStopLimit x \<Rightarrow> Inr (LimStopLimit x)
      | OrdTrailingStopLimit x \<Rightarrow> Inr (LimTrailingStopLimit x)
      | OrdMarket x \<Rightarrow> Inr (LimMarketOrderWithProtection x)
      | _ \<Rightarrow> Inl ())"

fun any_from_limit :: "'f limit_order_any \<Rightarrow> 'f order_any" where
  "any_from_limit (LimLimit x) = OrdLimit x"
| "any_from_limit (LimMarketToLimit x) = OrdMarketToLimit x"
| "any_from_limit (LimStopLimit x) = OrdStopLimit x"
| "any_from_limit (LimTrailingStopLimit x) = OrdTrailingStopLimit x"
| "any_from_limit (LimMarketOrderWithProtection x) = OrdMarket x"

definition stop_order_any_try_from :: "'f order_any \<Rightarrow> unit + 'f stop_order_any" where
  "stop_order_any_try_from ord =
     (case ord of
        OrdLimitIfTouched x \<Rightarrow> Inr (StLimitIfTouched x)
      | OrdMarketIfTouched x \<Rightarrow> Inr (StMarketIfTouched x)
      | OrdStopLimit x \<Rightarrow> Inr (StStopLimit x)
      | OrdStopMarket x \<Rightarrow> Inr (StStopMarket x)
      | OrdTrailingStopLimit x \<Rightarrow> Inr (StTrailingStopLimit x)
      | OrdTrailingStopMarket x \<Rightarrow> Inr (StTrailingStopMarket x)
      | _ \<Rightarrow> Inl ())"

fun any_from_stop :: "'f stop_order_any \<Rightarrow> 'f order_any" where
  "any_from_stop (StLimitIfTouched x) = OrdLimitIfTouched x"
| "any_from_stop (StMarketIfTouched x) = OrdMarketIfTouched x"
| "any_from_stop (StStopLimit x) = OrdStopLimit x"
| "any_from_stop (StStopMarket x) = OrdStopMarket x"
| "any_from_stop (StTrailingStopLimit x) = OrdTrailingStopLimit x"
| "any_from_stop (StTrailingStopMarket x) = OrdTrailingStopMarket x"

definition passive_order_any_try_from :: "'f order_any \<Rightarrow> unit + 'f passive_order_any" where
  "passive_order_any_try_from ord =
     (case ord of
        OrdLimit _ \<Rightarrow> map_sum id PassLimit (limit_order_any_try_from ord)
      | OrdMarketToLimit _ \<Rightarrow> map_sum id PassLimit (limit_order_any_try_from ord)
      | OrdMarket _ \<Rightarrow> map_sum id PassLimit (limit_order_any_try_from ord)
      | _ \<Rightarrow> map_sum id PassStop (stop_order_any_try_from ord))"

fun any_from_passive :: "'f passive_order_any \<Rightarrow> 'f order_any" where
  "any_from_passive (PassLimit x) = any_from_limit x"
| "any_from_passive (PassStop x) = any_from_stop x"

fun limit_px :: "'f limit_order_any \<Rightarrow> price option" where
  "limit_px (LimLimit x) = Some (lo_price x)"
| "limit_px (LimMarketToLimit x) = mtl_price x"
| "limit_px (LimStopLimit x) = Some (sl_price x)"
| "limit_px (LimTrailingStopLimit x) = Some (tsl_price x)"
| "limit_px (LimMarketOrderWithProtection x) = mo_protection_price x"

fun stop_px :: "'f stop_order_any \<Rightarrow> price" where
  "stop_px (StLimitIfTouched x) = lit_trigger_price x"
| "stop_px (StMarketIfTouched x) = mit_trigger_price x"
| "stop_px (StStopLimit x) = sl_trigger_price x"
| "stop_px (StStopMarket x) = sm_trigger_price x"
| "stop_px (StTrailingStopLimit x) =
     (case tsl_activation_price x of Some p \<Rightarrow> p | None \<Rightarrow> tsl_trigger_price x)"
| "stop_px (StTrailingStopMarket x) =
     (case tsm_activation_price x of Some p \<Rightarrow> p | None \<Rightarrow> tsm_trigger_price x)"

end
