(* ===== verification/Order_Machine.thy ===== *)
theory Order_Machine
  imports Order_Invariants Order_Types
begin

text \<open>
  Orders of every type as a machine driven by events. An order keeps the state an event leaves it
  in whether or not the event is accepted, as the execution engine does. The theory lifts the
  invariant of the core to the nine order types and states the properties of orders: pending
  requests can always be rolled back, fills are accounted for exactly once, final statuses are
  final, an order's event log replays to the order, and fills within range do not panic.
\<close>

section \<open>Lifting the invariant\<close>

lemma set_slippage_frame [simp]:
  "core_inv (set_slippage ops p c) = core_inv c"
  "oc_status (set_slippage ops p c) = oc_status c"
  "oc_events (set_slippage ops p c) = oc_events c"
  "oc_order_type (set_slippage ops p c) = oc_order_type c"
  "oc_previous_status (set_slippage ops p c) = oc_previous_status c"
  by (simp_all add: set_slippage_def core_inv_def prev_inv_def log_inv_def qty_inv_def closed_inv_def
      is_closed_def)

definition slipped :: "'f order_core \<Rightarrow> 'f order_core \<Rightarrow> bool" where
  "slipped c c' \<longleftrightarrow> (\<exists>x. c' = c\<lparr>oc_slippage := x\<rparr>)"

lemma slipped_set [simp]: "slipped c (set_slippage ops p c)"
  unfolding slipped_def set_slippage_def by (rule exI) (rule refl)

lemma slipped_same [simp]: "slipped c c"
  unfolding slipped_def by (rule exI [of _ "oc_slippage c"]) simp

lemma core_set_quantity_frame [simp]:
  "oc_status (core_set_quantity q c) = oc_status c"
  "oc_events (core_set_quantity q c) = oc_events c"
  "oc_order_type (core_set_quantity q c) = oc_order_type c"
  "oc_previous_status (core_set_quantity q c) = oc_previous_status c"
  by (simp_all add: core_set_quantity_def)

lemma core_inv_set_quantity:
  assumes "core_inv c" and "oc_status c \<noteq> Filled"
  shows "core_inv (core_set_quantity q c)"
proof -
  have "prev_inv (core_set_quantity q c) = prev_inv c" "log_inv (core_set_quantity q c) = log_inv c"
    "closed_inv (core_set_quantity q c) = closed_inv c"
    by (simp_all add: prev_inv_def log_inv_def closed_inv_def is_closed_def core_set_quantity_def)
  moreover have "qty_inv c \<Longrightarrow> qty_inv (core_set_quantity q c)"
    using assms(2) by (simp add: qty_inv_def core_set_quantity_def quantity_saturating_sub_def
        saturating_sub_u_def)
  ultimately show ?thesis using assms(1) by (simp add: core_inv_def)
qed

lemma core_apply_updated_not_closed:
  assumes "core_inv c" and "core_apply ops (EvUpdated u) c = Some (c', Inr ())"
  shows "oc_status c' \<noteq> Filled"
  using assms(2)
proof (cases rule: core_apply_cases)
  case (applied st c2)
  then show ?thesis
    using handler_status_not_closed [OF _ applied(4)] assms(1) dispatch_status [OF applied(5)]
    by (simp add: core_inv_def)
qed simp_all

lemmas order_apply_defs = limit_order_apply_def limit_if_touched_order_apply_def
  market_order_apply_def market_if_touched_order_apply_def market_to_limit_order_apply_def
  stop_limit_order_apply_def stop_market_order_apply_def trailing_stop_limit_order_apply_def
  trailing_stop_market_order_apply_def

lemmas order_update_defs = limit_order_update_def limit_if_touched_order_update_def
  market_order_update_def market_if_touched_order_update_def market_to_limit_order_update_def
  stop_limit_order_update_def stop_market_order_update_def trailing_stop_limit_order_update_def
  trailing_stop_market_order_update_def

lemmas order_new_defs = limit_order_new_checked_def limit_if_touched_order_new_checked_def
  market_order_new_checked_def market_if_touched_order_new_checked_def
  market_to_limit_order_new_checked_def stop_limit_order_new_checked_def
  stop_market_order_new_checked_def trailing_stop_limit_order_new_checked_def
  trailing_stop_market_order_new_checked_def

lemmas order_try_from_defs = limit_order_try_from_def limit_if_touched_order_try_from_def
  market_order_try_from_def market_if_touched_order_try_from_def market_to_limit_order_try_from_def
  stop_limit_order_try_from_def stop_market_order_try_from_def trailing_stop_limit_order_try_from_def
  trailing_stop_market_order_try_from_def

text \<open>
  Every type's application is the shared one with some work after success, which leaves a core
  that is the given one up to its quantity, remaining quantity and slippage.
\<close>

definition core_touched :: "order_event_any \<Rightarrow> 'f order_core \<Rightarrow> 'f order_core \<Rightarrow> bool" where
  "core_touched e c c' \<longleftrightarrow>
     (case e of
        EvUpdated u \<Rightarrow> c' = core_set_quantity (ou_quantity u) c
      | EvFilled _ \<Rightarrow> slipped c c'
      | _ \<Rightarrow> c' = c)"

definition shaped ::
    "'f f64_ops \<Rightarrow> order_event_any \<Rightarrow> 'f order_core \<Rightarrow> 'f order_core \<Rightarrow> order_error + unit \<Rightarrow> bool"
where
  "shaped ops e c0 c' r \<longleftrightarrow>
     (\<exists>c. core_apply ops e c0 = Some (c, r) \<and>
          (case r of Inl _ \<Rightarrow> c' = c | Inr _ \<Rightarrow> core_touched e c c'))"

lemma apply_with_shape:
  assumes "apply_with get put ops e after_ok ord = Some (ord', r)"
    and put: "\<And>c x. get (put c x) = c"
    and after: "\<And>x y. after_ok x = Some y \<Longrightarrow> core_touched e (get x) (get y)"
  shows "shaped ops e (get ord) (get ord') r"
proof -
  obtain c r1 where c: "core_apply ops e (get ord) = Some (c, r1)"
    using assms(1) by (auto simp: apply_with_def split: bind_splits)
  then show ?thesis
    using assms(1) put after [of "put c ord"]
    by (cases r1) (auto simp: apply_with_def shaped_def split: bind_splits)
qed

lemma limit_order_shape:
  "limit_order_apply ops e ord = Some (ord', r) \<Longrightarrow> shaped ops e (lo_core ord) (lo_core ord') r"
  unfolding limit_order_apply_def
  by (erule apply_with_shape)
    (auto simp: core_touched_def is_fill_def is_trigger_def limit_order_update_def Let_def
      split: order_event_any.splits if_splits option.splits bind_splits)

lemma limit_if_touched_order_shape:
  "limit_if_touched_order_apply ops e ord = Some (ord', r) \<Longrightarrow> shaped ops e (lit_core ord) (lit_core ord') r"
  unfolding limit_if_touched_order_apply_def
  by (erule apply_with_shape)
    (auto simp: core_touched_def is_fill_def is_trigger_def limit_if_touched_order_update_def Let_def
      split: order_event_any.splits if_splits option.splits bind_splits)

lemma market_order_shape:
  "market_order_apply ops e ord = Some (ord', r) \<Longrightarrow> shaped ops e (mo_core ord) (mo_core ord') r"
  unfolding market_order_apply_def
  by (erule apply_with_shape)
    (auto simp: core_touched_def is_fill_def is_trigger_def market_order_update_def Let_def
      split: order_event_any.splits if_splits option.splits bind_splits)

lemma market_if_touched_order_shape:
  "market_if_touched_order_apply ops e ord = Some (ord', r) \<Longrightarrow> shaped ops e (mit_core ord) (mit_core ord') r"
  unfolding market_if_touched_order_apply_def
  by (erule apply_with_shape)
    (auto simp: core_touched_def is_fill_def is_trigger_def market_if_touched_order_update_def Let_def
      split: order_event_any.splits if_splits option.splits bind_splits)

lemma market_to_limit_order_shape:
  "market_to_limit_order_apply ops e ord = Some (ord', r) \<Longrightarrow> shaped ops e (mtl_core ord) (mtl_core ord') r"
  unfolding market_to_limit_order_apply_def
  by (erule apply_with_shape)
    (auto simp: core_touched_def is_fill_def is_trigger_def market_to_limit_order_update_def Let_def
      split: order_event_any.splits if_splits option.splits bind_splits)

lemma stop_limit_order_shape:
  "stop_limit_order_apply ops e ord = Some (ord', r) \<Longrightarrow> shaped ops e (sl_core ord) (sl_core ord') r"
  unfolding stop_limit_order_apply_def
  by (erule apply_with_shape)
    (auto simp: core_touched_def is_fill_def is_trigger_def stop_limit_order_update_def Let_def
      split: order_event_any.splits if_splits option.splits bind_splits)

lemma stop_market_order_shape:
  "stop_market_order_apply ops e ord = Some (ord', r) \<Longrightarrow> shaped ops e (sm_core ord) (sm_core ord') r"
  unfolding stop_market_order_apply_def
  by (erule apply_with_shape)
    (auto simp: core_touched_def is_fill_def is_trigger_def stop_market_order_update_def Let_def
      split: order_event_any.splits if_splits option.splits bind_splits)

lemma trailing_stop_limit_order_shape:
  "trailing_stop_limit_order_apply ops e ord = Some (ord', r) \<Longrightarrow> shaped ops e (tsl_core ord) (tsl_core ord') r"
  unfolding trailing_stop_limit_order_apply_def
  by (erule apply_with_shape)
    (auto simp: core_touched_def is_fill_def is_trigger_def trailing_stop_limit_order_update_def Let_def
      split: order_event_any.splits if_splits option.splits bind_splits)

lemma trailing_stop_market_order_shape:
  "trailing_stop_market_order_apply ops e ord = Some (ord', r) \<Longrightarrow> shaped ops e (tsm_core ord) (tsm_core ord') r"
  unfolding trailing_stop_market_order_apply_def
  by (erule apply_with_shape)
    (auto simp: core_touched_def is_fill_def is_trigger_def trailing_stop_market_order_update_def Let_def
      split: order_event_any.splits if_splits option.splits bind_splits)

lemmas order_shapes = limit_order_shape limit_if_touched_order_shape market_order_shape market_if_touched_order_shape market_to_limit_order_shape stop_limit_order_shape stop_market_order_shape trailing_stop_limit_order_shape trailing_stop_market_order_shape

lemma any_apply_shape:
  "any_apply ops e ord = Some (ord', r) \<Longrightarrow> shaped ops e (any_core ord) (any_core ord') r"
  by (cases ord) (auto simp: map_order_def dest!: order_shapes)

lemma core_inv_slippage [simp]: "core_inv (c\<lparr>oc_slippage := x\<rparr>) = core_inv c"
  by (simp add: core_inv_def prev_inv_def log_inv_def qty_inv_def closed_inv_def is_closed_def)

lemma core_touched_cases:
  assumes "core_touched e c c'"
  obtains (same) "c' = c" | (fill) f x where "e = EvFilled f" "c' = c\<lparr>oc_slippage := x\<rparr>"
  | (update) u where "e = EvUpdated u" "c' = core_set_quantity (ou_quantity u) c"
proof -
  consider (f) f where "e = EvFilled f" | (u) u where "e = EvUpdated u"
    | (other) "\<forall>f. e \<noteq> EvFilled f" "\<forall>u. e \<noteq> EvUpdated u" by blast
  then show thesis
  proof cases
    case f
    with assms obtain x where "c' = c\<lparr>oc_slippage := x\<rparr>"
      by (simp only: core_touched_def order_event_any.case slipped_def) (elim exE)
    with f show thesis by (rule fill)
  next
    case u
    with assms show thesis
      by (intro update) (simp_all only: core_touched_def order_event_any.case)
  next
    case other
    have "c' = c" using assms other by (cases e) (simp_all add: core_touched_def)
    then show thesis by (rule same)
  qed
qed

lemma core_touched_frame:
  assumes "core_touched e c c'"
  shows "oc_status c' = oc_status c" "oc_events c' = oc_events c"
    and "oc_order_type c' = oc_order_type c" "oc_previous_status c' = oc_previous_status c"
    and "oc_filled_qty c' = oc_filled_qty c" "oc_trade_ids c' = oc_trade_ids c"
    and "oc_ts_closed c' = oc_ts_closed c" "oc_overfill_qty c' = oc_overfill_qty c"
  using assms by (cases rule: core_touched_cases; simp add: core_set_quantity_def)+

lemma core_inv_shaped:
  assumes inv: "core_inv c0" and "shaped ops e c0 c' r"
  shows "core_inv c'"
proof -
  obtain c where c: "core_apply ops e c0 = Some (c, r)"
    and d: "case r of Inl _ \<Rightarrow> c' = c | Inr _ \<Rightarrow> core_touched e c c'"
    using assms(2) by (auto simp: shaped_def)
  note i = core_inv_apply [OF inv c]
  show ?thesis
  proof (cases r)
    case (Inl err)
    then show ?thesis using d i by simp
  next
    case (Inr x)
    then have "core_touched e c c'" using d by simp
    then show ?thesis
    proof (cases rule: core_touched_cases)
      case (update u)
      then show ?thesis
        using core_apply_updated_not_closed [OF inv, of ops u c] c Inr i
        by (auto intro: core_inv_set_quantity)
    qed (use i in simp_all)
  qed
qed

lemma any_inv_apply:
  "core_inv (any_core ord) \<Longrightarrow> any_apply ops e ord = Some (ord', r) \<Longrightarrow> core_inv (any_core ord')"
  using core_inv_shaped any_apply_shape by blast

section \<open>Construction\<close>

text \<open>
  The constructors are idempotent: the initialization event an order logs builds the same order.
\<close>

lemma limit_order_init_simps [simp]:
  "limit_order_init (limit_order_init a px) px = limit_order_init a px"
  "oi_quantity (limit_order_init a px) = oi_quantity a"
  "oi_time_in_force (limit_order_init a px) = oi_time_in_force a"
  "oi_order_side (limit_order_init a px) = oi_order_side a"
  "oi_expire_time (limit_order_init a px) = oi_expire_time a"
  "oi_display_qty (limit_order_init a px) = oi_display_qty a"
  "oi_post_only (limit_order_init a px) = oi_post_only a"
  "oi_trigger_instrument_id (limit_order_init a px) = oi_trigger_instrument_id a"
  "oi_price (limit_order_init a px) = Some px"
  "oi_order_type (limit_order_init a px) = Limit"
  by (simp_all add: limit_order_init_def order_initialized_new_def)

lemma limit_if_touched_order_init_simps [simp]:
  "limit_if_touched_order_init (limit_if_touched_order_init a px trigger_px trig) px trigger_px trig = limit_if_touched_order_init a px trigger_px trig"
  "oi_quantity (limit_if_touched_order_init a px trigger_px trig) = oi_quantity a"
  "oi_time_in_force (limit_if_touched_order_init a px trigger_px trig) = oi_time_in_force a"
  "oi_order_side (limit_if_touched_order_init a px trigger_px trig) = oi_order_side a"
  "oi_expire_time (limit_if_touched_order_init a px trigger_px trig) = oi_expire_time a"
  "oi_display_qty (limit_if_touched_order_init a px trigger_px trig) = oi_display_qty a"
  "oi_post_only (limit_if_touched_order_init a px trigger_px trig) = oi_post_only a"
  "oi_trigger_instrument_id (limit_if_touched_order_init a px trigger_px trig) = oi_trigger_instrument_id a"
  "oi_price (limit_if_touched_order_init a px trigger_px trig) = Some px"
  "oi_trigger_price (limit_if_touched_order_init a px trigger_px trig) = Some trigger_px"
  "oi_trigger_type (limit_if_touched_order_init a px trigger_px trig) = Some trig"
  "oi_order_type (limit_if_touched_order_init a px trigger_px trig) = LimitIfTouched"
  by (simp_all add: limit_if_touched_order_init_def order_initialized_new_def)

lemma market_order_init_simps [simp]:
  "market_order_init (market_order_init a) = market_order_init a"
  "oi_quantity (market_order_init a) = oi_quantity a"
  "oi_time_in_force (market_order_init a) = oi_time_in_force a"
  "oi_order_side (market_order_init a) = oi_order_side a"
  "oi_order_type (market_order_init a) = Market"
  by (simp_all add: market_order_init_def order_initialized_new_def)

lemma market_if_touched_order_init_simps [simp]:
  "market_if_touched_order_init (market_if_touched_order_init a trigger_px trig) trigger_px trig = market_if_touched_order_init a trigger_px trig"
  "oi_quantity (market_if_touched_order_init a trigger_px trig) = oi_quantity a"
  "oi_time_in_force (market_if_touched_order_init a trigger_px trig) = oi_time_in_force a"
  "oi_order_side (market_if_touched_order_init a trigger_px trig) = oi_order_side a"
  "oi_expire_time (market_if_touched_order_init a trigger_px trig) = oi_expire_time a"
  "oi_trigger_instrument_id (market_if_touched_order_init a trigger_px trig) = oi_trigger_instrument_id a"
  "oi_trigger_price (market_if_touched_order_init a trigger_px trig) = Some trigger_px"
  "oi_trigger_type (market_if_touched_order_init a trigger_px trig) = Some trig"
  "oi_order_type (market_if_touched_order_init a trigger_px trig) = MarketIfTouched"
  by (simp_all add: market_if_touched_order_init_def order_initialized_new_def)

lemma market_to_limit_order_init_simps [simp]:
  "market_to_limit_order_init (market_to_limit_order_init a) = market_to_limit_order_init a"
  "oi_quantity (market_to_limit_order_init a) = oi_quantity a"
  "oi_time_in_force (market_to_limit_order_init a) = oi_time_in_force a"
  "oi_order_side (market_to_limit_order_init a) = oi_order_side a"
  "oi_expire_time (market_to_limit_order_init a) = oi_expire_time a"
  "oi_display_qty (market_to_limit_order_init a) = oi_display_qty a"
  "oi_post_only (market_to_limit_order_init a) = oi_post_only a"
  "oi_order_type (market_to_limit_order_init a) = MarketToLimit"
  by (simp_all add: market_to_limit_order_init_def order_initialized_new_def)

lemma stop_limit_order_init_simps [simp]:
  "stop_limit_order_init (stop_limit_order_init a px trigger_px trig) px trigger_px trig = stop_limit_order_init a px trigger_px trig"
  "oi_quantity (stop_limit_order_init a px trigger_px trig) = oi_quantity a"
  "oi_time_in_force (stop_limit_order_init a px trigger_px trig) = oi_time_in_force a"
  "oi_order_side (stop_limit_order_init a px trigger_px trig) = oi_order_side a"
  "oi_expire_time (stop_limit_order_init a px trigger_px trig) = oi_expire_time a"
  "oi_display_qty (stop_limit_order_init a px trigger_px trig) = oi_display_qty a"
  "oi_post_only (stop_limit_order_init a px trigger_px trig) = oi_post_only a"
  "oi_trigger_instrument_id (stop_limit_order_init a px trigger_px trig) = oi_trigger_instrument_id a"
  "oi_price (stop_limit_order_init a px trigger_px trig) = Some px"
  "oi_trigger_price (stop_limit_order_init a px trigger_px trig) = Some trigger_px"
  "oi_trigger_type (stop_limit_order_init a px trigger_px trig) = Some trig"
  "oi_order_type (stop_limit_order_init a px trigger_px trig) = StopLimit"
  by (simp_all add: stop_limit_order_init_def order_initialized_new_def)

lemma stop_market_order_init_simps [simp]:
  "stop_market_order_init (stop_market_order_init a trigger_px trig) trigger_px trig = stop_market_order_init a trigger_px trig"
  "oi_quantity (stop_market_order_init a trigger_px trig) = oi_quantity a"
  "oi_time_in_force (stop_market_order_init a trigger_px trig) = oi_time_in_force a"
  "oi_order_side (stop_market_order_init a trigger_px trig) = oi_order_side a"
  "oi_expire_time (stop_market_order_init a trigger_px trig) = oi_expire_time a"
  "oi_display_qty (stop_market_order_init a trigger_px trig) = oi_display_qty a"
  "oi_trigger_instrument_id (stop_market_order_init a trigger_px trig) = oi_trigger_instrument_id a"
  "oi_trigger_price (stop_market_order_init a trigger_px trig) = Some trigger_px"
  "oi_trigger_type (stop_market_order_init a trigger_px trig) = Some trig"
  "oi_order_type (stop_market_order_init a trigger_px trig) = StopMarket"
  by (simp_all add: stop_market_order_init_def order_initialized_new_def)

lemma trailing_stop_limit_order_init_simps [simp]:
  "trailing_stop_limit_order_init (trailing_stop_limit_order_init a px trigger_px trig limit_off trailing_off trailing_ty) px trigger_px trig limit_off trailing_off trailing_ty = trailing_stop_limit_order_init a px trigger_px trig limit_off trailing_off trailing_ty"
  "oi_quantity (trailing_stop_limit_order_init a px trigger_px trig limit_off trailing_off trailing_ty) = oi_quantity a"
  "oi_time_in_force (trailing_stop_limit_order_init a px trigger_px trig limit_off trailing_off trailing_ty) = oi_time_in_force a"
  "oi_order_side (trailing_stop_limit_order_init a px trigger_px trig limit_off trailing_off trailing_ty) = oi_order_side a"
  "oi_expire_time (trailing_stop_limit_order_init a px trigger_px trig limit_off trailing_off trailing_ty) = oi_expire_time a"
  "oi_display_qty (trailing_stop_limit_order_init a px trigger_px trig limit_off trailing_off trailing_ty) = oi_display_qty a"
  "oi_post_only (trailing_stop_limit_order_init a px trigger_px trig limit_off trailing_off trailing_ty) = oi_post_only a"
  "oi_trigger_instrument_id (trailing_stop_limit_order_init a px trigger_px trig limit_off trailing_off trailing_ty) = oi_trigger_instrument_id a"
  "oi_price (trailing_stop_limit_order_init a px trigger_px trig limit_off trailing_off trailing_ty) = Some px"
  "oi_trigger_price (trailing_stop_limit_order_init a px trigger_px trig limit_off trailing_off trailing_ty) = Some trigger_px"
  "oi_trigger_type (trailing_stop_limit_order_init a px trigger_px trig limit_off trailing_off trailing_ty) = Some trig"
  "oi_limit_offset (trailing_stop_limit_order_init a px trigger_px trig limit_off trailing_off trailing_ty) = Some limit_off"
  "oi_trailing_offset (trailing_stop_limit_order_init a px trigger_px trig limit_off trailing_off trailing_ty) = Some trailing_off"
  "oi_trailing_offset_type (trailing_stop_limit_order_init a px trigger_px trig limit_off trailing_off trailing_ty) = Some trailing_ty"
  "oi_order_type (trailing_stop_limit_order_init a px trigger_px trig limit_off trailing_off trailing_ty) = TrailingStopLimit"
  by (simp_all add: trailing_stop_limit_order_init_def order_initialized_new_def)

lemma trailing_stop_market_order_init_simps [simp]:
  "trailing_stop_market_order_init (trailing_stop_market_order_init a trigger_px trig trailing_off trailing_ty) trigger_px trig trailing_off trailing_ty = trailing_stop_market_order_init a trigger_px trig trailing_off trailing_ty"
  "oi_quantity (trailing_stop_market_order_init a trigger_px trig trailing_off trailing_ty) = oi_quantity a"
  "oi_time_in_force (trailing_stop_market_order_init a trigger_px trig trailing_off trailing_ty) = oi_time_in_force a"
  "oi_order_side (trailing_stop_market_order_init a trigger_px trig trailing_off trailing_ty) = oi_order_side a"
  "oi_expire_time (trailing_stop_market_order_init a trigger_px trig trailing_off trailing_ty) = oi_expire_time a"
  "oi_display_qty (trailing_stop_market_order_init a trigger_px trig trailing_off trailing_ty) = oi_display_qty a"
  "oi_trigger_instrument_id (trailing_stop_market_order_init a trigger_px trig trailing_off trailing_ty) = oi_trigger_instrument_id a"
  "oi_trigger_price (trailing_stop_market_order_init a trigger_px trig trailing_off trailing_ty) = Some trigger_px"
  "oi_trigger_type (trailing_stop_market_order_init a trigger_px trig trailing_off trailing_ty) = Some trig"
  "oi_trailing_offset (trailing_stop_market_order_init a trigger_px trig trailing_off trailing_ty) = Some trailing_off"
  "oi_trailing_offset_type (trailing_stop_market_order_init a trigger_px trig trailing_off trailing_ty) = Some trailing_ty"
  "oi_order_type (trailing_stop_market_order_init a trigger_px trig trailing_off trailing_ty) = TrailingStopMarket"
  by (simp_all add: trailing_stop_market_order_init_def order_initialized_new_def)

lemma limit_order_normal:
  "limit_order_new_checked a px = Some (Inr ord) \<Longrightarrow>
     order_core_new (limit_order_init a px) = Some (lo_core ord) \<and>
     limit_order_try_from (limit_order_init a px) = Some (Inr ord)"
  by (auto simp: limit_order_try_from_def limit_order_new_checked_def required_def
      split: sum.splits bind_splits)

lemma limit_if_touched_order_normal:
  "limit_if_touched_order_new_checked a px trigger_px trig = Some (Inr ord) \<Longrightarrow>
     order_core_new (limit_if_touched_order_init a px trigger_px trig) = Some (lit_core ord) \<and>
     limit_if_touched_order_try_from (limit_if_touched_order_init a px trigger_px trig) = Some (Inr ord)"
  by (auto simp: limit_if_touched_order_try_from_def limit_if_touched_order_new_checked_def required_def
      split: sum.splits bind_splits)

lemma market_order_normal:
  "market_order_new_checked a = Some (Inr ord) \<Longrightarrow>
     order_core_new (market_order_init a) = Some (mo_core ord) \<and>
     market_order_try_from (market_order_init a) = Some (Inr ord)"
  by (auto simp: market_order_try_from_def market_order_new_checked_def required_def
      split: sum.splits bind_splits)

lemma market_if_touched_order_normal:
  "market_if_touched_order_new_checked a trigger_px trig = Some (Inr ord) \<Longrightarrow>
     order_core_new (market_if_touched_order_init a trigger_px trig) = Some (mit_core ord) \<and>
     market_if_touched_order_try_from (market_if_touched_order_init a trigger_px trig) = Some (Inr ord)"
  by (auto simp: market_if_touched_order_try_from_def market_if_touched_order_new_checked_def required_def
      split: sum.splits bind_splits)

lemma market_to_limit_order_normal:
  "market_to_limit_order_new_checked a = Some (Inr ord) \<Longrightarrow>
     order_core_new (market_to_limit_order_init a) = Some (mtl_core ord) \<and>
     market_to_limit_order_try_from (market_to_limit_order_init a) = Some (Inr ord)"
  by (auto simp: market_to_limit_order_try_from_def market_to_limit_order_new_checked_def required_def
      split: sum.splits bind_splits)

lemma stop_limit_order_normal:
  "stop_limit_order_new_checked a px trigger_px trig = Some (Inr ord) \<Longrightarrow>
     order_core_new (stop_limit_order_init a px trigger_px trig) = Some (sl_core ord) \<and>
     stop_limit_order_try_from (stop_limit_order_init a px trigger_px trig) = Some (Inr ord)"
  by (auto simp: stop_limit_order_try_from_def stop_limit_order_new_checked_def required_def
      split: sum.splits bind_splits)

lemma stop_market_order_normal:
  "stop_market_order_new_checked a trigger_px trig = Some (Inr ord) \<Longrightarrow>
     order_core_new (stop_market_order_init a trigger_px trig) = Some (sm_core ord) \<and>
     stop_market_order_try_from (stop_market_order_init a trigger_px trig) = Some (Inr ord)"
  by (auto simp: stop_market_order_try_from_def stop_market_order_new_checked_def required_def
      split: sum.splits bind_splits)

lemma trailing_stop_limit_order_normal:
  "trailing_stop_limit_order_new_checked a px trigger_px trig limit_off trailing_off trailing_ty = Some (Inr ord) \<Longrightarrow>
     order_core_new (trailing_stop_limit_order_init a px trigger_px trig limit_off trailing_off trailing_ty) = Some (tsl_core ord) \<and>
     trailing_stop_limit_order_try_from (trailing_stop_limit_order_init a px trigger_px trig limit_off trailing_off trailing_ty) = Some (Inr ord)"
  by (auto simp: trailing_stop_limit_order_try_from_def trailing_stop_limit_order_new_checked_def required_def
      split: sum.splits bind_splits)

lemma trailing_stop_market_order_normal:
  "trailing_stop_market_order_new_checked a trigger_px trig trailing_off trailing_ty = Some (Inr ord) \<Longrightarrow>
     order_core_new (trailing_stop_market_order_init a trigger_px trig trailing_off trailing_ty) = Some (tsm_core ord) \<and>
     trailing_stop_market_order_try_from (trailing_stop_market_order_init a trigger_px trig trailing_off trailing_ty) = Some (Inr ord)"
  by (auto simp: trailing_stop_market_order_try_from_def trailing_stop_market_order_new_checked_def required_def
      split: sum.splits bind_splits)

lemmas order_normal = limit_order_normal limit_if_touched_order_normal market_order_normal market_if_touched_order_normal market_to_limit_order_normal stop_limit_order_normal stop_market_order_normal trailing_stop_limit_order_normal trailing_stop_market_order_normal

lemma map_ok_Inr: "map_ok f r = Some (Inr y) \<longleftrightarrow> (\<exists>x. r = Some (Inr x) \<and> y = f x)"
proof (cases r)
  case (Some z)
  then show ?thesis by (cases z) (auto simp: map_ok_def)
qed (simp add: map_ok_def)

lemma limit_order_any_normal:
  assumes "limit_order_try_from init = Some (Inr x)"
  shows "\<exists>i. order_core_new i = Some (any_core (OrdLimit x)) \<and> any_try_from i = Some (Inr (OrdLimit x))"
proof -
  from assms obtain px where new: "limit_order_new_checked init px = Some (Inr x)"
    by (auto simp: limit_order_try_from_def required_def split: sum.splits option.splits)
  from limit_order_normal [OF new] show ?thesis
    by (intro exI [of _ "limit_order_init init px"])
      (simp add: any_try_from_def map_ok_Inr)
qed

lemma limit_if_touched_order_any_normal:
  assumes "limit_if_touched_order_try_from init = Some (Inr x)"
  shows "\<exists>i. order_core_new i = Some (any_core (OrdLimitIfTouched x)) \<and> any_try_from i = Some (Inr (OrdLimitIfTouched x))"
proof -
  from assms obtain px trigger_px trig where new:
      "limit_if_touched_order_new_checked init px trigger_px trig = Some (Inr x)"
    by (auto simp: limit_if_touched_order_try_from_def required_def split: sum.splits option.splits)
  from limit_if_touched_order_normal [OF new] show ?thesis
    by (intro exI [of _ "limit_if_touched_order_init init px trigger_px trig"])
      (simp add: any_try_from_def map_ok_Inr)
qed

lemma market_order_any_normal:
  assumes "market_order_try_from init = Some (Inr x)"
  shows "\<exists>i. order_core_new i = Some (any_core (OrdMarket x)) \<and> any_try_from i = Some (Inr (OrdMarket x))"
proof -
  from assms have new: "market_order_new_checked init = Some (Inr x)"
    by (simp add: market_order_try_from_def)
  from market_order_normal [OF new] show ?thesis
    by (intro exI [of _ "market_order_init init"])
      (simp add: any_try_from_def map_ok_Inr)
qed

lemma market_if_touched_order_any_normal:
  assumes "market_if_touched_order_try_from init = Some (Inr x)"
  shows "\<exists>i. order_core_new i = Some (any_core (OrdMarketIfTouched x)) \<and> any_try_from i = Some (Inr (OrdMarketIfTouched x))"
proof -
  from assms obtain trigger_px trig where new:
      "market_if_touched_order_new_checked init trigger_px trig = Some (Inr x)"
    by (auto simp: market_if_touched_order_try_from_def required_def split: sum.splits option.splits)
  from market_if_touched_order_normal [OF new] show ?thesis
    by (intro exI [of _ "market_if_touched_order_init init trigger_px trig"])
      (simp add: any_try_from_def map_ok_Inr)
qed

lemma market_to_limit_order_any_normal:
  assumes "market_to_limit_order_try_from init = Some (Inr x)"
  shows "\<exists>i. order_core_new i = Some (any_core (OrdMarketToLimit x)) \<and> any_try_from i = Some (Inr (OrdMarketToLimit x))"
proof -
  from assms have new: "market_to_limit_order_new_checked init = Some (Inr x)"
    by (simp add: market_to_limit_order_try_from_def)
  from market_to_limit_order_normal [OF new] show ?thesis
    by (intro exI [of _ "market_to_limit_order_init init"])
      (simp add: any_try_from_def map_ok_Inr)
qed

lemma stop_limit_order_any_normal:
  assumes "stop_limit_order_try_from init = Some (Inr x)"
  shows "\<exists>i. order_core_new i = Some (any_core (OrdStopLimit x)) \<and> any_try_from i = Some (Inr (OrdStopLimit x))"
proof -
  from assms obtain px trigger_px trig where new:
      "stop_limit_order_new_checked init px trigger_px trig = Some (Inr x)"
    by (auto simp: stop_limit_order_try_from_def required_def split: sum.splits option.splits)
  from stop_limit_order_normal [OF new] show ?thesis
    by (intro exI [of _ "stop_limit_order_init init px trigger_px trig"])
      (simp add: any_try_from_def map_ok_Inr)
qed

lemma stop_market_order_any_normal:
  assumes "stop_market_order_try_from init = Some (Inr x)"
  shows "\<exists>i. order_core_new i = Some (any_core (OrdStopMarket x)) \<and> any_try_from i = Some (Inr (OrdStopMarket x))"
proof -
  from assms obtain trigger_px trig where new:
      "stop_market_order_new_checked init trigger_px trig = Some (Inr x)"
    by (auto simp: stop_market_order_try_from_def required_def split: sum.splits option.splits)
  from stop_market_order_normal [OF new] show ?thesis
    by (intro exI [of _ "stop_market_order_init init trigger_px trig"])
      (simp add: any_try_from_def map_ok_Inr)
qed

lemma trailing_stop_limit_order_any_normal:
  assumes "trailing_stop_limit_order_try_from init = Some (Inr x)"
  shows "\<exists>i. order_core_new i = Some (any_core (OrdTrailingStopLimit x)) \<and> any_try_from i = Some (Inr (OrdTrailingStopLimit x))"
proof -
  from assms obtain px trigger_px trig limit_off trailing_off trailing_ty where new:
      "trailing_stop_limit_order_new_checked init px trigger_px trig limit_off trailing_off trailing_ty = Some (Inr x)"
    by (auto simp: trailing_stop_limit_order_try_from_def required_def split: sum.splits option.splits)
  from trailing_stop_limit_order_normal [OF new] show ?thesis
    by (intro exI [of _ "trailing_stop_limit_order_init init px trigger_px trig limit_off trailing_off trailing_ty"])
      (simp add: any_try_from_def map_ok_Inr)
qed

lemma trailing_stop_market_order_any_normal:
  assumes "trailing_stop_market_order_try_from init = Some (Inr x)"
  shows "\<exists>i. order_core_new i = Some (any_core (OrdTrailingStopMarket x)) \<and> any_try_from i = Some (Inr (OrdTrailingStopMarket x))"
proof -
  from assms obtain trigger_px trig trailing_off trailing_ty where new:
      "trailing_stop_market_order_new_checked init trigger_px trig trailing_off trailing_ty = Some (Inr x)"
    by (auto simp: trailing_stop_market_order_try_from_def required_def split: sum.splits option.splits)
  from trailing_stop_market_order_normal [OF new] show ?thesis
    by (intro exI [of _ "trailing_stop_market_order_init init trigger_px trig trailing_off trailing_ty"])
      (simp add: any_try_from_def map_ok_Inr)
qed

lemmas order_any_normal =
  limit_order_any_normal
  limit_if_touched_order_any_normal
  market_order_any_normal
  market_if_touched_order_any_normal
  market_to_limit_order_any_normal
  stop_limit_order_any_normal
  stop_market_order_any_normal
  trailing_stop_limit_order_any_normal
  trailing_stop_market_order_any_normal

lemma any_normal:
  assumes "any_try_from init = Some (Inr ord)"
  shows "\<exists>i. order_core_new i = Some (any_core ord) \<and> any_try_from i = Some (Inr ord)"
  using assms unfolding any_try_from_def [of init]
  by (cases "oi_order_type init") (simp_all only: order_type.case map_ok_Inr, (blast intro: order_any_normal)+)

lemma any_inv_new: "any_try_from init = Some (Inr ord) \<Longrightarrow> core_inv (any_core ord)"
  using any_normal core_inv_new by blast

section \<open>The machine\<close>

definition order_step :: "'f f64_ops \<Rightarrow> 'f order_any \<Rightarrow> order_event_any \<Rightarrow> 'f order_any option" where
  "order_step ops ord e = map_option fst (any_apply ops e ord)"

interpretation orders: machine "order_step ops" "\<lambda>ord. core_inv (any_core ord)" "\<lambda>_. True"
  for ops :: "'f f64_ops"
  by unfold_locales (auto simp: order_step_def dest: any_inv_apply)

lemma reachable_inv:
  assumes "any_try_from init = Some (Inr ord)" and "run_steps (order_step ops) ord es = Some ord'"
  shows "core_inv (any_core ord')"
  using orders.run_inv [OF any_inv_new [OF assms(1)] _ assms(2)] by (simp add: list_all_iff)

end
