(* ===== verification/Order_Properties.thy ===== *)
theory Order_Properties
  imports Order_Machine
begin

text \<open>
  The properties of orders, stated for orders of every type: built from an initialization event
  and driven by an arbitrary list of events, refused ones included. The sample order at the start
  instantiates them.
\<close>

section \<open>A sample order\<close>

definition sample_init :: order_initialized where
  "sample_init =
     \<lparr>ev_trader_id = ''T'', ev_strategy_id = ''S'', ev_instrument_id = ''I'',
      ev_client_order_id = ''O'', ev_event_id = ''E'', ev_ts_event = 1, ev_ts_init = 1,
      ev_causation_id = None, ev_reconciliation = False, oi_order_side = Buy,
      oi_order_type = Limit, oi_quantity = \<lparr>q_raw = 10, q_precision = 0\<rparr>, oi_time_in_force = Gtc,
      oi_post_only = False, oi_reduce_only = False, oi_quote_quantity = False,
      oi_price = Some \<lparr>p_raw = 5, p_precision = 0\<rparr>, oi_trigger_price = None,
      oi_trigger_type = None, oi_limit_offset = None, oi_trailing_offset = None,
      oi_trailing_offset_type = None, oi_expire_time = None, oi_display_qty = None,
      oi_emulation_trigger = None, oi_trigger_instrument_id = None, oi_contingency_type = None,
      oi_order_list_id = None, oi_linked_order_ids = None, oi_parent_order_id = None,
      oi_exec_algorithm_id = None, oi_exec_algorithm_params = None, oi_exec_spawn_id = None,
      oi_tags = None\<rparr>"

definition sample_submitted :: order_event_any where
  "sample_submitted = EvSubmitted
     \<lparr>ev_trader_id = ''T'', ev_strategy_id = ''S'', ev_instrument_id = ''I'',
      ev_client_order_id = ''O'', ev_event_id = ''E'', ev_ts_event = 2, ev_ts_init = 2,
      ev_causation_id = None, os_account_id = ''A''\<rparr>"

definition sample_pending_cancel :: order_event_any where
  "sample_pending_cancel = EvPendingCancel
     \<lparr>ev_trader_id = ''T'', ev_strategy_id = ''S'', ev_instrument_id = ''I'',
      ev_client_order_id = ''O'', ev_event_id = ''E'', ev_ts_event = 3, ev_ts_init = 3,
      ev_causation_id = None, ev_reconciliation = False, opc_account_id = ''A'',
      opc_venue_order_id = None\<rparr>"

definition sample_canceled :: order_event_any where
  "sample_canceled = EvCanceled
     \<lparr>ev_trader_id = ''T'', ev_strategy_id = ''S'', ev_instrument_id = ''I'',
      ev_client_order_id = ''O'', ev_event_id = ''E'', ev_ts_event = 4, ev_ts_init = 4,
      ev_causation_id = None, ev_reconciliation = False, ocn_venue_order_id = None,
      ocn_account_id = None\<rparr>"

definition sample_fill :: "string \<Rightarrow> nat \<Rightarrow> order_filled" where
  "sample_fill trade n =
     \<lparr>ev_trader_id = ''T'', ev_strategy_id = ''S'', ev_instrument_id = ''I'',
      ev_client_order_id = ''O'', ev_event_id = ''E'', ev_ts_event = 5, ev_ts_init = 5,
      ev_causation_id = None, ev_reconciliation = False, of_venue_order_id = ''V'',
      of_account_id = ''A'', of_trade_id = trade, of_order_side = Buy, of_order_type = Limit,
      of_last_qty = \<lparr>q_raw = n, q_precision = 0\<rparr>, of_last_px = \<lparr>p_raw = 5, p_precision = 0\<rparr>,
      of_currency = \<lparr>c_code = ''USD'', c_precision = 2, c_iso4217 = 840, c_name = ''USD'',
                     c_currency_type = Fiat\<rparr>,
      of_liquidity_side = Taker, of_position_id = None, of_commission = None\<rparr>"

definition sample_ops :: "unit f64_ops" where
  "sample_ops =
     \<lparr>f_of_price = \<lambda>_. (), f_of_qty = \<lambda>_. (), f_add = \<lambda>_ _. (), f_sub = \<lambda>_ _. (), f_mul = \<lambda>_ _. (),
      f_mul_add = \<lambda>_ _ _. (), f_div = \<lambda>_ _. (), f_gt = \<lambda>_ _. False\<rparr>"

definition sample_core :: "unit order_core" where
  "sample_core = the (order_core_new (limit_order_init sample_init \<lparr>p_raw = 5, p_precision = 0\<rparr>))"

definition sample_limit :: "unit limit_order" where
  "sample_limit =
     \<lparr>lo_core = sample_core, lo_price = \<lparr>p_raw = 5, p_precision = 0\<rparr>, lo_expire_time = None,
      lo_is_post_only = False, lo_display_qty = None, lo_trigger_instrument_id = None\<rparr>"

lemma sample_core_eq:
  "order_core_new (limit_order_init sample_init \<lparr>p_raw = 5, p_precision = 0\<rparr>) = Some sample_core"
  by (simp add: sample_core_def order_core_new_def quantity_zero_def check_fixed_precision_def
      FIXED_PRECISION_def sample_init_def limit_order_init_def order_initialized_new_def)

lemma sample_order: "any_try_from sample_init = Some (Inr (OrdLimit sample_limit))"
  using sample_core_eq
  by (simp add: any_try_from_def map_ok_Inr limit_order_try_from_def limit_order_new_checked_def
      required_def sample_init_def and_then_def as_order_error_def check_positive_quantity_def
      quantity_is_positive_def QUANTITY_UNDEF_def check_display_qty_def check_time_in_force_def
      check_predicate_false_def sample_limit_def)

lemma sample_core_simps [simp]:
  "oc_client_order_id sample_core = ''O''" "oc_strategy_id sample_core = ''S''"
  "oc_status sample_core = Initialized" "oc_previous_status sample_core = None"
  "oc_trade_ids sample_core = []" "oc_order_type sample_core = Limit"
  "oc_quantity sample_core = \<lparr>q_raw = 10, q_precision = 0\<rparr>"
  "oc_filled_qty sample_core = \<lparr>q_raw = 0, q_precision = 0\<rparr>"
  "oc_leaves_qty sample_core = \<lparr>q_raw = 10, q_precision = 0\<rparr>"
  "oc_overfill_qty sample_core = \<lparr>q_raw = 0, q_precision = 0\<rparr>"
  "oc_avg_px sample_core = None" "oc_commissions sample_core = []"
  "oc_emulation_trigger sample_core = Some NoTrigger" "oc_ts_accepted sample_core = None"
  "\<exists>i. oc_events sample_core = [EvInitialized i]"
  by (simp_all add: sample_core_def order_core_new_def quantity_zero_def check_fixed_precision_def
      FIXED_PRECISION_def sample_init_def limit_order_init_def order_initialized_new_def or_option_def)

lemmas order_evals = order_step_def map_order_def limit_order_apply_def apply_with_def
  core_apply_def save_previous_status_def duplicate_trade_id_def dispatch_def handler_defs
  filled_def set_avg_px_def add_commission_def quantity_from_raw_def check_fixed_precision_def
  FIXED_PRECISION_def saturating_add_u_def quantity_lt_def quantity_saturating_sub_def
  saturating_sub_u_def QUANTITY_RAW_MAX_def QUANTITY_UNDEF_def FIXED_SCALAR_def is_fill_def
  set_slippage_def quantity_sub_def checked_sub_u_def sample_limit_def sample_submitted_def
  sample_pending_cancel_def sample_canceled_def sample_fill_def Let_def

lemma sample_pending:
  "\<exists>ord. run_steps (order_step sample_ops) (OrdLimit sample_limit)
      [sample_submitted, sample_pending_cancel] = Some ord \<and> oc_status (any_core ord) = PendingCancel"
  by (simp add: order_evals)

lemma sample_partial:
  "\<exists>ord. run_steps (order_step sample_ops) (OrdLimit sample_limit)
      [sample_submitted, EvFilled (sample_fill ''t1'' 4)] = Some ord \<and>
      oc_status (any_core ord) = PartiallyFilled"
  by (simp add: order_evals)

section \<open>Facts about single applications\<close>

lemma transition_error: "transition s e = Inl err \<Longrightarrow> err = InvalidStateTransition"
  by (cases s; cases e; simp)

lemma dispatch_no_previous:
  assumes "dispatch ops e c = Some (c', Inl NoPreviousState)"
  shows "oc_previous_status c = None \<and>
    ((\<exists>x. e = EvModifyRejected x) \<or> (\<exists>x. e = EvCancelRejected x))"
  using assms by (cases e) (auto simp: dispatch_def modify_rejected_def cancel_rejected_def
      split: option.splits bind_splits)

lemma core_apply_no_previous:
  assumes inv: "core_inv c" and a: "core_apply ops e c = Some (c', Inl err)"
  shows "err \<noteq> NoPreviousState"
proof
  assume err: "err = NoPreviousState"
  have ids: "oc_client_order_id c = event_client_order_id e" "oc_strategy_id c = event_strategy_id e"
    using a err core_apply_guards(1) [of c e ops] by auto
  have dup: "duplicate_trade_id e c = None"
    using a err core_apply_guards(2) [OF ids] by (cases "duplicate_trade_id e c") auto
  have trig: "\<not> trigger_refused e c"
    using a err core_apply_guards(3) [OF ids dup, of ops] by auto
  note eq = core_apply_guards(4) [OF ids dup trig, of ops]
  obtain st where st: "transition (oc_status c) e = Inr st"
    using a err eq transition_error by (cases "transition (oc_status c) e") auto
  then have "\<exists>c2. dispatch ops e ((save_previous_status e c)\<lparr>oc_status := st\<rparr>)
      = Some (c2, Inl NoPreviousState)"
    using a err eq by (auto split: bind_splits sum.splits)
  then have "oc_previous_status (save_previous_status e c) = None"
    and "(\<exists>x. e = EvModifyRejected x) \<or> (\<exists>x. e = EvCancelRejected x)"
    using dispatch_no_previous by fastforce+
  then show False
    using transition_pending [OF st] transition_rejection [OF st] inv
    by (auto simp: core_inv_def prev_inv_def save_previous_status_def)
qed

lemma any_apply_events:
  assumes "any_apply ops e ord = Some (ord', Inr u)"
  shows "oc_events (any_core ord') = oc_events (any_core ord) @ [e]"
proof -
  obtain c where c: "core_apply ops e (any_core ord) = Some (c, Inr u)"
    and t: "core_touched e c (any_core ord')"
    using any_apply_shape [OF assms] by (auto simp: shaped_def)
  from c have "oc_events c = oc_events (any_core ord) @ [e]"
  proof (cases rule: core_apply_cases)
    case (applied st c2)
    then show ?thesis using dispatch_frame(2) [OF applied(5)] by simp
  qed simp_all
  then show ?thesis using core_touched_frame(2) [OF t] by simp
qed

lemma any_apply_final:
  assumes "oc_status (any_core ord) \<in> {Denied, Rejected, Expired, Filled}"
    and "any_apply ops e ord = Some (ord', r)"
  shows "(\<exists>err. r = Inl err) \<and> oc_status (any_core ord') = oc_status (any_core ord) \<and>
    oc_events (any_core ord') = oc_events (any_core ord) \<and>
    oc_filled_qty (any_core ord') = oc_filled_qty (any_core ord)"
proof -
  obtain c where c: "core_apply ops e (any_core ord) = Some (c, r)"
    and t: "case r of Inl _ \<Rightarrow> any_core ord' = c | Inr _ \<Rightarrow> core_touched e c (any_core ord')"
    using any_apply_shape [OF assms(2)] by (auto simp: shaped_def)
  from c show ?thesis
  proof (cases rule: core_apply_cases)
    case (applied st c2)
    then show ?thesis using transition_from_final [OF assms(1)] by simp
  qed (use t in auto)
qed

interpretation final_orders: machine "order_step ops"
  "\<lambda>ord. s \<in> {Denied, Rejected, Expired, Filled} \<and> oc_status (any_core ord) = s \<and>
     oc_events (any_core ord) = log \<and> oc_filled_qty (any_core ord) = q" "\<lambda>_. True"
  for ops :: "'f f64_ops" and s log q
proof unfold_locales
  fix ord e ord'
  assume i: "s \<in> {Denied, Rejected, Expired, Filled} \<and> oc_status (any_core ord) = s \<and>
      oc_events (any_core ord) = log \<and> oc_filled_qty (any_core ord) = q"
    and "order_step ops ord e = Some ord'"
  then obtain r where "any_apply ops e ord = Some (ord', r)" by (auto simp: order_step_def)
  from any_apply_final [OF _ this] i
  show "s \<in> {Denied, Rejected, Expired, Filled} \<and> oc_status (any_core ord') = s \<and>
      oc_events (any_core ord') = log \<and> oc_filled_qty (any_core ord') = q"
    by metis
qed

section \<open>Properties\<close>

text \<open>
  (C2) Whatever events an order has received, a pending update or cancel request can be rolled
  back: the status from before the request is recorded and is one of a working order, so applying
  an event never fails for lack of a previous state.
\<close>

theorem pending_rollback:
  assumes "any_try_from init = Some (Inr ord)" and "run_steps (order_step ops) ord es = Some ord'"
  shows "(oc_status (any_core ord') \<in> {PendingUpdate, PendingCancel} \<longrightarrow>
      oc_previous_status (any_core ord')
        \<in> Some ` {Submitted, Accepted, Triggered, PartiallyFilled}) \<and>
    (\<forall>e ord''. any_apply ops e ord' \<noteq> Some (ord'', Inl NoPreviousState))"
proof -
  note inv = reachable_inv [OF assms]
  have "any_apply ops e ord' \<noteq> Some (ord'', Inl NoPreviousState)" for e ord''
  proof
    assume "any_apply ops e ord' = Some (ord'', Inl NoPreviousState)"
    from any_apply_shape [OF this] show False
      using core_apply_no_previous [OF inv] by (auto simp: shaped_def)
  qed
  then show ?thesis using inv by (auto simp: core_inv_def prev_inv_def)
qed

theorem pending_rollback_witness:
  "\<exists>ord'. run_steps (order_step sample_ops) (OrdLimit sample_limit)
       [sample_submitted, sample_pending_cancel] = Some ord' \<and>
     oc_status (any_core ord') = PendingCancel \<and>
     oc_previous_status (any_core ord') \<in> Some ` {Submitted, Accepted, Triggered, PartiallyFilled}"
  using sample_pending pending_rollback [OF sample_order] by blast

text \<open>
  (C1) Fills are accounted for exactly once. Whatever events an order has received, its trade ids
  are those of its logged fills and are distinct; as long as the fills add up within 64 bits the
  filled quantity is their sum, the remaining quantity is what the order quantity exceeds it by,
  and the overfill is what it exceeds the order quantity by once the order is filled, and zero
  before.
\<close>

theorem fill_accounting:
  assumes "any_try_from init = Some (Inr ord)" and "run_steps (order_step ops) ord es = Some ord'"
    and "fills_raw (oc_events (any_core ord')) \<le> u_max 64"
  defines "c \<equiv> any_core ord'"
  shows "oc_trade_ids c = map of_trade_id (fills (oc_events c)) \<and> distinct (oc_trade_ids c) \<and>
    q_raw (oc_filled_qty c) = fills_raw (oc_events c) \<and>
    q_raw (oc_leaves_qty c) = q_raw (oc_quantity c) - q_raw (oc_filled_qty c) \<and>
    q_raw (oc_overfill_qty c) =
      (if oc_status c = Filled then q_raw (oc_filled_qty c) - q_raw (oc_quantity c) else 0) \<and>
    (oc_status c = Filled \<longrightarrow> q_raw (oc_quantity c) \<le> q_raw (oc_filled_qty c))"
proof -
  have "log_inv c" and "qty_inv c"
    using reachable_inv [OF assms(1,2)] by (simp_all add: c_def core_inv_def)
  moreover from this(2) have "q_raw (oc_filled_qty c) = fills_raw (oc_events c)"
    and "q_raw (oc_leaves_qty c) = q_raw (oc_quantity c) - q_raw (oc_filled_qty c)"
    using assms(3) by (simp_all add: qty_inv_def c_def)
  ultimately show ?thesis
    unfolding log_inv_def qty_inv_def by blast
qed

theorem fill_accounting_witness:
  "\<exists>ord'. run_steps (order_step sample_ops) (OrdLimit sample_limit)
       [sample_submitted, EvFilled (sample_fill ''t1'' 4)] = Some ord' \<and>
     q_raw (oc_filled_qty (any_core ord')) = fills_raw (oc_events (any_core ord'))"
proof -
  obtain ord' where run: "run_steps (order_step sample_ops) (OrdLimit sample_limit)
      [sample_submitted, EvFilled (sample_fill ''t1'' 4)] = Some ord'"
    using sample_partial by blast
  obtain i where "oc_events sample_core = [EvInitialized i]" using sample_core_simps(15) by blast
  with run have "fills_raw (oc_events (any_core ord')) \<le> u_max 64" by (auto simp: order_evals)
  with run show ?thesis using fill_accounting [OF sample_order run] by blast
qed

text \<open>
  (C3) The statuses denied, rejected, expired and filled are final: every later event is refused
  and leaves the status, the event log and the filled quantity as they are.
\<close>

theorem final_status_absorbing:
  assumes "oc_status (any_core ord) \<in> {Denied, Rejected, Expired, Filled}"
    and "run_steps (order_step ops) ord es = Some ord'"
  shows "oc_status (any_core ord') = oc_status (any_core ord) \<and>
    oc_events (any_core ord') = oc_events (any_core ord) \<and>
    oc_filled_qty (any_core ord') = oc_filled_qty (any_core ord)"
  using final_orders.run_inv [of "oc_status (any_core ord)" ord _ _ es ops ord'] assms
  by (simp add: list_all_iff)

theorem final_status_absorbing_witness:
  "\<exists>ord ord'. run_steps (order_step sample_ops) (OrdLimit sample_limit)
       [sample_submitted, EvFilled (sample_fill ''t1'' 10)] = Some ord \<and>
     oc_status (any_core ord) = Filled \<and>
     run_steps (order_step sample_ops) ord [sample_canceled, sample_submitted] = Some ord' \<and>
     oc_status (any_core ord') = Filled"
proof -
  obtain ord ord' where "run_steps (order_step sample_ops) (OrdLimit sample_limit)
       [sample_submitted, EvFilled (sample_fill ''t1'' 10)] = Some ord"
    "oc_status (any_core ord) = Filled"
    "run_steps (order_step sample_ops) ord [sample_canceled, sample_submitted] = Some ord'"
    by (simp add: order_evals)
  then show ?thesis
    using final_status_absorbing [of ord sample_ops "[sample_canceled, sample_submitted]" ord'] by auto
qed

lemma replay_events:
  "replay ops ord es = Some (Inr ord') \<Longrightarrow>
     oc_events (any_core ord') = oc_events (any_core ord) @ es"
proof (induction ops ord es rule: replay.induct)
  case (2 ops ord e es)
  then obtain o1 u where a: "any_apply ops e ord = Some (o1, Inr u)"
    and "replay ops o1 es = Some (Inr ord')"
    by (auto split: option.splits sum.splits)
  with 2 any_apply_events [OF a] show ?case by simp
qed simp

lemma order_core_new_events: "order_core_new i = Some c \<Longrightarrow> oc_events c = [EvInitialized i]"
  by (auto simp: order_core_new_def split: bind_splits)



section \<open>Panics\<close>

lemma filled_total:
  assumes inv: "core_inv c0" and eq: "c = (save_previous_status e c0)\<lparr>oc_status := st\<rparr>"
    and nf: "oc_status c0 \<noteq> Filled"
    and range: "fills_raw (oc_events c0) + q_raw (of_last_qty f) \<le> QUANTITY_RAW_MAX"
    and com: "add_commission (of_commission f) (oc_commissions c0) \<noteq> None"
  shows "filled ops f c \<noteq> None"
proof -
  have b: "fills_raw (oc_events c0) + q_raw (of_last_qty f) \<le> u_max 64"
    using range quantity_max_lt_undef by blast
  have q: "q_raw (oc_filled_qty c) = fills_raw (oc_events c0)" "q_raw (oc_overfill_qty c) = 0"
    "q_precision (oc_filled_qty c) \<le> FIXED_PRECISION"
    using inv nf b by (auto simp: core_inv_def qty_inv_def eq)
  have sat: "saturating_add_u 64 (q_raw (oc_filled_qty c)) (q_raw (of_last_qty f)) =
      fills_raw (oc_events c0) + q_raw (of_last_qty f)"
    using b by (simp add: q saturating_add_u_def)
  have from_raw: "quantity_from_raw n (q_precision (oc_filled_qty c)) =
      Some \<lparr>q_raw = n, q_precision = q_precision (oc_filled_qty c)\<rparr>"
    if "n \<le> QUANTITY_RAW_MAX" for n
    using that q(3) by (simp add: quantity_from_raw_Some wf_quantity_def)
  have over: "n - m \<le> QUANTITY_RAW_MAX \<and> saturating_add_u 64 0 (n - m) = n - m"
    if "n \<le> QUANTITY_RAW_MAX" for n m :: nat
    using that quantity_max_lt_undef [of "n - m"] by (simp add: saturating_add_u_def)
  have sub: "quantity_sub \<lparr>q_raw = k + q_raw (of_last_qty f), q_precision = p\<rparr> (of_last_qty f) =
      Some \<lparr>q_raw = k, q_precision = max p (q_precision (of_last_qty f))\<rparr>"
    for k p by (simp add: quantity_sub_def checked_sub_u_def)
  obtain coms where coms: "add_commission (of_commission f) (oc_commissions c0) = Some coms"
    using com by blast
  have com_c: "oc_commissions c = oc_commissions c0" by (simp add: eq)
  show ?thesis
    unfolding filled_def sat
    by (simp add: from_raw [OF range] over [OF range] from_raw coms q(2) com_c sub
        set_avg_px_def Let_def split: option.split)
qed

lemma core_apply_total:
  assumes inv: "core_inv c"
    and fill: "\<And>f. e = EvFilled f \<Longrightarrow>
      fills_raw (oc_events c) + q_raw (of_last_qty f) \<le> QUANTITY_RAW_MAX \<and>
      add_commission (of_commission f) (oc_commissions c) \<noteq> None"
  shows "core_apply ops e c \<noteq> None"
proof -
  have disp: "dispatch ops e ((save_previous_status e c)\<lparr>oc_status := st\<rparr>) \<noteq> None"
    if "transition (oc_status c) e = Inr st" for st
  proof (cases "\<exists>f. e = EvFilled f")
    case True
    then obtain f where e: "e = EvFilled f" by blast
    have "oc_status c \<noteq> Filled" using that by auto
    with fill [OF e] have "filled ops f ((save_previous_status e c)\<lparr>oc_status := st\<rparr>) \<noteq> None"
      by (intro filled_total [OF inv refl]) auto
    then show ?thesis unfolding e by (auto simp: dispatch_def)
  next
    case False
    then show ?thesis by (cases e) (simp_all add: dispatch_def)
  qed
  show ?thesis
    using disp
    by (auto simp: core_apply_def Let_def split: option.splits sum.splits if_splits bind_splits)
qed

lemma apply_with_total:
  assumes "core_apply ops e (get ord) \<noteq> None" and "\<And>x. after_ok x \<noteq> None"
  shows "apply_with get put ops e after_ok ord \<noteq> None"
proof -
  obtain c r where "core_apply ops e (get ord) = Some (c, r)" using assms(1) by fastforce
  then show ?thesis using assms(2) [of "put c ord"] by (cases r) (auto simp: apply_with_def)
qed

lemma not_updated_case:
  "(\<And>u. e \<noteq> EvUpdated u) \<Longrightarrow> (case e of EvUpdated u \<Rightarrow> f u | _ \<Rightarrow> x) = x"
  by (cases e) auto

lemma any_apply_total:
  assumes "core_apply ops e (any_core ord) \<noteq> None" and "\<And>u. e \<noteq> EvUpdated u"
  shows "any_apply ops e ord \<noteq> None"
  using assms(1)
  by (cases ord) (simp_all only: any_apply.simps any_core.simps map_order_def order_apply_defs
      option.map_disc_iff, (rule apply_with_total; simp add: not_updated_case [OF assms(2)] Let_def)+)

text \<open>
  (C17) No event panics an order that was driven by any events before, provided a fill keeps the
  total filled within the largest quantity and its commission can be added to those recorded.
  Updates are excluded: a type panics on an update that carries a price it does not have.
\<close>

theorem event_does_not_panic:
  assumes "any_try_from init = Some (Inr ord)" and "run_steps (order_step ops) ord es = Some ord'"
    and "\<And>u. e \<noteq> EvUpdated u"
    and "\<And>f. e = EvFilled f \<Longrightarrow>
      fills_raw (oc_events (any_core ord')) + q_raw (of_last_qty f) \<le> QUANTITY_RAW_MAX \<and>
      add_commission (of_commission f) (oc_commissions (any_core ord')) \<noteq> None"
  shows "any_apply ops e ord' \<noteq> None"
  using any_apply_total core_apply_total reachable_inv assms by metis

theorem event_does_not_panic_witness:
  "any_apply sample_ops (EvFilled (sample_fill ''t1'' 4)) (OrdLimit sample_limit) \<noteq> None"
proof (rule event_does_not_panic [OF sample_order, where es = "[]"])
  fix f assume "EvFilled (sample_fill ''t1'' 4) = EvFilled f"
  then have f: "f = sample_fill ''t1'' 4" by simp
  obtain i where "oc_events sample_core = [EvInitialized i]" using sample_core_simps(15) by blast
  then show "fills_raw (oc_events (any_core (OrdLimit sample_limit))) + q_raw (of_last_qty f)
      \<le> QUANTITY_RAW_MAX \<and>
    add_commission (of_commission f) (oc_commissions (any_core (OrdLimit sample_limit))) \<noteq> None"
    by (simp add: f order_evals)
qed simp_all

section \<open>Fills after a cancel\<close>



section \<open>Triggered orders\<close>

fun any_kind :: "'f order_any \<Rightarrow> order_type" where
  "any_kind (OrdLimit _) = Limit"
| "any_kind (OrdLimitIfTouched _) = LimitIfTouched"
| "any_kind (OrdMarket _) = Market"
| "any_kind (OrdMarketIfTouched _) = MarketIfTouched"
| "any_kind (OrdMarketToLimit _) = MarketToLimit"
| "any_kind (OrdStopLimit _) = StopLimit"
| "any_kind (OrdStopMarket _) = StopMarket"
| "any_kind (OrdTrailingStopLimit _) = TrailingStopLimit"
| "any_kind (OrdTrailingStopMarket _) = TrailingStopMarket"

definition trig_inv :: "'f order_core \<Rightarrow> bool" where
  "trig_inv c \<longleftrightarrow>
     (oc_status c = Triggered \<or> oc_previous_status c = Some Triggered \<longrightarrow>
        oc_order_type c \<in> set TRIGGERABLE_ORDER_TYPES)"

definition kind_inv :: "'f order_any \<Rightarrow> bool" where
  "kind_inv ord \<longleftrightarrow>
     oc_order_type (any_core ord) = any_kind ord \<and> trig_inv (any_core ord) \<and>
     (any_is_triggered ord = Some True \<longrightarrow> any_kind ord \<in> set TRIGGERABLE_ORDER_TYPES)"

lemma transition_Triggered:
  "transition s e = Inr Triggered \<Longrightarrow> s = Triggered \<or> (\<exists>t. e = EvTriggered t)"
  by (cases s; cases e; simp)

lemma save_previous_Triggered:
  "oc_previous_status (save_previous_status e c) = Some Triggered \<Longrightarrow>
     oc_status c = Triggered \<or> oc_previous_status c = Some Triggered"
  by (auto simp: save_previous_status_def split: if_splits order_event_any.splits)

lemma trig_inv_apply:
  assumes inv: "trig_inv c" and a: "core_apply ops e c = Some (c', r)"
  shows "trig_inv c' \<and> oc_order_type c' = oc_order_type c"
  using a
proof (cases rule: core_apply_cases)
  case (failed err)
  then show ?thesis using inv save_previous_Triggered [of e c] by (auto simp: trig_inv_def)
next
  case (applied st c2)
  note frame = dispatch_frame [OF applied(5)]
  have "oc_status c2 = Triggered \<Longrightarrow>
      st = Triggered \<or> oc_previous_status (save_previous_status e c) = Some Triggered"
    using dispatch_status [OF applied(5)]
    by (auto simp: handler_status_def split: order_event_any.splits option.splits if_splits)
  then have "oc_order_type c \<in> set TRIGGERABLE_ORDER_TYPES"
    if "oc_status c2 = Triggered \<or> oc_previous_status c2 = Some Triggered"
    using that inv frame(1) applied(4,7) transition_Triggered [of "oc_status c" e]
      save_previous_Triggered [of e c]
    by (auto simp: trig_inv_def trigger_refused_def)
  then show ?thesis
    using frame(6) applied(6) by (cases r) (auto simp: trig_inv_def)
qed (use inv in simp)

lemma trig_inv_touched: "core_touched e c c' \<Longrightarrow> trig_inv c \<Longrightarrow> trig_inv c'"
  using core_touched_frame [of e c c'] by (simp add: trig_inv_def)

lemma apply_with_flag:
  assumes "apply_with get put ops e after_ok ord = Some (ord', r)"
    and put: "\<And>c x. flag (put c x) = flag x"
    and after: "\<And>x y. after_ok x = Some y \<Longrightarrow> flag y \<Longrightarrow> flag x \<or> is_trigger e"
    and "flag ord'"
  shows "flag ord \<or> is_trigger e \<and> (\<exists>u. r = Inr u)"
proof -
  obtain c r1 where c: "core_apply ops e (get ord) = Some (c, r1)"
    using assms(1) by (auto simp: apply_with_def split: bind_splits)
  then show ?thesis
    using assms(1,4) put after [of "put c ord"]
    by (cases r1) (auto simp: apply_with_def split: bind_splits)
qed

lemma core_apply_trigger:
  assumes "is_trigger e" and "core_apply ops e c = Some (c', Inr u)"
  shows "oc_order_type c \<in> set TRIGGERABLE_ORDER_TYPES"
  using assms(2)
proof (cases rule: core_apply_cases)
  case (applied st c2)
  then show ?thesis using assms(1) by (auto simp: trigger_refused_def is_trigger_def)
qed simp_all

lemma order_flags:
  "limit_if_touched_order_apply ops e lit = Some (lit', r) \<Longrightarrow> lit_is_triggered lit' \<Longrightarrow>
     lit_is_triggered lit \<or> is_trigger e \<and> (\<exists>u. r = Inr u)"
  "market_if_touched_order_apply ops e mit = Some (mit', r) \<Longrightarrow> mit_is_triggered mit' \<Longrightarrow>
     mit_is_triggered mit \<or> is_trigger e \<and> (\<exists>u. r = Inr u)"
  "stop_limit_order_apply ops e sl = Some (sl', r) \<Longrightarrow> sl_is_triggered sl' \<Longrightarrow>
     sl_is_triggered sl \<or> is_trigger e \<and> (\<exists>u. r = Inr u)"
  "stop_market_order_apply ops e sm = Some (sm', r) \<Longrightarrow> sm_is_triggered sm' \<Longrightarrow>
     sm_is_triggered sm \<or> is_trigger e \<and> (\<exists>u. r = Inr u)"
  "trailing_stop_limit_order_apply ops e tsl = Some (tsl', r) \<Longrightarrow> tsl_is_triggered tsl' \<Longrightarrow>
     tsl_is_triggered tsl \<or> is_trigger e \<and> (\<exists>u. r = Inr u)"
  "trailing_stop_market_order_apply ops e tsm = Some (tsm', r) \<Longrightarrow> tsm_is_triggered tsm' \<Longrightarrow>
     tsm_is_triggered tsm \<or> is_trigger e \<and> (\<exists>u. r = Inr u)"
  unfolding order_apply_defs
  by (erule apply_with_flag;
      auto simp: Let_def order_update_defs split: order_event_any.splits if_splits option.splits
        bind_splits)+

lemma any_apply_flag:
  assumes "any_apply ops e ord = Some (ord', r)" and "any_is_triggered ord' = Some True"
  shows "any_is_triggered ord = Some True \<or> is_trigger e \<and> (\<exists>u. r = Inr u)"
  using assms by (cases ord) (auto simp: map_order_def dest: order_flags)

lemma any_apply_kind: "any_apply ops e ord = Some (ord', r) \<Longrightarrow> any_kind ord' = any_kind ord"
  by (cases ord) (auto simp: map_order_def)

lemma kind_inv_apply:
  assumes inv: "kind_inv ord" and a: "any_apply ops e ord = Some (ord', r)"
  shows "kind_inv ord'"
proof -
  obtain c where c: "core_apply ops e (any_core ord) = Some (c, r)"
    and t: "case r of Inl _ \<Rightarrow> any_core ord' = c | Inr _ \<Rightarrow> core_touched e c (any_core ord')"
    using any_apply_shape [OF a] by (auto simp: shaped_def)
  have core: "trig_inv c" "oc_order_type c = oc_order_type (any_core ord)"
    using trig_inv_apply [OF _ c] inv by (simp_all add: kind_inv_def)
  have "trig_inv (any_core ord') \<and> oc_order_type (any_core ord') = oc_order_type c"
  proof (cases r)
    case (Inl err)
    then show ?thesis using t core by simp
  next
    case (Inr u)
    then have "core_touched e c (any_core ord')" using t by simp
    from trig_inv_touched [OF this core(1)] core_touched_frame(3) [OF this] show ?thesis by simp
  qed
  then have "trig_inv (any_core ord')" "oc_order_type (any_core ord') = oc_order_type (any_core ord)"
    using core(2) by simp_all
  moreover have "any_kind ord \<in> set TRIGGERABLE_ORDER_TYPES" if "any_is_triggered ord' = Some True"
    using any_apply_flag [OF a that] core_apply_trigger [of e ops "any_core ord" c] c inv
    by (auto simp: kind_inv_def)
  ultimately show ?thesis using inv any_apply_kind [OF a] by (simp add: kind_inv_def)
qed

lemma any_try_from_kind:
  "any_try_from i = Some (Inr ord) \<Longrightarrow> any_kind ord = oi_order_type i"
  by (cases "oi_order_type i") (auto simp: any_try_from_def map_ok_Inr)

lemma any_try_from_flag: "any_try_from i = Some (Inr ord) \<Longrightarrow> any_is_triggered ord \<noteq> Some True"
  by (cases "oi_order_type i")
    (auto simp: any_try_from_def map_ok_Inr order_try_from_defs order_new_defs
      split: sum.splits bind_splits)

lemma order_core_new_start:
  "order_core_new i = Some c \<Longrightarrow>
     oc_order_type c = oi_order_type i \<and> oc_status c = Initialized \<and> oc_previous_status c = None"
  by (auto simp: order_core_new_def split: bind_splits)

lemma kind_inv_new:
  assumes "any_try_from init = Some (Inr ord)"
  shows "kind_inv ord"
proof -
  obtain i where i: "order_core_new i = Some (any_core ord)" "any_try_from i = Some (Inr ord)"
    using any_normal [OF assms] by blast
  from order_core_new_start [OF i(1)] show ?thesis
    using any_try_from_kind [OF i(2)] any_try_from_flag [OF assms]
    by (simp add: kind_inv_def trig_inv_def)
qed

interpretation typed_orders: machine "order_step ops" kind_inv "\<lambda>_. True" for ops :: "'f f64_ops"
  by unfold_locales (auto simp: order_step_def dest: kind_inv_apply)

text \<open>
  (C18) The order type recorded in the core is the type the order was built as, whatever happens to
  it, and only the limit-style stop types can be triggered: an order of another type never has the
  status triggered, never saves it, and never raises its triggered flag.
\<close>

theorem triggered_types:
  assumes "any_try_from init = Some (Inr ord)" and "run_steps (order_step ops) ord es = Some ord'"
  shows "oc_order_type (any_core ord') = any_kind ord' \<and>
    (any_kind ord' \<notin> {StopLimit, TrailingStopLimit, LimitIfTouched} \<longrightarrow>
       oc_status (any_core ord') \<noteq> Triggered \<and> oc_previous_status (any_core ord') \<noteq> Some Triggered \<and>
       any_is_triggered ord' \<noteq> Some True)"
proof -
  have "kind_inv ord'"
    using typed_orders.run_inv [OF kind_inv_new [OF assms(1)] _ assms(2)] by (simp add: list_all_iff)
  then show ?thesis
    by (auto simp: kind_inv_def trig_inv_def TRIGGERABLE_ORDER_TYPES_def)
qed

theorem triggered_types_witness:
  "\<exists>ord'. run_steps (order_step sample_ops) (OrdLimit sample_limit)
       [sample_submitted, sample_pending_cancel] = Some ord' \<and>
     oc_order_type (any_core ord') = any_kind ord'"
  using sample_pending triggered_types [OF sample_order] by blast

section \<open>Monotonicity\<close>

text \<open>The event log only grows.\<close>

lemma any_apply_log:
  assumes "any_apply ops e ord = Some (ord', r)"
  shows "length (oc_events (any_core ord)) \<le> length (oc_events (any_core ord'))"
proof (cases r)
  case (Inl err)
  then obtain c where c: "core_apply ops e (any_core ord) = Some (any_core ord', Inl err)"
    using any_apply_shape [OF assms] by (auto simp: shaped_def)
  then show ?thesis
  proof (cases rule: core_apply_cases)
    case (applied st c2)
    then show ?thesis using dispatch_frame(2) [OF applied(5)] by simp
  qed simp_all
next
  case (Inr u)
  then show ?thesis using any_apply_events [of ops e ord ord' u] assms by simp
qed

interpretation order_log: monotone_machine "order_step ops"
  "\<lambda>ord. length (oc_events (any_core ord))" for ops :: "'f f64_ops"
  by unfold_locales (auto simp: order_step_def dest: any_apply_log)

end
