(* ===== verification/Book_Ladder.thy ===== *)
theory Book_Ladder
  imports Order_Events Ordered_Map "HOL-Library.AList" "HOL-Library.Monad_Syntax" "HOL-Library.Word"
begin

text \<open>
  One side of an order book: the orders of \<^verbatim>\<open>data/order.rs\<close>, the price levels of
  \<^verbatim>\<open>orderbook/level.rs\<close> and the ladder of \<^verbatim>\<open>orderbook/ladder.rs\<close>. A
  level keeps its orders in an insertion-ordered map, a ladder keeps its levels in a
  \<^verbatim>\<open>BTreeMap\<close> ordered by the side's own price order, and a cache from order ids to prices.
  The invariant says that the cache is exactly the index of the orders in the levels.
\<close>

unbundle bit_operations_syntax

section \<open>Flags and book types\<close>

datatype book_type = L1_MBP | L2_MBP | L3_MBO

datatype book_action = AddAction | UpdateAction | DeleteAction | ClearAction

datatype record_flag = F_LAST | F_TOB | F_SNAPSHOT | F_MBP | RESERVED_2 | RESERVED_1

type_synonym flags = "8 word"

fun flag_value :: "record_flag \<Rightarrow> flags" where
  "flag_value F_LAST = 128"
| "flag_value F_TOB = 64"
| "flag_value F_SNAPSHOT = 32"
| "flag_value F_MBP = 16"
| "flag_value RESERVED_2 = 8"
| "flag_value RESERVED_1 = 4"

definition matches :: "record_flag \<Rightarrow> flags \<Rightarrow> bool" where
  "matches f v \<longleftrightarrow> flag_value f AND v \<noteq> 0"

section \<open>Book orders and prices\<close>

record book_price =
  bp_value :: price
  bp_side :: order_side_specified

text \<open>
  The rank of a price on its side: bids are ordered by descending price, asks by ascending price.
  Comparing prices of different sides panics, which the ladder operations check for.
\<close>

definition book_rank :: "book_price \<Rightarrow> int" where
  "book_rank p = (case bp_side p of BuySide \<Rightarrow> - p_raw (bp_value p) | SellSide \<Rightarrow> p_raw (bp_value p))"

definition book_price_eq :: "book_price \<Rightarrow> book_price \<Rightarrow> bool" where
  "book_price_eq p q \<longleftrightarrow> bp_side p = bp_side q \<and> price_eq (bp_value p) (bp_value q)"

record book_order =
  bo_side :: order_side
  bo_price :: price
  bo_size :: quantity
  bo_order_id :: nat

definition NULL_ORDER :: book_order where
  "NULL_ORDER =
     \<lparr>bo_side = NoOrderSide, bo_price = \<lparr>p_raw = 0, p_precision = 0\<rparr>,
      bo_size = \<lparr>q_raw = 0, q_precision = 0\<rparr>, bo_order_id = 0\<rparr>"

definition to_book_price :: "book_order \<Rightarrow> book_price option" where
  "to_book_price ord = do {
     side \<leftarrow> as_specified (bo_side ord);
     Some \<lparr>bp_value = bo_price ord, bp_side = side\<rparr>}"

section \<open>Levels\<close>

record book_level =
  lv_price :: book_price
  lv_orders :: "(nat \<times> book_order) list"

definition level_new :: "book_price \<Rightarrow> book_level" where
  "level_new p = \<lparr>lv_price = p, lv_orders = []\<rparr>"

definition level_first :: "book_level \<Rightarrow> book_order option" where
  "level_first l = (case lv_orders l of [] \<Rightarrow> None | (_, ord) # _ \<Rightarrow> Some ord)"

definition level_get_orders :: "book_level \<Rightarrow> book_order list" where
  "level_get_orders l = map snd (lv_orders l)"

text \<open>The sum of the sizes wraps around, as the crates are built without overflow checks.\<close>

definition level_size_raw :: "book_level \<Rightarrow> nat" where
  "level_size_raw l = sum_list (map (\<lambda>ord. q_raw (bo_size ord)) (level_get_orders l)) mod 2 ^ 64"

definition level_add :: "book_order \<Rightarrow> book_level \<Rightarrow> book_level" where
  "level_add ord l =
     (if \<not> quantity_is_positive (bo_size ord) then l
      else l\<lparr>lv_orders := AList.update (bo_order_id ord) ord (lv_orders l)\<rparr>)"

definition level_add_bulk :: "book_order list \<Rightarrow> book_level \<Rightarrow> book_level" where
  "level_add_bulk ords l = fold level_add ords l"

definition level_from_order :: "book_order \<Rightarrow> book_level option" where
  "level_from_order ord = do {
     p \<leftarrow> to_book_price ord;
     Some (level_add ord \<lparr>lv_price = p, lv_orders = []\<rparr>)}"

definition level_update :: "book_order \<Rightarrow> book_level \<Rightarrow> book_level" where
  "level_update ord l =
     (if q_raw (bo_size ord) = 0
      then l\<lparr>lv_orders := AList.delete (bo_order_id ord) (lv_orders l)\<rparr>
      else l\<lparr>lv_orders := AList.update (bo_order_id ord) ord (lv_orders l)\<rparr>)"

definition level_delete :: "book_order \<Rightarrow> book_level \<Rightarrow> book_level" where
  "level_delete ord l = l\<lparr>lv_orders := AList.delete (bo_order_id ord) (lv_orders l)\<rparr>"

definition level_remove_by_id :: "nat \<Rightarrow> book_level \<Rightarrow> book_level option" where
  "level_remove_by_id i l =
     (case map_of (lv_orders l) i of
        None \<Rightarrow> None
      | Some _ \<Rightarrow> Some (l\<lparr>lv_orders := AList.delete i (lv_orders l)\<rparr>))"

section \<open>Ladders\<close>

datatype l1_batch_state = NoBatch | MbpBatch | SnapshotBatch

record book_ladder =
  ld_side :: order_side_specified
  ld_book_type :: book_type
  ld_levels :: "(book_price \<times> book_level) list"
  ld_cache :: "nat \<rightharpoonup> book_price"
  ld_batch_state :: l1_batch_state

definition ladder_new :: "order_side_specified \<Rightarrow> book_type \<Rightarrow> book_ladder" where
  "ladder_new side bt =
     \<lparr>ld_side = side, ld_book_type = bt, ld_levels = [], ld_cache = Map.empty,
      ld_batch_state = NoBatch\<rparr>"

definition ladder_clear :: "book_ladder \<Rightarrow> book_ladder" where
  "ladder_clear L = L\<lparr>ld_levels := [], ld_cache := Map.empty, ld_batch_state := NoBatch\<rparr>"

text \<open>A search in the levels compares its key with keys of the map, and panics on another side.\<close>

definition comparable :: "book_price \<Rightarrow> (book_price \<times> book_level) list \<Rightarrow> bool" where
  "comparable p levels \<longleftrightarrow> list_all (\<lambda>(k, _). bp_side k = bp_side p) levels"

definition find_level ::
    "book_price \<Rightarrow> (book_price \<times> book_level) list \<Rightarrow> book_level option option" where
  "find_level p levels = (if comparable p levels then Some (bt_get book_rank p levels) else None)"

definition handle_l1_add :: "book_order \<Rightarrow> flags \<Rightarrow> book_ladder \<Rightarrow> book_ladder \<times> bool" where
  "handle_l1_add ord flags L =
     (if \<not> quantity_is_positive (bo_size ord) then (ladder_clear L, False)
      else
        let is_mbp = matches F_MBP flags;
            is_snapshot = matches F_SNAPSHOT flags;
            is_last = matches F_LAST flags
        in (if is_snapshot \<and> is_last
            then (if ld_batch_state L \<noteq> SnapshotBatch then ladder_clear L else L)
            else if is_snapshot
            then (if ld_batch_state L \<noteq> SnapshotBatch
                  then (ladder_clear L)\<lparr>ld_batch_state := SnapshotBatch\<rparr> else L)
            else if is_mbp \<and> is_last
            then (if ld_batch_state L \<noteq> MbpBatch then ladder_clear L else L)
            else if is_mbp then (ladder_clear L)\<lparr>ld_batch_state := MbpBatch\<rparr>
            else ladder_clear L, True))"

definition level_ids :: "book_level \<Rightarrow> nat list" where
  "level_ids l = map fst (lv_orders l)"

definition rebuild_cache :: "(book_price \<times> book_level) list \<Rightarrow> nat \<rightharpoonup> book_price" where
  "rebuild_cache levels =
     fold (\<lambda>(p, l) cache. fold (\<lambda>i cache. cache(i \<mapsto> p)) (level_ids l) cache) levels Map.empty"

definition retain_best_only :: "book_ladder \<Rightarrow> book_ladder" where
  "retain_best_only L =
     (if length (ld_levels L) \<le> 1 then L
      else case ld_levels L of
             [] \<Rightarrow> L
           | (best, _) # _ \<Rightarrow>
               let levels = filter (\<lambda>(p, _). book_price_eq p best) (ld_levels L)
               in L\<lparr>ld_levels := levels, ld_cache := rebuild_cache levels\<rparr>)"

definition insert_order :: "book_order \<Rightarrow> book_ladder \<Rightarrow> book_ladder option" where
  "insert_order ord L = do {
     p \<leftarrow> to_book_price ord;
     found \<leftarrow> find_level p (ld_levels L);
     l \<leftarrow> (case found of Some l \<Rightarrow> Some (level_add ord l) | None \<Rightarrow> level_from_order ord);
     Some (L\<lparr>ld_cache := (ld_cache L)(bo_order_id ord \<mapsto> p),
             ld_levels := bt_insert book_rank p l (ld_levels L)\<rparr>)}"

definition ladder_add :: "book_order \<Rightarrow> flags \<Rightarrow> book_ladder \<Rightarrow> book_ladder option" where
  "ladder_add ord flags L =
     (let (L1, go) = (if ld_book_type L = L1_MBP then handle_l1_add ord flags L else (L, True))
      in if \<not> go then Some L1
         else if ld_book_type L1 \<noteq> L1_MBP \<and> \<not> quantity_is_positive (bo_size ord) then Some L1
         else do {
           L2 \<leftarrow> insert_order ord L1;
           let is_batch = (matches F_MBP flags \<or> matches F_SNAPSHOT flags);
           Some (if ld_book_type L2 = L1_MBP \<and> is_batch
                 then let L3 = retain_best_only L2
                      in if matches F_LAST flags then L3\<lparr>ld_batch_state := NoBatch\<rparr> else L3
                 else L2)})"

text \<open>Storing a level after a removal from it; an empty level leaves the ladder.\<close>

definition store_level ::
    "book_price \<Rightarrow> book_level \<Rightarrow> (book_price \<times> book_level) list \<Rightarrow> (book_price \<times> book_level) list"
where
  "store_level p l levels =
     (if lv_orders l = [] then bt_remove book_rank p levels else bt_insert book_rank p l levels)"

definition ladder_update :: "book_order \<Rightarrow> flags \<Rightarrow> book_ladder \<Rightarrow> book_ladder option" where
  "ladder_update ord flags L =
     (let add_it = (\<lambda>L. if quantity_is_positive (bo_size ord) then ladder_add ord flags L else Some L)
      in case ld_cache L (bo_order_id ord) of
           None \<Rightarrow> add_it L
         | Some p \<Rightarrow> do {
             found \<leftarrow> find_level p (ld_levels L);
             (case found of
                None \<Rightarrow> add_it L
              | Some l \<Rightarrow>
                  if price_eq (bo_price ord) (bp_value (lv_price l))
                  then Some (L\<lparr>ld_levels := store_level p (level_update ord l) (ld_levels L),
                               ld_cache := (if q_raw (bo_size ord) = 0
                                            then (ld_cache L)(bo_order_id ord := None)
                                            else ld_cache L)\<rparr>)
                  else add_it (L\<lparr>ld_cache := (ld_cache L)(bo_order_id ord := None),
                                 ld_levels := store_level p (level_delete ord l) (ld_levels L)\<rparr>))})"

definition ladder_remove_order :: "nat \<Rightarrow> book_ladder \<Rightarrow> book_ladder option" where
  "ladder_remove_order i L =
     (case ld_cache L i of
        None \<Rightarrow> Some L
      | Some p \<Rightarrow> do {
          found \<leftarrow> find_level p (ld_levels L);
          (case found of
             None \<Rightarrow> Some L
           | Some l \<Rightarrow>
               if map_of (lv_orders l) i \<noteq> None
               then do {
                 l' \<leftarrow> level_remove_by_id i l;
                 Some (L\<lparr>ld_cache := (ld_cache L)(i := None),
                         ld_levels := store_level p l' (ld_levels L)\<rparr>)}
               else Some L)})"

definition ladder_delete :: "book_order \<Rightarrow> book_ladder \<Rightarrow> book_ladder option" where
  "ladder_delete ord L = ladder_remove_order (bo_order_id ord) L"

definition ladder_remove_level ::
    "book_price \<Rightarrow> book_ladder \<Rightarrow> (book_ladder \<times> book_level option) option" where
  "ladder_remove_level p L = do {
     found \<leftarrow> find_level p (ld_levels L);
     Some (case found of
             None \<Rightarrow> (L, None)
           | Some l \<Rightarrow>
               (L\<lparr>ld_levels := bt_remove book_rank p (ld_levels L),
                  ld_cache := fold (\<lambda>i cache. cache(i := None)) (level_ids l) (ld_cache L)\<rparr>,
                Some l))}"

definition ladder_top :: "book_ladder \<Rightarrow> book_level option" where
  "ladder_top L = map_option snd (bt_first (ld_levels L))"

section \<open>Simulated fills\<close>

text \<open>
  The inner loop over the orders of a level. The boolean says whether the target was reached, on
  which the code returns from both loops.
\<close>

fun simulate_orders ::
    "quantity \<Rightarrow> book_order list \<Rightarrow> quantity \<Rightarrow> (price \<times> quantity) list \<Rightarrow>
     (bool \<times> quantity \<times> (price \<times> quantity) list) option"
where
  "simulate_orders target [] cum fills = Some (False, cum, fills)"
| "simulate_orders target (ord # ords) cum fills = do {
     cum' \<leftarrow> quantity_add cum (bo_size ord);
     if quantity_le target cum'
     then do {
       remainder \<leftarrow> quantity_sub target cum;
       Some (True, cum,
             if quantity_is_positive remainder then fills @ [(bo_price ord, remainder)] else fills)}
     else simulate_orders target ords cum' (fills @ [(bo_price ord, bo_size ord)])}"

fun simulate_levels ::
    "book_order \<Rightarrow> order_side_specified \<Rightarrow> book_level list \<Rightarrow> quantity \<Rightarrow> (price \<times> quantity) list \<Rightarrow>
     (price \<times> quantity) list option"
where
  "simulate_levels ord side [] cum fills = Some fills"
| "simulate_levels ord side (l # ls) cum fills =
     (if (side = BuySide \<and> price_lt (bp_value (lv_price l)) (bo_price ord)) \<or>
         (side \<noteq> BuySide \<and> price_lt (bo_price ord) (bp_value (lv_price l)))
      then Some fills
      else do {
        (reached, cum', fills') \<leftarrow> simulate_orders (bo_size ord) (level_get_orders l) cum fills;
        if reached then Some fills' else simulate_levels ord side ls cum' fills'})"

definition ladder_simulate_fills :: "book_order \<Rightarrow> book_ladder \<Rightarrow> (price \<times> quantity) list option" where
  "ladder_simulate_fills ord L = do {
     zero \<leftarrow> quantity_zero (q_precision (bo_size ord));
     simulate_levels ord (ld_side L) (map snd (ld_levels L)) zero []}"

end
