(* ===== verification/Book_Invariants.thy ===== *)
theory Book_Invariants
  imports Book_Ladder
begin

text \<open>
  The invariant of a ladder and its abstraction to a map from order ids to orders. Every operation
  of the ladder is characterised on the orders found at each price; the invariant and the effect on
  the map follow from that.
\<close>

section \<open>Levels by price\<close>

definition level_at :: "order_side_specified \<Rightarrow> (book_price \<times> book_level) list \<Rightarrow> int \<Rightarrow> book_level option" where
  "level_at s levels raw =
     bt_get book_rank \<lparr>bp_value = \<lparr>p_raw = raw, p_precision = 0\<rparr>, bp_side = s\<rparr> levels"

definition order_at ::
    "order_side_specified \<Rightarrow> (book_price \<times> book_level) list \<Rightarrow> int \<Rightarrow> nat \<Rightarrow> book_order option" where
  "order_at s levels raw i =
     (case level_at s levels raw of None \<Rightarrow> None | Some l \<Rightarrow> map_of (lv_orders l) i)"

abbreviation raw_of :: "book_price \<Rightarrow> int" where
  "raw_of p \<equiv> p_raw (bp_value p)"

lemma book_rank_inj [simp]:
  "bp_side p = bp_side q \<Longrightarrow> book_rank p = book_rank q \<longleftrightarrow> raw_of p = raw_of q"
  by (cases "bp_side q") (auto simp: book_rank_def)

lemma bt_get_rank: "book_rank p = book_rank q \<Longrightarrow> bt_get book_rank p levels = bt_get book_rank q levels"
  by (induction levels) auto

lemma level_at_get: "bp_side p = s \<Longrightarrow> bt_get book_rank p levels = level_at s levels (raw_of p)"
  unfolding level_at_def by (rule bt_get_rank) simp

lemma level_at_insert:
  "bt_sorted book_rank levels \<Longrightarrow> bp_side p = s \<Longrightarrow>
     level_at s (bt_insert book_rank p l levels) raw =
       (if raw = raw_of p then Some l else level_at s levels raw)"
  by (simp add: level_at_def btree.lookup_insert)

lemma level_at_remove:
  "bt_sorted book_rank levels \<Longrightarrow> bp_side p = s \<Longrightarrow>
     level_at s (bt_remove book_rank p levels) raw =
       (if raw = raw_of p then None else level_at s levels raw)"
  by (simp add: level_at_def btree.lookup_remove)

lemma order_at_insert:
  "bt_sorted book_rank levels \<Longrightarrow> bp_side p = s \<Longrightarrow>
     order_at s (bt_insert book_rank p l levels) raw i =
       (if raw = raw_of p then map_of (lv_orders l) i else order_at s levels raw i)"
  by (simp add: order_at_def level_at_insert)

lemma order_at_store:
  "bt_sorted book_rank levels \<Longrightarrow> bp_side p = s \<Longrightarrow>
     order_at s (store_level p l levels) raw i =
       (if raw = raw_of p then map_of (lv_orders l) i else order_at s levels raw i)"
  by (simp add: order_at_def store_level_def level_at_insert level_at_remove)

lemma order_at_Nil [simp]: "order_at s [] raw i = None"
  by (simp add: order_at_def level_at_def)

section \<open>The invariant\<close>

definition level_ok :: "order_side_specified \<Rightarrow> int \<Rightarrow> book_level \<Rightarrow> bool" where
  "level_ok s raw l \<longleftrightarrow>
     distinct (map fst (lv_orders l)) \<and> bp_side (lv_price l) = s \<and> raw_of (lv_price l) = raw \<and>
     (\<forall>i ord. map_of (lv_orders l) i = Some ord \<longrightarrow>
        bo_order_id ord = i \<and> 0 < q_raw (bo_size ord) \<and>
        as_specified (bo_side ord) = Some s \<and> p_raw (bo_price ord) = raw)"

definition levels_ok :: "order_side_specified \<Rightarrow> (book_price \<times> book_level) list \<Rightarrow> bool" where
  "levels_ok s levels \<longleftrightarrow>
     bt_sorted book_rank levels \<and>
     (\<forall>(k, l) \<in> set levels. bp_side k = s \<and> lv_orders l \<noteq> [] \<and> level_ok s (raw_of k) l)"

definition index_ok :: "book_ladder \<Rightarrow> bool" where
  "index_ok L \<longleftrightarrow>
     (\<forall>i p. ld_cache L i = Some p \<longrightarrow> bp_side p = ld_side L) \<and>
     (\<forall>i raw. order_at (ld_side L) (ld_levels L) raw i \<noteq> None \<longleftrightarrow>
        (\<exists>p. ld_cache L i = Some p \<and> raw_of p = raw))"

definition ladder_inv :: "book_ladder \<Rightarrow> bool" where
  "ladder_inv L \<longleftrightarrow> levels_ok (ld_side L) (ld_levels L) \<and> index_ok L"

text \<open>The orders of a ladder by id.\<close>

definition ladder_orders :: "book_ladder \<Rightarrow> nat \<rightharpoonup> book_order" where
  "ladder_orders L i =
     (case ld_cache L i of
        None \<Rightarrow> None
      | Some p \<Rightarrow> order_at (ld_side L) (ld_levels L) (raw_of p) i)"

lemma level_okD:
  assumes "level_ok s raw l" and "map_of (lv_orders l) i = Some ord"
  shows "bo_order_id ord = i" "0 < q_raw (bo_size ord)" "as_specified (bo_side ord) = Some s"
    "p_raw (bo_price ord) = raw" "raw_of (lv_price l) = raw"
  using assms by (simp_all add: level_ok_def)

lemma levels_ok_sorted: "levels_ok s levels \<Longrightarrow> bt_sorted book_rank levels"
  by (simp add: levels_ok_def)

lemma levels_ok_Nil [simp]: "levels_ok s []"
  by (simp add: levels_ok_def)

lemma levels_ok_comparable: "levels_ok s levels \<Longrightarrow> bp_side p = s \<Longrightarrow> comparable p levels"
  by (auto simp: levels_ok_def comparable_def list_all_iff)

lemma levels_ok_find:
  "levels_ok s levels \<Longrightarrow> bp_side p = s \<Longrightarrow> find_level p levels = Some (level_at s levels (raw_of p))"
  by (simp add: find_level_def levels_ok_comparable level_at_get)

lemma levels_ok_at:
  assumes "levels_ok s levels" and "level_at s levels raw = Some l"
  shows "level_ok s raw l" and "lv_orders l \<noteq> []"
proof -
  from assms(2) obtain k where k: "(k, l) \<in> set levels"
      and r: "book_rank k = book_rank \<lparr>bp_value = \<lparr>p_raw = raw, p_precision = 0\<rparr>, bp_side = s\<rparr>"
    using bt_get_in [OF assms(2) [unfolded level_at_def]] by blast
  then have "bp_side k = s" "level_ok s (raw_of k) l" "lv_orders l \<noteq> []"
    using assms(1) by (auto simp: levels_ok_def)
  with r show "level_ok s raw l" "lv_orders l \<noteq> []" by simp_all
qed

lemma levels_ok_insert:
  assumes ok: "levels_ok s levels" and side: "bp_side p = s"
    and l: "level_ok s (raw_of p) l" "lv_orders l \<noteq> []"
  shows "levels_ok s (bt_insert book_rank p l levels)"
  unfolding levels_ok_def
proof (intro conjI ballI)
  show "bt_sorted book_rank (bt_insert book_rank p l levels)"
    using ok by (simp add: levels_ok_def)
  fix e assume e: "e \<in> set (bt_insert book_rank p l levels)"
  obtain a b where ab: "e = (a, b)" by (cases e)
  have a: "bp_side a = s" using bt_insert_fst [of a b book_rank p l levels] e ok side
    by (auto simp: ab levels_ok_def)
  have "(a, b) \<in> set levels \<or> book_rank a = book_rank p \<and> b = l"
    using bt_insert_keys e ab by metis
  then show "case e of (k, l) \<Rightarrow> bp_side k = s \<and> lv_orders l \<noteq> [] \<and> level_ok s (raw_of k) l"
    using ok l a side by (auto simp: ab levels_ok_def)
qed

lemma levels_ok_store:
  assumes "levels_ok s levels" and "bp_side p = s" and "level_ok s (raw_of p) l"
  shows "levels_ok s (store_level p l levels)"
  using assms levels_ok_insert [OF assms] bt_remove_subset [of book_rank p levels]
  by (auto simp: store_level_def levels_ok_def)

section \<open>Operations of a level\<close>

lemma level_ok_update:
  assumes "level_ok s raw l" and "0 < q_raw (bo_size ord)" and "as_specified (bo_side ord) = Some s"
    and "p_raw (bo_price ord) = raw"
  shows "level_ok s raw (l\<lparr>lv_orders := AList.update (bo_order_id ord) ord (lv_orders l)\<rparr>)"
  using assms by (auto simp: level_ok_def update_conv' distinct_update split: if_splits)

lemma level_ok_delete:
  assumes "level_ok s raw l"
  shows "level_ok s raw (l\<lparr>lv_orders := AList.delete i (lv_orders l)\<rparr>)"
  using assms by (auto simp: level_ok_def delete_conv' distinct_delete split: if_splits)

lemma positive_raw: "quantity_is_positive q \<Longrightarrow> 0 < q_raw q"
  by (simp add: quantity_is_positive_def)

lemma update_nonempty [simp]: "AList.update k v xs \<noteq> []"
  by (cases xs) auto

section \<open>Operations of a ladder\<close>

text \<open>Inserting an order of the ladder's side never panics and adds just that order.\<close>

lemma insert_order_spec:
  assumes ok: "levels_ok (ld_side L) (ld_levels L)"
    and side: "as_specified (bo_side ord) = Some (ld_side L)"
    and pos: "quantity_is_positive (bo_size ord)"
  defines "p \<equiv> \<lparr>bp_value = bo_price ord, bp_side = ld_side L\<rparr>"
  shows "\<exists>levels. insert_order ord L =
      Some (L\<lparr>ld_cache := (ld_cache L)(bo_order_id ord \<mapsto> p), ld_levels := levels\<rparr>) \<and>
    levels_ok (ld_side L) levels \<and>
    (\<forall>raw i. order_at (ld_side L) levels raw i =
       (if raw = p_raw (bo_price ord) \<and> i = bo_order_id ord then Some ord
        else order_at (ld_side L) (ld_levels L) raw i)) \<and>
    length levels \<le> Suc (length (ld_levels L)) \<and> levels \<noteq> []"
proof -
  let ?s = "ld_side L" and ?ls = "ld_levels L"
  have p: "to_book_price ord = Some p" "bp_side p = ?s" "raw_of p = p_raw (bo_price ord)"
    using side by (simp_all add: to_book_price_def p_def)
  define base where "base = (case level_at ?s ?ls (raw_of p) of Some l \<Rightarrow> l | None \<Rightarrow> level_new p)"
  define l where "l = base\<lparr>lv_orders := AList.update (bo_order_id ord) ord (lv_orders base)\<rparr>"
  have base_ok: "level_ok ?s (raw_of p) base"
    using levels_ok_at(1) [OF ok] p
    by (auto simp: base_def level_new_def level_ok_def split: option.splits)
  then have l_ok: "level_ok ?s (raw_of p) l"
    using level_ok_update [OF base_ok positive_raw [OF pos] side] p by (simp add: l_def)
  have eq: "insert_order ord L = Some (L\<lparr>ld_cache := (ld_cache L)(bo_order_id ord \<mapsto> p),
      ld_levels := bt_insert book_rank p l ?ls\<rparr>)"
    using pos p levels_ok_find [OF ok p(2)]
    by (simp add: insert_order_def level_from_order_def level_add_def l_def base_def level_new_def
        split: option.splits)
  have "levels_ok ?s (bt_insert book_rank p l ?ls)"
    by (rule levels_ok_insert [OF ok p(2) l_ok]) (simp add: l_def)
  moreover have "map_of (lv_orders base) i = order_at ?s ?ls (raw_of p) i" for i
    by (auto simp: base_def order_at_def level_new_def split: option.splits)
  then have "order_at ?s (bt_insert book_rank p l ?ls) raw i =
      (if raw = p_raw (bo_price ord) \<and> i = bo_order_id ord then Some ord else order_at ?s ?ls raw i)"
    for raw i
    using p levels_ok_sorted [OF ok] by (simp add: order_at_insert l_def update_conv')
  moreover have "length (bt_insert book_rank p l ?ls) \<le> Suc (length ?ls)"
    "bt_insert book_rank p l ?ls \<noteq> []"
    by (rule bt_insert_length, rule bt_insert_nonempty)
  ultimately show ?thesis using eq by blast
qed

lemma index_ok_insert:
  assumes "index_ok L" and s: "bp_side p = ld_side L"
    and compat: "\<forall>q. ld_cache L (bo_order_id ord) = Some q \<longrightarrow> raw_of q = raw_of p"
    and new: "\<forall>raw i. order_at (ld_side L) levels raw i =
       (if raw = raw_of p \<and> i = bo_order_id ord then Some ord
        else order_at (ld_side L) (ld_levels L) raw i)"
  shows "index_ok (L\<lparr>ld_cache := (ld_cache L)(bo_order_id ord \<mapsto> p), ld_levels := levels\<rparr>)"
  using assms by (auto simp: index_ok_def)


lemma ladder_orders_insert:
  assumes "\<forall>raw i. order_at (ld_side L) levels raw i =
       (if raw = raw_of p \<and> i = bo_order_id ord then Some ord
        else order_at (ld_side L) (ld_levels L) raw i)"
  shows "ladder_orders (L\<lparr>ld_cache := (ld_cache L)(bo_order_id ord \<mapsto> p), ld_levels := levels\<rparr>) =
    (ladder_orders L)(bo_order_id ord \<mapsto> ord)"
  using assms by (auto simp: ladder_orders_def fun_eq_iff split: option.splits)

text \<open>What is common to removing an order and to changing it within its level.\<close>

lemma index_ok_only:
  assumes "index_ok L" and "ld_cache L i = Some p"
    and "order_at (ld_side L) (ld_levels L) raw i \<noteq> None"
  shows "raw = raw_of p"
proof -
  have "\<exists>q. ld_cache L i = Some q \<and> raw_of q = raw"
    using assms(1,3) unfolding index_ok_def by blast
  with assms(2) show ?thesis by auto
qed

lemma store_level_ladder:
  assumes inv: "ladder_inv L" and p: "ld_cache L i = Some p"
    and l: "level_ok (ld_side L) (raw_of p) l"
    and v: "\<forall>j. map_of (lv_orders l) j =
      (if j = i then v else order_at (ld_side L) (ld_levels L) (raw_of p) j)"
  defines "L' \<equiv> L\<lparr>ld_levels := store_level p l (ld_levels L),
      ld_cache := (if v = None then (ld_cache L)(i := None) else ld_cache L)\<rparr>"
  shows "ladder_inv L'" and "ladder_orders L' = (ladder_orders L)(i := v)"
proof -
  have ok: "levels_ok (ld_side L) (ld_levels L)" and ix: "index_ok L" and s: "bp_side p = ld_side L"
    using inv p by (auto simp: ladder_inv_def index_ok_def)
  have at: "order_at (ld_side L) (store_level p l (ld_levels L)) raw j =
      (if raw = raw_of p \<and> j = i then v else order_at (ld_side L) (ld_levels L) raw j)" for raw j
    using v by (simp add: order_at_store [OF levels_ok_sorted [OF ok] s])
  have elsewhere: "raw \<noteq> raw_of p \<Longrightarrow> order_at (ld_side L) (ld_levels L) raw i = None" for raw
    using index_ok_only [OF ix p] by blast
  have here: "order_at (ld_side L) (ld_levels L) (raw_of p) i \<noteq> None"
    using ix p by (auto simp: index_ok_def)
  have "index_ok L'"
    unfolding index_ok_def
  proof (intro conjI allI)
    fix j q show "ld_cache L' j = Some q \<longrightarrow> bp_side q = ld_side L'"
      using ix by (auto simp: L'_def index_ok_def)
    fix raw
    show "(order_at (ld_side L') (ld_levels L') raw j \<noteq> None) = (\<exists>p. ld_cache L' j = Some p \<and> raw_of p = raw)"
    proof (cases "j = i")
      case True
      then show ?thesis using p elsewhere [of raw] by (auto simp: L'_def at)
    next
      case False
      then show ?thesis using ix by (simp add: L'_def at index_ok_def)
    qed
  qed
  then show "ladder_inv L'"
    using levels_ok_store [OF ok s l] by (simp add: ladder_inv_def L'_def)
  show "ladder_orders L' = (ladder_orders L)(i := v)"
  proof
    fix j show "ladder_orders L' j = ((ladder_orders L)(i := v)) j"
      using p by (cases "j = i") (simp_all add: L'_def ladder_orders_def at split: option.split)
  qed
qed

lemma cached_level:
  assumes "ladder_inv L" and "ld_cache L i = Some p"
  obtains l ord where "find_level p (ld_levels L) = Some (Some l)"
    "level_ok (ld_side L) (raw_of p) l" "map_of (lv_orders l) i = Some ord"
    "\<And>j. map_of (lv_orders l) j = order_at (ld_side L) (ld_levels L) (raw_of p) j"
proof -
  have ok: "levels_ok (ld_side L) (ld_levels L)" and s: "bp_side p = ld_side L"
    and at: "order_at (ld_side L) (ld_levels L) (raw_of p) i \<noteq> None"
    using assms by (auto simp: ladder_inv_def index_ok_def)
  then obtain l where l: "level_at (ld_side L) (ld_levels L) (raw_of p) = Some l"
    by (auto simp: order_at_def split: option.splits)
  with at obtain ord where "map_of (lv_orders l) i = Some ord" by (auto simp: order_at_def)
  from that [OF _ levels_ok_at(1) [OF ok l] this] show thesis
    by (simp add: levels_ok_find [OF ok s] l order_at_def)
qed

lemma found_level:
  assumes "ladder_inv L" and "ld_cache L i = Some p" and "find_level p (ld_levels L) = Some (Some l)"
  shows "level_ok (ld_side L) (raw_of p) l \<and> map_of (lv_orders l) i \<noteq> None \<and>
    (\<forall>j. map_of (lv_orders l) j = order_at (ld_side L) (ld_levels L) (raw_of p) j)"
  by (rule cached_level [OF assms(1,2)]) (use assms(3) in simp)

lemma ladder_remove_order_spec:
  assumes inv: "ladder_inv L"
  shows "\<exists>L'. ladder_remove_order i L = Some L' \<and> ladder_inv L' \<and>
    ladder_orders L' = (ladder_orders L)(i := None) \<and> ld_side L' = ld_side L \<and>
    ld_book_type L' = ld_book_type L \<and> ld_batch_state L' = ld_batch_state L"
proof (cases "ld_cache L i")
  case None
  then have "ladder_orders L = (ladder_orders L)(i := None)" by (auto simp: ladder_orders_def)
  then show ?thesis using None inv by (simp add: ladder_remove_order_def)
next
  case (Some p)
  from cached_level [OF inv Some] obtain l ord where l: "find_level p (ld_levels L) = Some (Some l)"
    "level_ok (ld_side L) (raw_of p) l" "map_of (lv_orders l) i = Some ord"
    "\<And>j. map_of (lv_orders l) j = order_at (ld_side L) (ld_levels L) (raw_of p) j" by blast
  let ?l = "l\<lparr>lv_orders := AList.delete i (lv_orders l)\<rparr>"
  have "ladder_remove_order i L = Some (L\<lparr>ld_levels := store_level p ?l (ld_levels L),
      ld_cache := (if (None :: book_order option) = None then (ld_cache L)(i := None) else ld_cache L)\<rparr>)"
    using Some l by (simp add: ladder_remove_order_def level_remove_by_id_def)
  moreover have "\<forall>j. map_of (lv_orders ?l) j =
      (if j = i then None else order_at (ld_side L) (ld_levels L) (raw_of p) j)"
    using l(4) by (simp add: delete_conv')
  ultimately show ?thesis
    using store_level_ladder [OF inv Some level_ok_delete [OF l(2)], where v = None] by simp
qed

lemma ladder_clear_simps [simp]:
  "ld_side (ladder_clear L) = ld_side L" "ld_book_type (ladder_clear L) = ld_book_type L"
  "ld_levels (ladder_clear L) = []" "ld_cache (ladder_clear L) = Map.empty"
  "ld_batch_state (ladder_clear L) = NoBatch"
  by (simp_all add: ladder_clear_def)

lemma ladder_inv_empty:
  "ld_levels L = [] \<Longrightarrow> ld_cache L = Map.empty \<Longrightarrow> ladder_inv L \<and> ladder_orders L = Map.empty"
  by (auto simp: ladder_inv_def index_ok_def ladder_orders_def)

lemma ladder_inv_batch [simp]:
  "ladder_inv (L\<lparr>ld_batch_state := b\<rparr>) = ladder_inv L"
  "ladder_orders (L\<lparr>ld_batch_state := b\<rparr>) = ladder_orders L"
  by (simp_all add: ladder_inv_def index_ok_def ladder_orders_def fun_eq_iff split: option.split)

lemma insert_order_inv:
  assumes inv: "ladder_inv L" and side: "as_specified (bo_side ord) = Some (ld_side L)"
    and pos: "quantity_is_positive (bo_size ord)"
    and compat: "\<forall>q. ld_cache L (bo_order_id ord) = Some q \<longrightarrow> raw_of q = p_raw (bo_price ord)"
  shows "\<exists>L'. insert_order ord L = Some L' \<and> ladder_inv L' \<and>
    ladder_orders L' = (ladder_orders L)(bo_order_id ord \<mapsto> ord) \<and> ld_side L' = ld_side L \<and>
    ld_book_type L' = ld_book_type L \<and> ld_batch_state L' = ld_batch_state L \<and>
    length (ld_levels L') \<le> Suc (length (ld_levels L))"
proof -
  let ?p = "\<lparr>bp_value = bo_price ord, bp_side = ld_side L\<rparr>"
  have ok: "levels_ok (ld_side L) (ld_levels L)" and ix: "index_ok L"
    using inv by (simp_all add: ladder_inv_def)
  from insert_order_spec [OF ok side pos] obtain levels where
    e: "insert_order ord L = Some (L\<lparr>ld_cache := (ld_cache L)(bo_order_id ord \<mapsto> ?p), ld_levels := levels\<rparr>)"
    and l: "levels_ok (ld_side L) levels" "length levels \<le> Suc (length (ld_levels L))"
    and at: "\<forall>raw i. order_at (ld_side L) levels raw i =
       (if raw = p_raw (bo_price ord) \<and> i = bo_order_id ord then Some ord
        else order_at (ld_side L) (ld_levels L) raw i)" by blast
  have "index_ok (L\<lparr>ld_cache := (ld_cache L)(bo_order_id ord \<mapsto> ?p), ld_levels := levels\<rparr>)"
    by (rule index_ok_insert [OF ix]) (use compat at in simp_all)
  moreover have "ladder_orders (L\<lparr>ld_cache := (ld_cache L)(bo_order_id ord \<mapsto> ?p), ld_levels := levels\<rparr>) =
      (ladder_orders L)(bo_order_id ord \<mapsto> ord)"
    by (rule ladder_orders_insert) (use at in simp)
  ultimately show ?thesis using e l by (simp add: ladder_inv_def)
qed

text \<open>Ladders that keep more than the best level.\<close>

lemma ladder_add_ignored:
  "ld_book_type L \<noteq> L1_MBP \<Longrightarrow> \<not> quantity_is_positive (bo_size ord) \<Longrightarrow> ladder_add ord flags L = Some L"
  by (simp add: ladder_add_def)

lemma ladder_add_deep:
  "ld_book_type L \<noteq> L1_MBP \<Longrightarrow> quantity_is_positive (bo_size ord) \<Longrightarrow>
     insert_order ord L = Some L' \<Longrightarrow> ld_book_type L' = ld_book_type L \<Longrightarrow> ladder_add ord flags L = Some L'"
  by (simp add: ladder_add_def)

lemma ladder_add_spec:
  assumes "ladder_inv L" and "as_specified (bo_side ord) = Some (ld_side L)"
    and "quantity_is_positive (bo_size ord)" and "ld_book_type L \<noteq> L1_MBP"
    and "\<forall>q. ld_cache L (bo_order_id ord) = Some q \<longrightarrow> raw_of q = p_raw (bo_price ord)"
  shows "\<exists>L'. ladder_add ord flags L = Some L' \<and> ladder_inv L' \<and>
    ladder_orders L' = (ladder_orders L)(bo_order_id ord \<mapsto> ord) \<and> ld_side L' = ld_side L \<and>
    ld_book_type L' = ld_book_type L"
  using insert_order_inv [OF assms(1-3,5)] ladder_add_deep [OF assms(4,3)] by blast

text \<open>Removing the order from its level, as an update to another price does first.\<close>

lemma level_delete_ladder:
  assumes inv: "ladder_inv L" and p: "ld_cache L (bo_order_id ord) = Some p"
    and l: "find_level p (ld_levels L) = Some (Some l)"
  defines "L' \<equiv> L\<lparr>ld_cache := (ld_cache L)(bo_order_id ord := None),
      ld_levels := store_level p (level_delete ord l) (ld_levels L)\<rparr>"
  shows "ladder_inv L' \<and> ladder_orders L' = (ladder_orders L)(bo_order_id ord := None) \<and>
    ladder_remove_order (bo_order_id ord) L = Some L'"
proof -
  note l' = found_level [OF inv p l]
  have "ladder_remove_order (bo_order_id ord) L = Some L'"
    using p l l' by (auto simp: ladder_remove_order_def level_remove_by_id_def L'_def level_delete_def)
  then show ?thesis using ladder_remove_order_spec [OF inv, of "bo_order_id ord"] by auto
qed

lemma level_update_ladder:
  assumes inv: "ladder_inv L" and p: "ld_cache L (bo_order_id ord) = Some p"
    and l: "find_level p (ld_levels L) = Some (Some l)"
    and eq: "price_eq (bo_price ord) (bp_value (lv_price l))"
    and side: "as_specified (bo_side ord) = Some (ld_side L)"
  defines "L' \<equiv> L\<lparr>ld_levels := store_level p (level_update ord l) (ld_levels L),
      ld_cache := (if q_raw (bo_size ord) = 0 then (ld_cache L)(bo_order_id ord := None)
                   else ld_cache L)\<rparr>"
  shows "ladder_inv L' \<and> ladder_orders L' = (ladder_orders L)(bo_order_id ord :=
    (if q_raw (bo_size ord) = 0 then None else Some ord))"
proof -
  let ?v = "if q_raw (bo_size ord) = 0 then None else Some ord"
  have l': "level_ok (ld_side L) (raw_of p) l"
    "\<And>j. map_of (lv_orders l) j = order_at (ld_side L) (ld_levels L) (raw_of p) j"
    using found_level [OF inv p l] by blast+
  have "p_raw (bo_price ord) = raw_of p" using eq l'(1) by (simp add: price_eq_def level_ok_def)
  then have "level_ok (ld_side L) (raw_of p) (level_update ord l)"
    using level_ok_update [OF l'(1) _ side] level_ok_delete [OF l'(1)] by (simp add: level_update_def)
  moreover have "\<forall>j. map_of (lv_orders (level_update ord l)) j =
      (if j = bo_order_id ord then ?v else order_at (ld_side L) (ld_levels L) (raw_of p) j)"
    using l'(2) by (simp add: level_update_def update_conv' delete_conv')
  ultimately show ?thesis
    using store_level_ladder [OF inv p, of "level_update ord l" ?v] by (auto simp: L'_def)
qed

lemma ladder_update_spec:
  assumes inv: "ladder_inv L" and side: "as_specified (bo_side ord) = Some (ld_side L)"
    and size: "quantity_is_positive (bo_size ord) \<or> q_raw (bo_size ord) = 0"
    and deep: "ld_book_type L \<noteq> L1_MBP"
  shows "\<exists>L'. ladder_update ord flags L = Some L' \<and> ladder_inv L' \<and>
    ladder_orders L' = (ladder_orders L)(bo_order_id ord :=
      (if q_raw (bo_size ord) = 0 then None else Some ord)) \<and>
    ld_side L' = ld_side L \<and> ld_book_type L' = ld_book_type L"
proof -
  have add: "\<exists>L2. (if quantity_is_positive (bo_size ord) then ladder_add ord flags L1 else Some L1) =
      Some L2 \<and> ladder_inv L2 \<and>
      ladder_orders L2 = (ladder_orders L1)(bo_order_id ord :=
        (if q_raw (bo_size ord) = 0 then None else Some ord)) \<and>
      ld_side L2 = ld_side L1 \<and> ld_book_type L2 = ld_book_type L1"
    if "ladder_inv L1" "ld_side L1 = ld_side L" "ld_book_type L1 = ld_book_type L"
      "ld_cache L1 (bo_order_id ord) = None" for L1
  proof (cases "quantity_is_positive (bo_size ord)")
    case True
    then show ?thesis
      using ladder_add_spec [of L1 ord] that side deep by (auto simp: quantity_is_positive_def)
  next
    case False
    then have "q_raw (bo_size ord) = 0" using size by blast
    then show ?thesis using False that by (auto simp: ladder_orders_def fun_eq_iff)
  qed
  show ?thesis
  proof (cases "ld_cache L (bo_order_id ord)")
    case None
    then show ?thesis using add [OF inv] by (simp add: ladder_update_def)
  next
    case (Some p)
    from cached_level [OF inv Some] obtain l where l: "find_level p (ld_levels L) = Some (Some l)"
      by blast
    show ?thesis
    proof (cases "price_eq (bo_price ord) (bp_value (lv_price l))")
      case True
      then show ?thesis
        using level_update_ladder [OF inv Some l True side] Some l by (simp add: ladder_update_def)
    next
      case False
      let ?L = "L\<lparr>ld_cache := (ld_cache L)(bo_order_id ord := None),
          ld_levels := store_level p (level_delete ord l) (ld_levels L)\<rparr>"
      have "ladder_update ord flags L =
          (if quantity_is_positive (bo_size ord) then ladder_add ord flags ?L else Some ?L)"
        using Some l False by (simp add: ladder_update_def)
      then show ?thesis using add [of ?L] level_delete_ladder [OF inv Some l] by auto
    qed
  qed
qed

section \<open>Ladders that keep the best level only\<close>

lemma filter_best:
  assumes "levels_ok s ((k, l) # levels)"
  shows "filter (\<lambda>(p, _). book_price_eq p k) ((k, l) # levels) = [(k, l)]"
proof -
  have "\<not> book_price_eq p k" if "(p, m) \<in> set levels" for p m
  proof
    assume "book_price_eq p k"
    then have "book_rank p = book_rank k" by (simp add: book_price_eq_def price_eq_def)
    moreover have "book_rank k < book_rank p" using assms that by (auto simp: levels_ok_def)
    ultimately show False by simp
  qed
  then have "filter (\<lambda>(p, _). book_price_eq p k) levels = []" by (auto simp: filter_empty_conv)
  then show ?thesis by (simp add: book_price_eq_def price_eq_def)
qed

lemma fold_cache: "fold (\<lambda>i cache. cache(i \<mapsto> p)) is c i = (if i \<in> set is then Some p else c i)"
  by (induction "is" arbitrary: c) auto

lemma rebuild_cache_single: "rebuild_cache [(p, l)] i = (if i \<in> set (level_ids l) then Some p else None)"
  by (simp add: rebuild_cache_def fold_cache)

lemma level_ids_map_of: "i \<in> set (level_ids l) \<longleftrightarrow> map_of (lv_orders l) i \<noteq> None"
  by (auto simp: level_ids_def map_of_eq_None_iff)

lemma single_level_inv:
  assumes "levels_ok (ld_side L) [(p, l)]" and "ld_levels L = [(p, l)]"
    and "ld_cache L = rebuild_cache [(p, l)]"
  shows "ladder_inv L"
proof -
  have s: "bp_side p = ld_side L" using assms(1) by (simp add: levels_ok_def)
  have "order_at (ld_side L) [(p, l)] raw i =
      (if raw = raw_of p then map_of (lv_orders l) i else None)" for raw i
    by (simp add: order_at_def level_at_def s)
  then have "index_ok L"
    using assms(2,3) s by (auto simp: index_ok_def rebuild_cache_single level_ids_map_of)
  then show ?thesis using assms by (simp add: ladder_inv_def)
qed

lemma retain_best_spec:
  assumes "levels_ok (ld_side L) (ld_levels L)" and "1 < length (ld_levels L)"
  shows "ladder_inv (retain_best_only L) \<and> ld_levels (retain_best_only L) = [hd (ld_levels L)]"
proof -
  obtain k l levels where e: "ld_levels L = (k, l) # levels"
    using assms(2) by (cases "ld_levels L") auto
  then have "retain_best_only L = L\<lparr>ld_levels := [(k, l)], ld_cache := rebuild_cache [(k, l)]\<rparr>"
    using assms filter_best [of "ld_side L" k l levels] by (simp add: retain_best_only_def Let_def)
  moreover have "levels_ok (ld_side L) [(k, l)]" using assms(1) e by (simp add: levels_ok_def)
  ultimately show ?thesis using single_level_inv [of "retain_best_only L" k l] e by simp
qed

lemma retain_best_frame [simp]:
  "ld_side (retain_best_only L) = ld_side L" "ld_book_type (retain_best_only L) = ld_book_type L"
  by (simp_all add: retain_best_only_def Let_def split: list.split)

lemma retain_best_few: "length (ld_levels L) \<le> 1 \<Longrightarrow> retain_best_only L = L"
  by (simp add: retain_best_only_def)

definition best_inv :: "book_ladder \<Rightarrow> bool" where
  "best_inv L \<longleftrightarrow> ladder_inv L \<and> ld_book_type L = L1_MBP \<and> length (ld_levels L) \<le> 1"

lemma handle_l1_positive:
  assumes "quantity_is_positive (bo_size ord)"
  shows "\<exists>L1. handle_l1_add ord flags L = (L1, True) \<and> ld_side L1 = ld_side L \<and>
    ld_book_type L1 = ld_book_type L \<and>
    (ld_levels L1 = [] \<and> ld_cache L1 = Map.empty \<or>
     L1 = L \<and> (matches F_MBP flags \<or> matches F_SNAPSHOT flags))"
  using assms by (auto simp: handle_l1_add_def Let_def)

lemma one_level:
  assumes "length levels \<le> 1" and "order_at s levels a i \<noteq> None" and "order_at s levels b j \<noteq> None"
  shows "a = b"
proof -
  obtain e where "levels = [] \<or> levels = [e]" using assms(1) by (cases levels) auto
  then show ?thesis
    using assms(2,3) by (cases e; cases s) (auto simp: order_at_def level_at_def book_rank_def split: if_splits)
qed

text \<open>
  Adding to the single level of an accumulating batch: when a second level appears only the better
  one is kept, otherwise the order joined the level that was there.
\<close>

lemma accumulate_best:
  assumes inv: "ladder_inv L" and side: "as_specified (bo_side ord) = Some (ld_side L)"
    and pos: "quantity_is_positive (bo_size ord)" and one: "length (ld_levels L) \<le> 1"
  shows "\<exists>L'. insert_order ord L = Some L' \<and> ladder_inv (retain_best_only L') \<and>
    length (ld_levels (retain_best_only L')) \<le> 1 \<and> ld_side L' = ld_side L \<and>
    ld_book_type L' = ld_book_type L"
proof -
  let ?p = "\<lparr>bp_value = bo_price ord, bp_side = ld_side L\<rparr>"
  have ok: "levels_ok (ld_side L) (ld_levels L)" and ix: "index_ok L"
    using inv by (simp_all add: ladder_inv_def)
  from insert_order_spec [OF ok side pos] obtain levels where
    e: "insert_order ord L = Some (L\<lparr>ld_cache := (ld_cache L)(bo_order_id ord \<mapsto> ?p), ld_levels := levels\<rparr>)"
    and l: "levels_ok (ld_side L) levels"
    and at: "\<forall>raw i. order_at (ld_side L) levels raw i =
       (if raw = p_raw (bo_price ord) \<and> i = bo_order_id ord then Some ord
        else order_at (ld_side L) (ld_levels L) raw i)" by blast
  let ?L = "L\<lparr>ld_cache := (ld_cache L)(bo_order_id ord \<mapsto> ?p), ld_levels := levels\<rparr>"
  show ?thesis
  proof (cases "length levels \<le> 1")
    case True
    have "raw_of q = p_raw (bo_price ord)" if "ld_cache L (bo_order_id ord) = Some q" for q
    proof (rule one_level [OF True])
      show "order_at (ld_side L) levels (raw_of q) (bo_order_id ord) \<noteq> None"
        using that ix at by (auto simp: index_ok_def)
      show "order_at (ld_side L) levels (p_raw (bo_price ord)) (bo_order_id ord) \<noteq> None"
        using at by simp
    qed
    then have "ladder_inv ?L"
      using insert_order_inv [OF inv side pos] e by auto
    then show ?thesis using e True by (simp add: retain_best_few)
  next
    case False
    then show ?thesis using retain_best_spec [of ?L] e l by simp
  qed
qed

lemma ladder_add_best:
  assumes best: "best_inv L" and side: "as_specified (bo_side ord) = Some (ld_side L)"
  shows "\<exists>L'. ladder_add ord flags L = Some L' \<and> best_inv L' \<and> ld_side L' = ld_side L"
proof (cases "quantity_is_positive (bo_size ord)")
  case False
  then have "ladder_add ord flags L = Some (ladder_clear L)"
    using best by (simp add: ladder_add_def handle_l1_add_def best_inv_def)
  then show ?thesis using best ladder_inv_empty [of "ladder_clear L"] by (simp add: best_inv_def)
next
  case True
  obtain L1 where L1: "handle_l1_add ord flags L = (L1, True)" "ld_side L1 = ld_side L"
    "ld_book_type L1 = L1_MBP" "ladder_inv L1" "length (ld_levels L1) \<le> 1"
    and b: "ld_levels L1 = [] \<and> ld_cache L1 = Map.empty \<or> matches F_MBP flags \<or> matches F_SNAPSHOT flags"
    using handle_l1_positive [OF True, of flags L] best ladder_inv_empty by (fastforce simp: best_inv_def)
  from accumulate_best [OF L1(4) _ True L1(5)] side L1(2) obtain L2 where
    L2: "insert_order ord L1 = Some L2" "ladder_inv (retain_best_only L2)"
      "length (ld_levels (retain_best_only L2)) \<le> 1" "ld_side L2 = ld_side L"
      "ld_book_type L2 = L1_MBP" using L1(3) by auto
  show ?thesis
  proof (cases "matches F_MBP flags \<or> matches F_SNAPSHOT flags")
    case True
    then show ?thesis
      using L1 L2 best by (simp add: ladder_add_def best_inv_def Let_def)
  next
    case False
    then have "ladder_inv L2 \<and> length (ld_levels L2) \<le> 1"
      using b insert_order_inv [OF L1(4), of ord] side L1(2) \<open>quantity_is_positive (bo_size ord)\<close> L2(1)
      by auto
    then show ?thesis using False L1 L2 best by (simp add: ladder_add_def best_inv_def)
  qed
qed

lemma store_level_length:
  assumes "levels_ok s levels" and "find_level p levels = Some (Some l)"
  shows "length (store_level p l' levels) \<le> length levels"
  using assms bt_insert_present [OF levels_ok_sorted [OF assms(1)], of p l'] bt_remove_length
  by (auto simp: store_level_def find_level_def split: if_splits)

lemma ladder_update_best:
  assumes best: "best_inv L" and side: "as_specified (bo_side ord) = Some (ld_side L)"
  shows "\<exists>L'. ladder_update ord flags L = Some L' \<and> best_inv L' \<and> ld_side L' = ld_side L"
proof -
  have inv: "ladder_inv L" and ok: "levels_ok (ld_side L) (ld_levels L)"
    using best by (simp_all add: best_inv_def ladder_inv_def)
  have add: "\<exists>L2. (if quantity_is_positive (bo_size ord) then ladder_add ord flags L1 else Some L1) =
      Some L2 \<and> best_inv L2 \<and> ld_side L2 = ld_side L"
    if "best_inv L1" "ld_side L1 = ld_side L" for L1
    using ladder_add_best [OF that(1), of ord flags] that side by auto
  show ?thesis
  proof (cases "ld_cache L (bo_order_id ord)")
    case None
    then show ?thesis using add [OF best] by (simp add: ladder_update_def)
  next
    case (Some p)
    from cached_level [OF inv Some] obtain l where l: "find_level p (ld_levels L) = Some (Some l)"
      by blast
    note len = order_trans [OF store_level_length [OF ok l]]
    show ?thesis
    proof (cases "price_eq (bo_price ord) (bp_value (lv_price l))")
      case True
      then show ?thesis
        using level_update_ladder [OF inv Some l True side] Some l best len
        by (simp add: ladder_update_def best_inv_def)
    next
      case False
      let ?L = "L\<lparr>ld_cache := (ld_cache L)(bo_order_id ord := None),
          ld_levels := store_level p (level_delete ord l) (ld_levels L)\<rparr>"
      have "ladder_update ord flags L =
          (if quantity_is_positive (bo_size ord) then ladder_add ord flags ?L else Some ?L)"
        using Some l False by (simp add: ladder_update_def)
      moreover have "best_inv ?L"
        using level_delete_ladder [OF inv Some l] best len by (simp add: best_inv_def)
      ultimately show ?thesis using add [of ?L] by simp
    qed
  qed
qed

lemma ladder_remove_best:
  assumes best: "best_inv L" and rem: "ladder_remove_order i L = Some L'"
  shows "best_inv L' \<and> ld_side L' = ld_side L"
proof -
  have inv: "ladder_inv L" and ok: "levels_ok (ld_side L) (ld_levels L)"
    using best by (simp_all add: best_inv_def ladder_inv_def)
  have "length (ld_levels L') \<le> length (ld_levels L)"
    using rem store_level_length [OF ok]
    by (auto simp: ladder_remove_order_def split: option.splits bind_splits if_splits)
  then show ?thesis
    using ladder_remove_order_spec [OF inv, of i] rem best by (auto simp: best_inv_def)
qed

end
