(* ===== verification/Order_Book.thy ===== *)
theory Order_Book
  imports Book_Invariants
begin

text \<open>
  The order book of \<^verbatim>\<open>orderbook/book.rs\<close> with the deltas, snapshots and ticks it is
  fed with, the order preparation of \<^verbatim>\<open>orderbook/aggregation.rs\<close> and the queries of
  \<^verbatim>\<open>orderbook/analysis.rs\<close> that do not compute in floating point. The hash that turns a
  price into an order id is that of a third-party crate and an argument \<^verbatim>\<open>h\<close> of the
  operations. An outer option is a panic.
\<close>

section \<open>Data\<close>

record order_book_delta =
  bd_instrument_id :: string
  bd_action :: book_action
  bd_order :: book_order
  bd_flags :: flags
  bd_sequence :: nat
  bd_ts_event :: nat
  bd_ts_init :: nat

definition delta_new_checked ::
    "string \<Rightarrow> book_action \<Rightarrow> book_order \<Rightarrow> flags \<Rightarrow> nat \<Rightarrow> nat \<Rightarrow> nat \<Rightarrow>
     correctness_error + order_book_delta" where
  "delta_new_checked instrument_id action ord flags sequence ts_event ts_init =
     (case (if action \<in> {AddAction, UpdateAction} then check_positive_quantity (bo_size ord)
            else Inr ()) of
        Inl e \<Rightarrow> Inl e
      | Inr _ \<Rightarrow> Inr \<lparr>bd_instrument_id = instrument_id, bd_action = action, bd_order = ord,
                    bd_flags = flags, bd_sequence = sequence, bd_ts_event = ts_event,
                    bd_ts_init = ts_init\<rparr>)"

definition delta_new ::
    "string \<Rightarrow> book_action \<Rightarrow> book_order \<Rightarrow> flags \<Rightarrow> nat \<Rightarrow> nat \<Rightarrow> nat \<Rightarrow> order_book_delta option"
where
  "delta_new instrument_id action ord flags sequence ts_event ts_init =
     (case delta_new_checked instrument_id action ord flags sequence ts_event ts_init of
        Inl _ \<Rightarrow> None | Inr d \<Rightarrow> Some d)"

definition delta_clear :: "string \<Rightarrow> nat \<Rightarrow> nat \<Rightarrow> nat \<Rightarrow> order_book_delta" where
  "delta_clear instrument_id sequence ts_event ts_init =
     \<lparr>bd_instrument_id = instrument_id, bd_action = ClearAction, bd_order = NULL_ORDER,
      bd_flags = flag_value F_SNAPSHOT, bd_sequence = sequence, bd_ts_event = ts_event,
      bd_ts_init = ts_init\<rparr>"

record order_book_deltas =
  dl_instrument_id :: string
  dl_deltas :: "order_book_delta list"
  dl_flags :: flags
  dl_sequence :: nat
  dl_ts_event :: nat
  dl_ts_init :: nat

definition deltas_new_checked ::
    "string \<Rightarrow> order_book_delta list \<Rightarrow> correctness_error + order_book_deltas" where
  "deltas_new_checked instrument_id deltas =
     (case check_predicate_true (deltas \<noteq> []) of
        Inl e \<Rightarrow> Inl e
      | Inr _ \<Rightarrow>
          (let d = last deltas
           in Inr \<lparr>dl_instrument_id = instrument_id, dl_deltas = deltas, dl_flags = bd_flags d,
                  dl_sequence = bd_sequence d, dl_ts_event = bd_ts_event d,
                  dl_ts_init = bd_ts_init d\<rparr>))"

definition deltas_new :: "string \<Rightarrow> order_book_delta list \<Rightarrow> order_book_deltas option" where
  "deltas_new instrument_id deltas =
     (case deltas_new_checked instrument_id deltas of Inl _ \<Rightarrow> None | Inr d \<Rightarrow> Some d)"

text \<open>The arrays of a depth snapshot have ten entries each.\<close>

record order_book_depth10 =
  dp_instrument_id :: string
  dp_bids :: "book_order list"
  dp_asks :: "book_order list"
  dp_bid_counts :: "nat list"
  dp_ask_counts :: "nat list"
  dp_flags :: flags
  dp_sequence :: nat
  dp_ts_event :: nat
  dp_ts_init :: nat

record quote_tick =
  qt_instrument_id :: string
  qt_bid_price :: price
  qt_ask_price :: price
  qt_bid_size :: quantity
  qt_ask_size :: quantity
  qt_ts_event :: nat
  qt_ts_init :: nat

definition quote_new ::
    "string \<Rightarrow> price \<Rightarrow> price \<Rightarrow> quantity \<Rightarrow> quantity \<Rightarrow> nat \<Rightarrow> nat \<Rightarrow> quote_tick option" where
  "quote_new instrument_id bid ask bid_size ask_size ts_event ts_init =
     (if p_precision bid \<noteq> p_precision ask then None
      else if q_precision bid_size \<noteq> q_precision ask_size then None
      else Some \<lparr>qt_instrument_id = instrument_id, qt_bid_price = bid, qt_ask_price = ask,
                 qt_bid_size = bid_size, qt_ask_size = ask_size, qt_ts_event = ts_event,
                 qt_ts_init = ts_init\<rparr>)"

datatype aggressor_side = NoAggressor | Buyer | Seller

record trade_tick =
  tt_instrument_id :: string
  tt_price :: price
  tt_size :: quantity
  tt_aggressor_side :: aggressor_side
  tt_trade_id :: string
  tt_ts_event :: nat
  tt_ts_init :: nat

datatype book_integrity_error =
    OrderNotFound nat nat nat
  | NoOrderSideError
  | OrderNotFoundForSideResolution nat
  | OrdersCrossed book_price book_price
  | TooManyOrders order_side nat
  | TooManyLevels order_side nat
  | InstrumentMismatch string string

datatype invalid_book_operation =
    PreProcessOrder book_type
  | AddOperation book_type
  | UpdateOperation book_type

section \<open>Preparing orders\<close>

fun side_id :: "order_side \<Rightarrow> nat" where
  "side_id NoOrderSide = 0"
| "side_id Buy = 1"
| "side_id Sell = 2"

definition price_based_order_id :: "(int \<Rightarrow> nat) \<Rightarrow> book_order \<Rightarrow> nat" where
  "price_based_order_id h ord = h (p_raw (bo_price ord))"

definition pre_process_order ::
    "(int \<Rightarrow> nat) \<Rightarrow> book_type \<Rightarrow> book_order \<Rightarrow> flags \<Rightarrow> book_order" where
  "pre_process_order h bt ord flags =
     (case bt of
        L1_MBP \<Rightarrow> ord\<lparr>bo_order_id := side_id (bo_side ord)\<rparr>
      | L2_MBP \<Rightarrow> ord\<lparr>bo_order_id := price_based_order_id h ord\<rparr>
      | L3_MBO \<Rightarrow>
          if matches F_TOB flags then ord\<lparr>bo_order_id := side_id (bo_side ord)\<rparr>
          else if matches F_MBP flags then ord\<lparr>bo_order_id := price_based_order_id h ord\<rparr>
          else ord)"

section \<open>The book\<close>

record order_book =
  ob_instrument_id :: string
  ob_book_type :: book_type
  ob_sequence :: nat
  ob_ts_last :: nat
  ob_update_count :: nat
  ob_bids :: book_ladder
  ob_asks :: book_ladder

definition book_new :: "string \<Rightarrow> book_type \<Rightarrow> order_book" where
  "book_new instrument_id bt =
     \<lparr>ob_instrument_id = instrument_id, ob_book_type = bt, ob_sequence = 0, ob_ts_last = 0,
      ob_update_count = 0, ob_bids = ladder_new BuySide bt, ob_asks = ladder_new SellSide bt\<rparr>"

definition book_reset :: "order_book \<Rightarrow> order_book" where
  "book_reset b =
     b\<lparr>ob_bids := ladder_clear (ob_bids b), ob_asks := ladder_clear (ob_asks b), ob_sequence := 0,
       ob_ts_last := 0, ob_update_count := 0\<rparr>"

definition increment :: "nat \<Rightarrow> nat \<Rightarrow> order_book \<Rightarrow> order_book" where
  "increment sequence ts_event b =
     b\<lparr>ob_sequence := max sequence (ob_sequence b), ob_ts_last := max ts_event (ob_ts_last b),
       ob_update_count := saturating_add_u 64 (ob_update_count b) 1\<rparr>"

text \<open>The match on the side of an order: the same operation on the bids or on the asks.\<close>

definition on_side ::
    "order_side \<Rightarrow> (book_ladder \<Rightarrow> book_ladder option) \<Rightarrow> order_book \<Rightarrow> order_book option" where
  "on_side side f b = do {
     s \<leftarrow> as_specified side;
     (case s of
        BuySide \<Rightarrow> do { L \<leftarrow> f (ob_bids b); Some (b\<lparr>ob_bids := L\<rparr>) }
      | SellSide \<Rightarrow> do { L \<leftarrow> f (ob_asks b); Some (b\<lparr>ob_asks := L\<rparr>) })}"

definition book_add ::
    "(int \<Rightarrow> nat) \<Rightarrow> book_order \<Rightarrow> flags \<Rightarrow> nat \<Rightarrow> nat \<Rightarrow> order_book \<Rightarrow> order_book option" where
  "book_add h ord flags sequence ts_event b =
     (let ord' = pre_process_order h (ob_book_type b) ord flags
      in map_option (increment sequence ts_event)
           (on_side (bo_side ord') (ladder_add ord' flags) b))"

definition book_update ::
    "(int \<Rightarrow> nat) \<Rightarrow> book_order \<Rightarrow> flags \<Rightarrow> nat \<Rightarrow> nat \<Rightarrow> order_book \<Rightarrow> order_book option" where
  "book_update h ord flags sequence ts_event b =
     (let ord' = pre_process_order h (ob_book_type b) ord flags
      in map_option (increment sequence ts_event)
           (on_side (bo_side ord') (ladder_update ord' flags) b))"

definition book_delete ::
    "(int \<Rightarrow> nat) \<Rightarrow> book_order \<Rightarrow> flags \<Rightarrow> nat \<Rightarrow> nat \<Rightarrow> order_book \<Rightarrow> order_book option" where
  "book_delete h ord flags sequence ts_event b =
     (let ord' = pre_process_order h (ob_book_type b) ord flags
      in map_option (increment sequence ts_event)
           (on_side (bo_side ord') (ladder_delete ord') b))"

definition book_clear :: "nat \<Rightarrow> nat \<Rightarrow> order_book \<Rightarrow> order_book" where
  "book_clear sequence ts_event b =
     increment sequence ts_event
       (b\<lparr>ob_bids := ladder_clear (ob_bids b), ob_asks := ladder_clear (ob_asks b)\<rparr>)"

definition book_clear_bids :: "nat \<Rightarrow> nat \<Rightarrow> order_book \<Rightarrow> order_book" where
  "book_clear_bids sequence ts_event b =
     increment sequence ts_event (b\<lparr>ob_bids := ladder_clear (ob_bids b)\<rparr>)"

definition book_clear_asks :: "nat \<Rightarrow> nat \<Rightarrow> order_book \<Rightarrow> order_book" where
  "book_clear_asks sequence ts_event b =
     increment sequence ts_event (b\<lparr>ob_asks := ladder_clear (ob_asks b)\<rparr>)"

section \<open>Queries of the top\<close>

definition has_bid :: "order_book \<Rightarrow> bool" where
  "has_bid b \<longleftrightarrow> (case ladder_top (ob_bids b) of None \<Rightarrow> False | Some l \<Rightarrow> lv_orders l \<noteq> [])"

definition has_ask :: "order_book \<Rightarrow> bool" where
  "has_ask b \<longleftrightarrow> (case ladder_top (ob_asks b) of None \<Rightarrow> False | Some l \<Rightarrow> lv_orders l \<noteq> [])"

definition best_bid_price :: "order_book \<Rightarrow> price option" where
  "best_bid_price b = map_option (\<lambda>l. bp_value (lv_price l)) (ladder_top (ob_bids b))"

definition best_ask_price :: "order_book \<Rightarrow> price option" where
  "best_ask_price b = map_option (\<lambda>l. bp_value (lv_price l)) (ladder_top (ob_asks b))"

definition best_bid_size :: "order_book \<Rightarrow> quantity option" where
  "best_bid_size b = do { l \<leftarrow> ladder_top (ob_bids b); map_option bo_size (level_first l) }"

definition best_ask_size :: "order_book \<Rightarrow> quantity option" where
  "best_ask_size b = do { l \<leftarrow> ladder_top (ob_asks b); map_option bo_size (level_first l) }"

section \<open>Stale levels\<close>

fun remove_levels ::
    "book_price list \<Rightarrow> book_ladder \<Rightarrow> (book_ladder \<times> book_level list) option" where
  "remove_levels [] L = Some (L, [])"
| "remove_levels (p # ps) L = do {
     (L1, removed) \<leftarrow> ladder_remove_level p L;
     (L2, rest) \<leftarrow> remove_levels ps L1;
     Some (L2, (case removed of None \<Rightarrow> rest | Some l \<Rightarrow> l # rest))}"

definition clear_stale_levels ::
    "order_side option \<Rightarrow> order_book \<Rightarrow> (order_book \<times> book_level list option) option" where
  "clear_stale_levels side b =
     (if ob_book_type b = L1_MBP then Some (b, None)
      else case (best_bid_price b, best_ask_price b) of
             (Some best_bid, Some best_ask) \<Rightarrow>
               if price_le best_bid best_ask then Some (b, None)
               else
                 let clear_bids = (side \<noteq> Some Sell);
                     clear_asks = (side \<noteq> Some Buy);
                     ask_prices = (if clear_asks
                       then takeWhile (\<lambda>p. price_le (bp_value p) best_bid)
                              (map fst (ld_levels (ob_asks b)))
                       else []);
                     bid_prices = (if clear_bids
                       then takeWhile (\<lambda>p. price_le best_ask (bp_value p))
                              (map fst (ld_levels (ob_bids b)))
                       else [])
                 in if ask_prices = [] \<and> bid_prices = [] then Some (b, None)
                    else do {
                      (bids, removed_bids) \<leftarrow> remove_levels bid_prices (ob_bids b);
                      (asks, removed_asks) \<leftarrow> remove_levels ask_prices (ob_asks b);
                      let b' = increment (ob_sequence b) (ob_ts_last b)
                                 (b\<lparr>ob_bids := bids, ob_asks := asks\<rparr>);
                      let removed = removed_bids @ removed_asks;
                      Some (b', if removed = [] then None else Some removed)}
           | _ \<Rightarrow> Some (b, None))"

section \<open>Deltas\<close>

definition resolve_no_side_order :: "book_order \<Rightarrow> order_book \<Rightarrow> book_integrity_error + book_order" where
  "resolve_no_side_order ord b =
     (case (case ld_cache (ob_bids b) (bo_order_id ord) of
              Some p \<Rightarrow> Some p | None \<Rightarrow> ld_cache (ob_asks b) (bo_order_id ord)) of
        None \<Rightarrow> Inl (OrderNotFoundForSideResolution (bo_order_id ord))
      | Some p \<Rightarrow> Inr (ord\<lparr>bo_side := as_order_side (bp_side p)\<rparr>))"

text \<open>The order a delta is applied with, or the result with which the code returns early.\<close>

definition resolve_delta ::
    "order_book_delta \<Rightarrow> order_book \<Rightarrow> (book_integrity_error + unit) + book_order" where
  "resolve_delta d b =
     (let ord = bd_order d
      in if bo_side ord = NoOrderSide \<and> bo_order_id ord \<noteq> 0
         then (case resolve_no_side_order ord b of
                 Inr resolved \<Rightarrow> Inr resolved
               | Inl (OrderNotFoundForSideResolution _) \<Rightarrow>
                   (case bd_action d of
                      AddAction \<Rightarrow> Inl (Inl NoOrderSideError)
                    | UpdateAction \<Rightarrow> Inl (Inr ())
                    | DeleteAction \<Rightarrow> Inl (Inr ())
                    | ClearAction \<Rightarrow> Inr ord)
               | Inl e \<Rightarrow> Inl (Inl e))
         else Inr ord)"

definition apply_delta_unchecked ::
    "(int \<Rightarrow> nat) \<Rightarrow> order_book_delta \<Rightarrow> order_book \<Rightarrow>
     (order_book \<times> (book_integrity_error + unit)) option" where
  "apply_delta_unchecked h d b =
     (case resolve_delta d b of
        Inl r \<Rightarrow> Some (b, r)
      | Inr ord \<Rightarrow>
          if bo_side ord = NoOrderSide \<and> bd_action d \<noteq> ClearAction
          then Some (b, Inl NoOrderSideError)
          else map_option (\<lambda>b. (b, Inr ()))
                 (case bd_action d of
                    AddAction \<Rightarrow> book_add h ord (bd_flags d) (bd_sequence d) (bd_ts_event d) b
                  | UpdateAction \<Rightarrow> book_update h ord (bd_flags d) (bd_sequence d) (bd_ts_event d) b
                  | DeleteAction \<Rightarrow> book_delete h ord (bd_flags d) (bd_sequence d) (bd_ts_event d) b
                  | ClearAction \<Rightarrow> Some (book_clear (bd_sequence d) (bd_ts_event d) b)))"

definition apply_delta ::
    "(int \<Rightarrow> nat) \<Rightarrow> order_book_delta \<Rightarrow> order_book \<Rightarrow>
     (order_book \<times> (book_integrity_error + unit)) option" where
  "apply_delta h d b =
     (if bd_instrument_id d \<noteq> ob_instrument_id b
      then Some (b, Inl (InstrumentMismatch (ob_instrument_id b) (bd_instrument_id d)))
      else apply_delta_unchecked h d b)"

fun apply_delta_list ::
    "(int \<Rightarrow> nat) \<Rightarrow> order_book_delta list \<Rightarrow> order_book \<Rightarrow>
     (order_book \<times> (book_integrity_error + unit)) option" where
  "apply_delta_list h [] b = Some (b, Inr ())"
| "apply_delta_list h (d # ds) b = do {
     (b', r) \<leftarrow> apply_delta_unchecked h d b;
     (case r of Inl e \<Rightarrow> Some (b', Inl e) | Inr _ \<Rightarrow> apply_delta_list h ds b')}"

definition apply_deltas_unchecked ::
    "(int \<Rightarrow> nat) \<Rightarrow> order_book_deltas \<Rightarrow> order_book \<Rightarrow>
     (order_book \<times> (book_integrity_error + unit)) option" where
  "apply_deltas_unchecked h ds b = apply_delta_list h (dl_deltas ds) b"

definition apply_deltas ::
    "(int \<Rightarrow> nat) \<Rightarrow> order_book_deltas \<Rightarrow> order_book \<Rightarrow>
     (order_book \<times> (book_integrity_error + unit)) option" where
  "apply_deltas h ds b =
     (if dl_instrument_id ds \<noteq> ob_instrument_id b
      then Some (b, Inl (InstrumentMismatch (ob_instrument_id b) (dl_instrument_id ds)))
      else apply_deltas_unchecked h ds b)"

section \<open>Snapshots\<close>

definition snapshot_flags :: "nat \<Rightarrow> nat \<Rightarrow> flags" where
  "snapshot_flags order_count total_orders =
     (if order_count = total_orders then flag_value F_SNAPSHOT OR flag_value F_LAST
      else flag_value F_SNAPSHOT)"

definition ladder_order_list :: "book_ladder \<Rightarrow> book_order list" where
  "ladder_order_list L = concat (map level_get_orders (map snd (ld_levels L)))"

definition to_deltas :: "nat \<Rightarrow> nat \<Rightarrow> order_book \<Rightarrow> order_book_deltas option" where
  "to_deltas ts_event ts_init b =
     (let orders = ladder_order_list (ob_bids b) @ ladder_order_list (ob_asks b);
          total_orders = length orders;
          clear0 = delta_clear (ob_instrument_id b) (ob_sequence b) ts_event ts_init;
          clear = (if total_orders = 0
                   then clear0\<lparr>bd_flags := bd_flags clear0 OR flag_value F_LAST\<rparr> else clear0)
      in do {
        adds \<leftarrow> those (map (\<lambda>(order_count, ord).
            delta_new (ob_instrument_id b) AddAction ord (snapshot_flags order_count total_orders)
              (ob_sequence b) ts_event ts_init)
          (zip [1..<Suc total_orders] orders));
        deltas_new (ob_instrument_id b) (clear # adds)})"

fun depth_orders ::
    "(int \<Rightarrow> nat) \<Rightarrow> order_side \<Rightarrow> book_type \<Rightarrow> flags \<Rightarrow> book_order list \<Rightarrow> book_ladder \<Rightarrow>
     book_ladder option" where
  "depth_orders h side bt flags [] L = Some L"
| "depth_orders h side bt flags (ord # ords) L =
     (if bo_side ord = NoOrderSide \<or> \<not> quantity_is_positive (bo_size ord)
      then depth_orders h side bt flags ords L
      else if bo_side ord \<noteq> side then depth_orders h side bt flags ords L
      else do {
        L' \<leftarrow> ladder_add (pre_process_order h bt ord flags) flags L;
        depth_orders h side bt flags ords L'})"

definition apply_depth_unchecked ::
    "(int \<Rightarrow> nat) \<Rightarrow> order_book_depth10 \<Rightarrow> order_book \<Rightarrow>
     (order_book \<times> (book_integrity_error + unit)) option" where
  "apply_depth_unchecked h depth b = do {
     bids \<leftarrow> depth_orders h Buy (ob_book_type b) (dp_flags depth) (dp_bids depth)
       (ladder_clear (ob_bids b));
     asks \<leftarrow> depth_orders h Sell (ob_book_type b) (dp_flags depth) (dp_asks depth)
       (ladder_clear (ob_asks b));
     Some (increment (dp_sequence depth) (dp_ts_event depth)
             (b\<lparr>ob_bids := bids, ob_asks := asks\<rparr>), Inr ())}"

definition apply_depth ::
    "(int \<Rightarrow> nat) \<Rightarrow> order_book_depth10 \<Rightarrow> order_book \<Rightarrow>
     (order_book \<times> (book_integrity_error + unit)) option" where
  "apply_depth h depth b =
     (if dp_instrument_id depth \<noteq> ob_instrument_id b
      then Some (b, Inl (InstrumentMismatch (ob_instrument_id b) (dp_instrument_id depth)))
      else apply_depth_unchecked h depth b)"

section \<open>Ticks\<close>

definition replace_top :: "book_order \<Rightarrow> book_ladder \<Rightarrow> book_ladder option" where
  "replace_top ord L = do {
     L' \<leftarrow> (case ladder_top L of
             None \<Rightarrow> Some L
           | Some l \<Rightarrow>
               (case level_first l of
                  None \<Rightarrow> Some L
                | Some best \<Rightarrow> ladder_remove_order (bo_order_id best) L));
     ladder_add ord 0 L'}"

definition update_book_bid :: "book_order \<Rightarrow> order_book \<Rightarrow> order_book option" where
  "update_book_bid ord b = do { L \<leftarrow> replace_top ord (ob_bids b); Some (b\<lparr>ob_bids := L\<rparr>) }"

definition update_book_ask :: "book_order \<Rightarrow> order_book \<Rightarrow> order_book option" where
  "update_book_ask ord b = do { L \<leftarrow> replace_top ord (ob_asks b); Some (b\<lparr>ob_asks := L\<rparr>) }"

definition update_quote_tick ::
    "quote_tick \<Rightarrow> order_book \<Rightarrow> (order_book \<times> (invalid_book_operation + unit)) option" where
  "update_quote_tick quote b =
     (if ob_book_type b \<noteq> L1_MBP then Some (b, Inl (UpdateOperation (ob_book_type b)))
      else if qt_ts_event quote < ob_ts_last b then Some (b, Inr ())
      else do {
        let bid = \<lparr>bo_side = Buy, bo_price = qt_bid_price quote, bo_size = qt_bid_size quote,
                   bo_order_id = side_id Buy\<rparr>;
        let ask = \<lparr>bo_side = Sell, bo_price = qt_ask_price quote, bo_size = qt_ask_size quote,
                   bo_order_id = side_id Sell\<rparr>;
        b1 \<leftarrow> update_book_bid bid b;
        b2 \<leftarrow> update_book_ask ask b1;
        Some (increment (saturating_add_u 64 (ob_sequence b2) 1) (qt_ts_event quote) b2, Inr ())})"

definition update_trade_tick ::
    "trade_tick \<Rightarrow> order_book \<Rightarrow> (order_book \<times> (invalid_book_operation + unit)) option" where
  "update_trade_tick trade b =
     (if ob_book_type b \<noteq> L1_MBP then Some (b, Inl (UpdateOperation (ob_book_type b)))
      else if tt_ts_event trade < ob_ts_last b then Some (b, Inr ())
      else do {
        let bid = \<lparr>bo_side = Buy, bo_price = tt_price trade, bo_size = tt_size trade,
                   bo_order_id = side_id Buy\<rparr>;
        let ask = \<lparr>bo_side = Sell, bo_price = tt_price trade, bo_size = tt_size trade,
                   bo_order_id = side_id Sell\<rparr>;
        b1 \<leftarrow> update_book_bid bid b;
        b2 \<leftarrow> update_book_ask ask b1;
        Some (increment (saturating_add_u 64 (ob_sequence b2) 1) (tt_ts_event trade) b2, Inr ())})"

section \<open>Quotes from deltas\<close>

definition price_option_eq :: "price option \<Rightarrow> price option \<Rightarrow> bool" where
  "price_option_eq a c =
     (case (a, c) of (None, None) \<Rightarrow> True | (Some p, Some q) \<Rightarrow> price_eq p q | _ \<Rightarrow> False)"

definition quote_of_book :: "order_book_delta \<Rightarrow> price \<Rightarrow> price \<Rightarrow> order_book \<Rightarrow> quote_tick option" where
  "quote_of_book d bid ask b = do {
     bid_level \<leftarrow> ladder_top (ob_bids b);
     ask_level \<leftarrow> ladder_top (ob_asks b);
     best \<leftarrow> level_first bid_level;
     let precision = q_precision (bo_size best);
     bid_size \<leftarrow> quantity_from_raw (level_size_raw bid_level) precision;
     ask_size \<leftarrow> quantity_from_raw (level_size_raw ask_level) precision;
     quote_new (ob_instrument_id b) bid ask bid_size ask_size (bd_ts_event d) (bd_ts_init d)}"

fun quote_loop ::
    "(int \<Rightarrow> nat) \<Rightarrow> order_book_delta list \<Rightarrow> order_book \<Rightarrow> price option \<Rightarrow> price option \<Rightarrow>
     quote_tick list \<Rightarrow> quote_tick list option" where
  "quote_loop h [] b last_bid last_ask quotes = Some quotes"
| "quote_loop h (d # ds) b last_bid last_ask quotes =
     (case apply_delta h d b of
        Some (b', Inr _) \<Rightarrow>
          (let bid = best_bid_price b';
               ask = best_ask_price b';
               last_bid = (if bid = None \<or> ask = None then None else last_bid);
               last_ask = (if bid = None \<or> ask = None then None else last_ask)
           in case (bid, ask) of
                (Some bid_px, Some ask_px) \<Rightarrow>
                  if \<not> price_option_eq bid last_bid \<or> \<not> price_option_eq ask last_ask
                  then (case quote_of_book d bid_px ask_px b' of
                          None \<Rightarrow> None
                        | Some q \<Rightarrow> quote_loop h ds b' bid ask (quotes @ [q]))
                  else quote_loop h ds b' last_bid last_ask quotes
              | _ \<Rightarrow> quote_loop h ds b' last_bid last_ask quotes)
      | _ \<Rightarrow> None)"

definition deltas_to_quotes ::
    "(int \<Rightarrow> nat) \<Rightarrow> book_type \<Rightarrow> order_book_delta list \<Rightarrow> quote_tick list option" where
  "deltas_to_quotes h bt deltas =
     (case deltas of
        [] \<Rightarrow> None
      | d # _ \<Rightarrow> quote_loop h deltas (book_new (bd_instrument_id d) bt) None None [])"

section \<open>Analysis\<close>

definition book_simulate_fills :: "book_order \<Rightarrow> order_book \<Rightarrow> (price \<times> quantity) list option" where
  "book_simulate_fills ord b = do {
     s \<leftarrow> as_specified (bo_side ord);
     (case s of
        BuySide \<Rightarrow> ladder_simulate_fills ord (ob_asks b)
      | SellSide \<Rightarrow> ladder_simulate_fills ord (ob_bids b))}"

fun worst_px_loop :: "nat \<Rightarrow> (book_price \<times> book_level) list \<Rightarrow> nat \<Rightarrow> price option \<Rightarrow> nat \<times> price option"
where
  "worst_px_loop qty [] cum worst = (cum, worst)"
| "worst_px_loop qty ((p, l) # levels) cum worst =
     (let size_this_level = min (level_size_raw l) (qty - cum)
      in if size_this_level = 0 then worst_px_loop qty levels cum worst
         else if cum + size_this_level \<ge> qty then (cum + size_this_level, Some (bp_value p))
         else worst_px_loop qty levels (cum + size_this_level) (Some (bp_value p)))"

definition levels_worst_px :: "quantity \<Rightarrow> (book_price \<times> book_level) list \<Rightarrow> price option" where
  "levels_worst_px qty levels =
     (let (cum, worst) = worst_px_loop (q_raw qty) levels 0 None
      in if cum = 0 then None else worst)"

definition get_worst_px_for_quantity ::
    "quantity \<Rightarrow> order_side \<Rightarrow> order_book \<Rightarrow> price option option" where
  "get_worst_px_for_quantity qty side b = do {
     s \<leftarrow> as_specified side;
     Some (levels_worst_px qty
       (case s of BuySide \<Rightarrow> ld_levels (ob_asks b) | SellSide \<Rightarrow> ld_levels (ob_bids b)))}"

definition get_quantity_at_level ::
    "price \<Rightarrow> order_side \<Rightarrow> nat \<Rightarrow> order_book \<Rightarrow> quantity option" where
  "get_quantity_at_level px side size_precision b = do {
     s \<leftarrow> as_specified side;
     let levels = (case s of BuySide \<Rightarrow> ld_levels (ob_asks b) | SellSide \<Rightarrow> ld_levels (ob_bids b));
     found \<leftarrow> find_level \<lparr>bp_value = px, bp_side = opposite s\<rparr> levels;
     (case found of
        None \<Rightarrow> quantity_zero size_precision
      | Some l \<Rightarrow> quantity_from_raw (level_size_raw l) size_precision)}"

definition get_orders_at_level :: "price \<Rightarrow> order_side \<Rightarrow> order_book \<Rightarrow> book_order list option" where
  "get_orders_at_level px side b = do {
     s \<leftarrow> as_specified side;
     let levels = (case s of BuySide \<Rightarrow> ld_levels (ob_asks b) | SellSide \<Rightarrow> ld_levels (ob_bids b));
     found \<leftarrow> find_level \<lparr>bp_value = px, bp_side = opposite s\<rparr> levels;
     Some (case found of None \<Rightarrow> [] | Some l \<Rightarrow> level_get_orders l)}"

fun check_level_sizes :: "order_side \<Rightarrow> book_level list \<Rightarrow> book_integrity_error + unit" where
  "check_level_sizes side [] = Inr ()"
| "check_level_sizes side (l # ls) =
     (if length (lv_orders l) > 1 then Inl (TooManyOrders side (length (lv_orders l)))
      else check_level_sizes side ls)"

definition check_book_type :: "order_book \<Rightarrow> book_integrity_error + unit" where
  "check_book_type b =
     (case ob_book_type b of
        L1_MBP \<Rightarrow>
          if length (ld_levels (ob_bids b)) > 1
          then Inl (TooManyLevels Buy (length (ld_levels (ob_bids b))))
          else if length (ld_levels (ob_asks b)) > 1
          then Inl (TooManyLevels Sell (length (ld_levels (ob_asks b))))
          else Inr ()
      | L2_MBP \<Rightarrow>
          (case check_level_sizes Buy (map snd (ld_levels (ob_bids b))) of
             Inl e \<Rightarrow> Inl e
           | Inr _ \<Rightarrow> check_level_sizes Sell (map snd (ld_levels (ob_asks b))))
      | L3_MBO \<Rightarrow> Inr ())"

definition book_check_integrity :: "order_book \<Rightarrow> book_integrity_error + unit" where
  "book_check_integrity b =
     (case check_book_type b of
        Inl e \<Rightarrow> Inl e
      | Inr _ \<Rightarrow>
          (case (ladder_top (ob_bids b), ladder_top (ob_asks b)) of
             (Some bid, Some ask) \<Rightarrow>
               if price_lt (bp_value (lv_price ask)) (bp_value (lv_price bid))
               then Inl (OrdersCrossed (lv_price bid) (lv_price ask)) else Inr ()
           | _ \<Rightarrow> Inr ()))"

end
