(* ===== verification/Book_Properties.thy ===== *)
theory Book_Properties
  imports Order_Book
begin

text \<open>
  The properties of the order book. The locale \<^verbatim>\<open>ladder_contract\<close> is what the book relies
  on in its two ladders: the operations keep a condition on the ladder and do not panic. From it
  follows once and for all that applying a delta keeps the condition on both sides, does not panic
  and leaves the book alone when it returns an error. The contract is met by top-of-book ladders
  and by aggregated ladders, each with the condition that makes them correct.
\<close>

section \<open>Sides of a book\<close>

definition the_ladder :: "order_side_specified \<Rightarrow> order_book \<Rightarrow> book_ladder" where
  "the_ladder s b = (case s of BuySide \<Rightarrow> ob_bids b | SellSide \<Rightarrow> ob_asks b)"

definition set_ladder :: "order_side_specified \<Rightarrow> book_ladder \<Rightarrow> order_book \<Rightarrow> order_book" where
  "set_ladder s L b = (case s of BuySide \<Rightarrow> b\<lparr>ob_bids := L\<rparr> | SellSide \<Rightarrow> b\<lparr>ob_asks := L\<rparr>)"

lemma the_ladder_simps [simp]:
  "the_ladder BuySide b = ob_bids b" "the_ladder SellSide b = ob_asks b"
  "the_ladder s (set_ladder t L b) = (if s = t then L else the_ladder s b)"
  "the_ladder s (increment n ts b) = the_ladder s b"
  "ob_book_type (set_ladder s L b) = ob_book_type b"
  "ob_book_type (increment n ts b) = ob_book_type b"
  "ob_instrument_id (set_ladder s L b) = ob_instrument_id b"
  "ob_instrument_id (increment n ts b) = ob_instrument_id b"
  "ob_sequence (set_ladder s L b) = ob_sequence b"
  by (simp_all add: the_ladder_def set_ladder_def increment_def split: order_side_specified.splits)

lemma on_side_ladder:
  "as_specified side = Some s \<Longrightarrow>
     on_side side f b = map_option (\<lambda>L. set_ladder s L b) (f (the_ladder s b))"
  by (cases s; cases "f (the_ladder s b)") (simp_all add: on_side_def set_ladder_def)

lemma book_clear_simps [simp]:
  "the_ladder s (book_clear n ts b) = ladder_clear (the_ladder s b)"
  "ob_book_type (book_clear n ts b) = ob_book_type b"
  "ob_instrument_id (book_clear n ts b) = ob_instrument_id b"
  by (cases s; simp add: book_clear_def increment_def)+

lemma pre_process_simps [simp]:
  "bo_side (pre_process_order h bt ord flags) = bo_side ord"
  "bo_price (pre_process_order h bt ord flags) = bo_price ord"
  "bo_size (pre_process_order h bt ord flags) = bo_size ord"
  by (simp_all add: pre_process_order_def split: book_type.split)

lemma as_specified_None [simp]: "as_specified s = None \<longleftrightarrow> s = NoOrderSide"
  by (cases s) (simp_all add: as_specified_def)

section \<open>Errors\<close>

lemma resolve_delta_side:
  assumes "resolve_delta d b = Inr ord"
  shows "ord = bd_order d \<or> (\<exists>s. ord = (bd_order d)\<lparr>bo_side := as_order_side s\<rparr>)"
  using assms
  by (auto simp: resolve_delta_def resolve_no_side_order_def Let_def
      split: if_splits option.splits book_action.splits)


section \<open>The contract of a ladder\<close>

locale ladder_contract =
  fixes bt :: book_type
    and h :: "int \<Rightarrow> nat"
    and good :: "order_side_specified \<Rightarrow> book_ladder \<Rightarrow> bool"
    and okay :: "book_order \<Rightarrow> bool"
  assumes add_good: "good s L \<Longrightarrow> as_specified (bo_side ord) = Some s \<Longrightarrow> okay ord \<Longrightarrow>
      \<exists>L'. ladder_add (pre_process_order h bt ord flags) flags L = Some L' \<and> good s L'"
    and update_good: "good s L \<Longrightarrow> as_specified (bo_side ord) = Some s \<Longrightarrow> okay ord \<Longrightarrow>
      \<exists>L'. ladder_update (pre_process_order h bt ord flags) flags L = Some L' \<and> good s L'"
    and delete_good: "good s L \<Longrightarrow> as_specified (bo_side ord) = Some s \<Longrightarrow> okay ord \<Longrightarrow>
      \<exists>L'. ladder_delete (pre_process_order h bt ord flags) L = Some L' \<and> good s L'"
    and clear_good: "good s L \<Longrightarrow> good s (ladder_clear L)"
    and okay_side: "okay ord \<Longrightarrow> okay (ord\<lparr>bo_side := side\<rparr>)"
begin

definition book_good :: "order_book \<Rightarrow> bool" where
  "book_good b \<longleftrightarrow> ob_book_type b = bt \<and> (\<forall>s. good s (the_ladder s b))"

lemma on_side_good:
  assumes "book_good b" and "as_specified side = Some s"
    and "\<exists>L'. f (the_ladder s b) = Some L' \<and> good s L'"
  shows "\<exists>b'. map_option (increment n ts) (on_side side f b) = Some b' \<and> book_good b'"
  using assms by (auto simp: on_side_ladder book_good_def)

lemma delta_good:
  assumes good: "book_good b" and okay: "okay (bd_order d)"
  shows "\<exists>b' r. apply_delta h d b = Some (b', r) \<and> book_good b'"
proof (cases "bd_instrument_id d \<noteq> ob_instrument_id b \<or> (\<exists>r. resolve_delta d b = Inl r)")
  case True
  then show ?thesis
    using good by (cases "bd_instrument_id d = ob_instrument_id b")
      (auto simp: apply_delta_def apply_delta_unchecked_def)
next
  case False
  then obtain ord where ord: "resolve_delta d b = Inr ord" "bd_instrument_id d = ob_instrument_id b"
    by (cases "resolve_delta d b") auto
  have okay': "okay ord" using resolve_delta_side [OF ord(1)] okay okay_side by auto
  have bt: "ob_book_type b = bt" and g: "\<And>s. good s (the_ladder s b)"
    using good by (simp_all add: book_good_def)
  show ?thesis
  proof (cases "as_specified (bo_side ord)")
    case None
    then show ?thesis
      using good ord clear_good
      by (auto simp: apply_delta_def apply_delta_unchecked_def book_good_def
          split: book_action.split)
  next
    case (Some s)
    let ?p = "pre_process_order h bt ord (bd_flags d)"
    have side: "as_specified (bo_side ?p) = Some s" "bo_side ord \<noteq> NoOrderSide"
      using Some by (auto simp: as_specified_def)
    have add: "\<exists>b'. book_add h ord (bd_flags d) (bd_sequence d) (bd_ts_event d) b = Some b' \<and> book_good b'"
      using on_side_good [OF good side(1), of "ladder_add ?p (bd_flags d)"] add_good [OF g Some okay']
      by (simp add: book_add_def bt)
    have update: "\<exists>b'. book_update h ord (bd_flags d) (bd_sequence d) (bd_ts_event d) b = Some b' \<and> book_good b'"
      using on_side_good [OF good side(1), of "ladder_update ?p (bd_flags d)"] update_good [OF g Some okay']
      by (simp add: book_update_def bt)
    have delete: "\<exists>b'. book_delete h ord (bd_flags d) (bd_sequence d) (bd_ts_event d) b = Some b' \<and> book_good b'"
      using on_side_good [OF good side(1), of "ladder_delete ?p"] delete_good [OF g Some okay']
      by (simp add: book_delete_def bt)
    have clear: "book_good (book_clear (bd_sequence d) (bd_ts_event d) b)"
      using good clear_good by (simp add: book_good_def)
    show ?thesis
      using ord side(2) add update delete clear
      by (cases "bd_action d") (auto simp: apply_delta_def apply_delta_unchecked_def)
  qed
qed

end

definition delta_step :: "(int \<Rightarrow> nat) \<Rightarrow> order_book \<Rightarrow> order_book_delta \<Rightarrow> order_book option" where
  "delta_step h b d = map_option fst (apply_delta h d b)"

section \<open>Top-of-book\<close>

definition best_ladder :: "order_side_specified \<Rightarrow> book_ladder \<Rightarrow> bool" where
  "best_ladder s L \<longleftrightarrow> best_inv L \<and> ld_side L = s"

interpretation best: ladder_contract L1_MBP h best_ladder "\<lambda>_. True" for h
proof unfold_locales
  fix s L flags and ord :: book_order
  assume good: "best_ladder s L" and side: "as_specified (bo_side ord) = Some s"
  let ?p = "pre_process_order h L1_MBP ord flags"
  have side': "as_specified (bo_side ?p) = Some (ld_side L)"
    using good side by (simp add: best_ladder_def)
  have b: "best_inv L" using good by (simp add: best_ladder_def)
  show "\<exists>L'. ladder_add ?p flags L = Some L' \<and> best_ladder s L'"
    using ladder_add_best [OF b side', of flags] good unfolding best_ladder_def by metis
  show "\<exists>L'. ladder_update ?p flags L = Some L' \<and> best_ladder s L'"
    using ladder_update_best [OF b side', of flags] good unfolding best_ladder_def by metis
  obtain L' where "ladder_remove_order (bo_order_id ?p) L = Some L'"
    using ladder_remove_order_spec [of L "bo_order_id ?p"] b unfolding best_inv_def by blast
  with ladder_remove_best [OF b this] show "\<exists>L'. ladder_delete ?p L = Some L' \<and> best_ladder s L'"
    using good by (simp add: best_ladder_def ladder_delete_def)
next
  fix s L
  assume "best_ladder s L"
  then show "best_ladder s (ladder_clear L)"
    using ladder_inv_empty [of "ladder_clear L"] by (simp add: best_ladder_def best_inv_def)
qed simp

interpretation best_books: total_machine "delta_step h" "best.book_good" "\<lambda>_. True" for h
proof unfold_locales
  fix b d b'
  assume good: "best.book_good b"
  note d = best.delta_good [OF good TrueI, where h = h and d = d]
  show "delta_step h b d \<noteq> None" using d by (auto simp: delta_step_def)
  show "delta_step h b d = Some b' \<Longrightarrow> best.book_good b'" using d by (auto simp: delta_step_def)
qed


section \<open>Aggregated books\<close>

text \<open>
  In an aggregated book the id of an order is the hash of its price. The condition on the hash is
  that it does not collide on 64-bit raw prices.
\<close>

definition hash_ok :: "(int \<Rightarrow> nat) \<Rightarrow> bool" where
  "hash_ok h \<longleftrightarrow> inj_on h {raw. in_i 64 raw}"

definition level_ladder :: "(int \<Rightarrow> nat) \<Rightarrow> order_side_specified \<Rightarrow> book_ladder \<Rightarrow> bool" where
  "level_ladder h s L \<longleftrightarrow>
     hash_ok h \<and> ladder_inv L \<and> ld_side L = s \<and> ld_book_type L = L2_MBP \<and>
     (\<forall>i ord. ladder_orders L i = Some ord \<longrightarrow>
        i = h (p_raw (bo_price ord)) \<and> in_i 64 (p_raw (bo_price ord)) \<and> q_raw (bo_size ord) < 2 ^ 64)"

definition level_order :: "book_order \<Rightarrow> bool" where
  "level_order ord \<longleftrightarrow>
     in_i 64 (p_raw (bo_price ord)) \<and> q_raw (bo_size ord) < 2 ^ 64 \<and>
     q_raw (bo_size ord) \<noteq> QUANTITY_UNDEF"

lemma cached_order:
  assumes "ladder_inv L" and "ld_cache L i = Some p"
  shows "\<exists>ord. ladder_orders L i = Some ord \<and> p_raw (bo_price ord) = raw_of p"
proof -
  from cached_level [OF assms] obtain l ord where
    l: "level_ok (ld_side L) (raw_of p) l" "map_of (lv_orders l) i = Some ord"
      "\<And>j. map_of (lv_orders l) j = order_at (ld_side L) (ld_levels L) (raw_of p) j" by blast
  then have "ladder_orders L i = Some ord" using assms(2) l(3) [of i] by (simp add: ladder_orders_def)
  moreover have "p_raw (bo_price ord) = raw_of p" using l by (auto simp: level_ok_def)
  ultimately show ?thesis by blast
qed

lemma level_ladder_compat:
  assumes "level_ladder h s L" and "level_order ord"
    and "ld_cache L (h (p_raw (bo_price ord))) = Some q"
  shows "raw_of q = p_raw (bo_price ord)"
proof -
  from cached_order [OF _ assms(3)] assms(1) obtain ord' where
    o': "ladder_orders L (h (p_raw (bo_price ord))) = Some ord'" "p_raw (bo_price ord') = raw_of q"
    by (auto simp: level_ladder_def)
  then have "h (p_raw (bo_price ord)) = h (raw_of q)" "in_i 64 (raw_of q)"
    using assms(1) unfolding level_ladder_def by metis+
  then show ?thesis
    using assms(1,2) by (auto simp: level_ladder_def level_order_def hash_ok_def inj_on_def)
qed

text \<open>The effect of the operations on the orders by id, and so on the invariant.\<close>

definition level_effect :: "book_action \<Rightarrow> book_order \<Rightarrow> book_order option \<Rightarrow> book_order option" where
  "level_effect a ord old =
     (case a of
        AddAction \<Rightarrow> if quantity_is_positive (bo_size ord) then Some ord else old
      | UpdateAction \<Rightarrow> if q_raw (bo_size ord) = 0 then None else Some ord
      | DeleteAction \<Rightarrow> None
      | ClearAction \<Rightarrow> None)"

definition ladder_op :: "book_action \<Rightarrow> book_order \<Rightarrow> flags \<Rightarrow> book_ladder \<Rightarrow> book_ladder option" where
  "ladder_op a ord flags L =
     (case a of
        AddAction \<Rightarrow> ladder_add ord flags L
      | UpdateAction \<Rightarrow> ladder_update ord flags L
      | DeleteAction \<Rightarrow> ladder_delete ord L
      | ClearAction \<Rightarrow> Some (ladder_clear L))"

lemma level_ladder_op:
  fixes flags :: flags
  assumes good: "level_ladder h s L" and side: "as_specified (bo_side ord) = Some s"
    and okay: "level_order ord" and a: "a \<noteq> ClearAction"
  defines "p \<equiv> pre_process_order h L2_MBP ord flags"
  shows "\<exists>L'. ladder_op a p flags L = Some L' \<and> level_ladder h s L' \<and>
    ladder_orders L' = (ladder_orders L)(bo_order_id p :=
      level_effect a p (ladder_orders L (bo_order_id p)))"
proof -
  have inv: "ladder_inv L" and bt: "ld_book_type L \<noteq> L1_MBP" and s: "as_specified (bo_side p) = Some (ld_side L)"
    and i: "bo_order_id p = h (p_raw (bo_price p))" and lo: "level_order p"
    and size: "quantity_is_positive (bo_size p) \<or> q_raw (bo_size p) = 0"
    using good side okay
    by (auto simp: level_ladder_def p_def pre_process_order_def price_based_order_id_def level_order_def
        quantity_is_positive_def)
  have compat: "\<forall>q. ld_cache L (bo_order_id p) = Some q \<longrightarrow> raw_of q = p_raw (bo_price p)"
    using level_ladder_compat [OF good lo] i by simp
  have "\<exists>L'. ladder_op a p flags L = Some L' \<and> ladder_inv L' \<and> ld_side L' = ld_side L \<and>
      ld_book_type L' = ld_book_type L \<and> ladder_orders L' = (ladder_orders L)(bo_order_id p :=
        level_effect a p (ladder_orders L (bo_order_id p)))"
  proof (cases a)
    case AddAction
    then show ?thesis
      using ladder_add_spec [OF inv s _ bt compat, of flags] ladder_add_ignored [OF bt, of p flags] inv
      by (cases "quantity_is_positive (bo_size p)") (auto simp: ladder_op_def level_effect_def)
  next
    case UpdateAction
    then show ?thesis
      using ladder_update_spec [OF inv s size bt, of flags] by (auto simp: ladder_op_def level_effect_def)
  next
    case DeleteAction
    then show ?thesis
      using ladder_remove_order_spec [OF inv, of "bo_order_id p"]
      by (auto simp: ladder_op_def level_effect_def ladder_delete_def)
  qed (use a in simp)
  then show ?thesis
    using good i lo
    by (fastforce simp: level_ladder_def level_effect_def level_order_def split: book_action.splits if_splits)
qed

interpretation levels: ladder_contract L2_MBP h "level_ladder h" level_order for h
proof unfold_locales
  fix s L flags and ord :: book_order
  assume op: "level_ladder h s L" "as_specified (bo_side ord) = Some s" "level_order ord"
  let ?p = "pre_process_order h L2_MBP ord flags"
  show "\<exists>L'. ladder_add ?p flags L = Some L' \<and> level_ladder h s L'"
    using level_ladder_op [OF op, of AddAction flags] by (auto simp: ladder_op_def)
  show "\<exists>L'. ladder_update ?p flags L = Some L' \<and> level_ladder h s L'"
    using level_ladder_op [OF op, of UpdateAction flags] by (auto simp: ladder_op_def)
  show "\<exists>L'. ladder_delete ?p L = Some L' \<and> level_ladder h s L'"
    using level_ladder_op [OF op, of DeleteAction flags] by (auto simp: ladder_op_def)
next
  fix s L
  assume "level_ladder h s L"
  then show "level_ladder h s (ladder_clear L)"
    using ladder_inv_empty [of "ladder_clear L"] by (simp add: level_ladder_def)
qed (simp add: level_order_def)

lemma ladder_orders_at:
  assumes "ladder_inv L" and "order_at (ld_side L) (ld_levels L) raw i = Some ord"
  shows "ladder_orders L i = Some ord"
proof -
  have ix: "index_ok L" using assms(1) by (simp add: ladder_inv_def)
  then obtain p where "ld_cache L i = Some p" "raw_of p = raw"
    using assms(2) unfolding index_ok_def by blast
  then show ?thesis using assms(2) by (simp add: ladder_orders_def)
qed

lemma at_ladder_orders:
  assumes "ladder_inv L" and "ladder_orders L i = Some ord"
  shows "order_at (ld_side L) (ld_levels L) (p_raw (bo_price ord)) i = Some ord"
proof -
  obtain p where p: "ld_cache L i = Some p"
    "order_at (ld_side L) (ld_levels L) (raw_of p) i = Some ord"
    using assms(2) by (auto simp: ladder_orders_def split: option.splits)
  with cached_order [OF assms(1) p(1)] assms(2) show ?thesis by auto
qed

lemma single_key:
  assumes "xs \<noteq> []" and "distinct (map fst xs)" and "\<And>i v. map_of xs i = Some v \<Longrightarrow> i = k"
  shows "\<exists>v. xs = [(k, v)]"
proof -
  have key: "fst x = k" if "x \<in> set xs" for x
    using assms(3) [of "fst x" "snd x"] map_of_is_SomeI [OF assms(2), of "fst x" "snd x"] that by simp
  then have "fst ` set xs = {k}" using assms(1) by (cases xs) auto
  then have "length xs = 1" using distinct_card [OF assms(2)] by simp
  then show ?thesis using key by (cases xs) auto
qed

lemma level_ladder_single:
  assumes "level_ladder h s L" and "level_at s (ld_levels L) raw = Some l"
  shows "\<exists>ord. lv_orders l = [(h raw, ord)] \<and> ladder_orders L (h raw) = Some ord \<and> in_i 64 raw \<and>
    level_size_raw l = q_raw (bo_size ord)"
proof -
  have inv: "ladder_inv L" and s: "ld_side L = s" using assms(1) by (simp_all add: level_ladder_def)
  then have l: "level_ok s raw l" "lv_orders l \<noteq> []"
    using levels_ok_at [OF _ assms(2)] by (auto simp: ladder_inv_def)
  have at: "ladder_orders L i = Some ord" if "map_of (lv_orders l) i = Some ord" for i ord
    using ladder_orders_at [OF inv, of raw i ord] assms(2) that s by (simp add: order_at_def)
  have key: "i = h raw" if "map_of (lv_orders l) i = Some ord" for i ord
  proof -
    have "p_raw (bo_price ord) = raw" using l(1) that by (auto simp: level_ok_def)
    then show ?thesis using at [OF that] assms(1) unfolding level_ladder_def by blast
  qed
  have "distinct (map fst (lv_orders l))" using l(1) by (simp add: level_ok_def)
  from single_key [OF l(2) this, of "h raw"] key obtain ord where o: "lv_orders l = [(h raw, ord)]" by blast
  then have "ladder_orders L (h raw) = Some ord" "p_raw (bo_price ord) = raw"
    using at [of "h raw" ord] l(1) by (auto simp: level_ok_def)
  moreover from this have "in_i 64 raw" "q_raw (bo_size ord) < 2 ^ 64"
    using assms(1) unfolding level_ladder_def by blast+
  ultimately show ?thesis using o by (simp add: level_size_raw_def level_get_orders_def)
qed

lemma level_ladder_one:
  assumes "level_ladder h s L"
  shows "\<forall>l \<in> set (map snd (ld_levels L)). length (lv_orders l) \<le> 1"
proof
  fix l assume "l \<in> set (map snd (ld_levels L))"
  then obtain k where k: "(k, l) \<in> set (ld_levels L)" by auto
  moreover have ok: "levels_ok s (ld_levels L)" using assms by (auto simp: level_ladder_def ladder_inv_def)
  ultimately have "bp_side k = s" "bt_get book_rank k (ld_levels L) = Some l"
    by (auto simp: levels_ok_def intro: bt_in_get)
  then have "level_at s (ld_levels L) (raw_of k) = Some l" by (simp add: level_at_get)
  from level_ladder_single [OF assms this] show "length (lv_orders l) \<le> 1" by auto
qed

lemma check_level_sizes_ok:
  "\<forall>l \<in> set ls. length (lv_orders l) \<le> 1 \<Longrightarrow> check_level_sizes side ls = Inr ()"
  by (induction ls) auto

text \<open>A side of the book as its user sees it: the total size at each price.\<close>

definition price_view :: "book_ladder \<Rightarrow> int \<rightharpoonup> nat" where
  "price_view L raw = map_option level_size_raw (level_at (ld_side L) (ld_levels L) raw)"

lemma price_view_orders:
  assumes "level_ladder h s L"
  shows "price_view L raw =
    (if in_i 64 raw then map_option (\<lambda>ord. q_raw (bo_size ord)) (ladder_orders L (h raw)) else None)"
proof (cases "level_at s (ld_levels L) raw")
  case (Some l)
  then show ?thesis
    using level_ladder_single [OF assms Some] assms by (auto simp: price_view_def level_ladder_def)
next
  case None
  have s: "ld_side L = s" and inv: "ladder_inv L" using assms by (simp_all add: level_ladder_def)
  have "ladder_orders L (h raw) = None" if "in_i 64 raw"
  proof (rule ccontr)
    assume "ladder_orders L (h raw) \<noteq> None"
    then obtain ord where o: "ladder_orders L (h raw) = Some ord" by blast
    then have "h raw = h (p_raw (bo_price ord))" "in_i 64 (p_raw (bo_price ord))" "hash_ok h"
      using assms unfolding level_ladder_def by blast+
    then have "raw = p_raw (bo_price ord)" using that by (auto simp: hash_ok_def inj_on_def)
    with at_ladder_orders [OF inv o] None s show False by (simp add: order_at_def)
  qed
  then show ?thesis using None s by (simp add: price_view_def)
qed

definition size_effect :: "book_action \<Rightarrow> quantity \<Rightarrow> nat option \<Rightarrow> nat option" where
  "size_effect a qty old =
     (case a of
        AddAction \<Rightarrow> if quantity_is_positive qty then Some (q_raw qty) else old
      | UpdateAction \<Rightarrow> if q_raw qty = 0 then None else Some (q_raw qty)
      | DeleteAction \<Rightarrow> None
      | ClearAction \<Rightarrow> None)"

lemma price_view_op:
  assumes "level_ladder h s L" and "level_ladder h s L'" and "level_order ord"
    and "bo_order_id ord = h (p_raw (bo_price ord))"
    and "ladder_orders L' = (ladder_orders L)(bo_order_id ord :=
      level_effect a ord (ladder_orders L (bo_order_id ord)))"
  shows "price_view L' = (price_view L)(p_raw (bo_price ord) :=
    size_effect a (bo_size ord) (price_view L (p_raw (bo_price ord))))"
proof
  fix raw
  have "h raw = h (p_raw (bo_price ord)) \<longleftrightarrow> raw = p_raw (bo_price ord)" if "in_i 64 raw"
    using assms(1,3) that by (auto simp: level_ladder_def hash_ok_def inj_on_def level_order_def)
  then show "price_view L' raw = ((price_view L)(p_raw (bo_price ord) :=
      size_effect a (bo_size ord) (price_view L (p_raw (bo_price ord))))) raw"
    using assms(3-5)
    by (auto simp: price_view_orders [OF assms(1)] price_view_orders [OF assms(2)] level_order_def
        level_effect_def size_effect_def split: book_action.split)
qed

text \<open>The abstract book: for each side a map from raw prices to raw sizes.\<close>

definition book_view :: "order_book \<Rightarrow> order_side_specified \<Rightarrow> int \<rightharpoonup> nat" where
  "book_view b = (\<lambda>s. price_view (the_ladder s b))"

definition view_step ::
    "(order_side_specified \<Rightarrow> int \<rightharpoonup> nat) \<Rightarrow> order_book_delta \<Rightarrow> order_side_specified \<Rightarrow> int \<rightharpoonup> nat"
where
  "view_step v d =
     (if bd_action d = ClearAction then (\<lambda>_. Map.empty)
      else case as_specified (bo_side (bd_order d)) of
             None \<Rightarrow> v
           | Some s \<Rightarrow>
               (let raw = p_raw (bo_price (bd_order d))
                in v(s := (v s)(raw := size_effect (bd_action d) (bo_size (bd_order d)) (v s raw)))))"

definition view_delta :: "string \<Rightarrow> order_book_delta \<Rightarrow> bool" where
  "view_delta instrument_id d \<longleftrightarrow>
     bd_instrument_id d = instrument_id \<and> level_order (bd_order d) \<and>
     (bo_side (bd_order d) \<noteq> NoOrderSide \<or> bd_action d = ClearAction)"

definition level_book :: "(int \<Rightarrow> nat) \<Rightarrow> string \<Rightarrow> order_book \<Rightarrow> bool" where
  "level_book h instrument_id b \<longleftrightarrow>
     ob_instrument_id b = instrument_id \<and> ob_book_type b = L2_MBP \<and>
     (\<forall>s. level_ladder h s (the_ladder s b))"

lemma price_view_clear [simp]: "price_view (ladder_clear L) = Map.empty"
  by (simp add: price_view_def level_at_def fun_eq_iff)

lemma apply_delta_on_side:
  assumes "bd_instrument_id d = ob_instrument_id b" and "as_specified (bo_side (bd_order d)) = Some s"
    and "bd_action d \<noteq> ClearAction"
  shows "apply_delta h d b = map_option
    (\<lambda>L. (increment (bd_sequence d) (bd_ts_event d) (set_ladder s L b), Inr ()))
    (ladder_op (bd_action d) (pre_process_order h (ob_book_type b) (bd_order d) (bd_flags d))
       (bd_flags d) (the_ladder s b))"
proof -
  have "bo_side (bd_order d) \<noteq> NoOrderSide" using assms(2) by (auto simp: as_specified_def)
  then show ?thesis
    using assms
    by (cases "bd_action d")
      (simp_all add: apply_delta_def apply_delta_unchecked_def resolve_delta_def book_add_def
        book_update_def book_delete_def ladder_op_def on_side_ladder option.map_comp comp_def Let_def)
qed

lemma apply_delta_clear:
  assumes "bd_instrument_id d = ob_instrument_id b" and "bd_action d = ClearAction"
  shows "apply_delta h d b = Some (book_clear (bd_sequence d) (bd_ts_event d) b, Inr ())"
  using assms
  by (auto simp: apply_delta_def apply_delta_unchecked_def resolve_delta_def resolve_no_side_order_def
      Let_def split: option.split)

lemma level_book_step:
  assumes b: "level_book h instrument_id b" and d: "view_delta instrument_id d"
  shows "\<exists>b'. delta_step h b d = Some b' \<and> level_book h instrument_id b' \<and>
    book_view b' = view_step (book_view b) d"
proof (cases "bd_action d = ClearAction")
  case True
  then have "apply_delta h d b = Some (book_clear (bd_sequence d) (bd_ts_event d) b, Inr ())"
    using b d by (intro apply_delta_clear) (simp_all add: level_book_def view_delta_def)
  then show ?thesis
    using b True levels.clear_good
    by (simp add: delta_step_def level_book_def view_step_def book_view_def)
next
  case False
  let ?p = "pre_process_order h L2_MBP (bd_order d) (bd_flags d)"
  obtain s where s: "as_specified (bo_side (bd_order d)) = Some s"
    using d False by (cases "bo_side (bd_order d)") (auto simp: view_delta_def as_specified_def)
  have L: "level_ladder h s (the_ladder s b)" and o: "level_order (bd_order d)"
    and bt: "ob_book_type b = L2_MBP" and inst: "bd_instrument_id d = ob_instrument_id b"
    using b d by (simp_all add: level_book_def view_delta_def)
  from level_ladder_op [OF L s o False, of "bd_flags d"] obtain L' where
    L': "ladder_op (bd_action d) ?p (bd_flags d) (the_ladder s b) = Some L'" "level_ladder h s L'"
      "ladder_orders L' = (ladder_orders (the_ladder s b))(bo_order_id ?p :=
        level_effect (bd_action d) ?p (ladder_orders (the_ladder s b) (bo_order_id ?p)))" by blast
  have step: "delta_step h b d = Some (increment (bd_sequence d) (bd_ts_event d) (set_ladder s L' b))"
    using apply_delta_on_side [OF inst s False, of h] L'(1) by (simp add: delta_step_def bt)
  have "level_order ?p" "bo_order_id ?p = h (p_raw (bo_price ?p))"
    using o by (simp_all add: level_order_def pre_process_order_def price_based_order_id_def)
  from price_view_op [OF L L'(2) this L'(3)]
  have "book_view (increment (bd_sequence d) (bd_ts_event d) (set_ladder s L' b)) =
      view_step (book_view b) d"
    using s False by (auto simp: view_step_def book_view_def Let_def fun_eq_iff)
  then show ?thesis using step b L'(2) by (simp add: level_book_def)
qed

interpretation level_books: simulation "delta_step h" "level_book h instrument_id"
  "view_delta instrument_id" book_view view_step for h instrument_id
  by unfold_locales (use level_book_step in fastforce)+


definition sample_hash :: "int \<Rightarrow> nat" where
  "sample_hash raw = nat (raw + 2 ^ 63)"

definition sample_delta :: "book_action \<Rightarrow> order_side \<Rightarrow> int \<Rightarrow> nat \<Rightarrow> order_book_delta" where
  "sample_delta a side px n =
     \<lparr>bd_instrument_id = ''I'', bd_action = a,
      bd_order = \<lparr>bo_side = side, bo_price = \<lparr>p_raw = px, p_precision = 0\<rparr>,
                  bo_size = \<lparr>q_raw = n, q_precision = 0\<rparr>, bo_order_id = 0\<rparr>,
      bd_flags = 0, bd_sequence = 1, bd_ts_event = 1, bd_ts_init = 1\<rparr>"

lemma sample_hash_ok: "hash_ok sample_hash"
  by (auto simp: hash_ok_def inj_on_def sample_hash_def in_i_def i_min_def)


end
