(* ===== verification/Book_Queries.thy ===== *)
theory Book_Queries
  imports Book_Properties
begin

text \<open>
  Properties of order books whose ladders satisfy their invariant: the best prices are extreme, a
  crossed book is uncrossed by clearing stale levels, books of individual orders keep a map of
  orders by id, simulated fills are bounded, a snapshot rebuilds the book it was taken from, and
  the sequence number only grows.
\<close>

definition sound_book :: "order_book \<Rightarrow> bool" where
  "sound_book b \<longleftrightarrow> (\<forall>s. ladder_inv (the_ladder s b) \<and> ld_side (the_ladder s b) = s)"

lemma sound_bookD:
  assumes "sound_book b"
  shows "ladder_inv (ob_bids b)" "ld_side (ob_bids b) = BuySide"
    and "ladder_inv (ob_asks b)" "ld_side (ob_asks b) = SellSide"
  using assms unfolding sound_book_def by (metis the_ladder_simps(1), metis the_ladder_simps(1),
      metis the_ladder_simps(2), metis the_ladder_simps(2))

section \<open>A sample book\<close>

definition sample_bid :: book_order where
  "sample_bid =
     \<lparr>bo_side = Buy, bo_price = \<lparr>p_raw = 10, p_precision = 0\<rparr>,
      bo_size = \<lparr>q_raw = 5, q_precision = 0\<rparr>, bo_order_id = 7\<rparr>"

definition sample_ask :: book_order where
  "sample_ask =
     \<lparr>bo_side = Sell, bo_price = \<lparr>p_raw = 8, p_precision = 0\<rparr>,
      bo_size = \<lparr>q_raw = 5, q_precision = 0\<rparr>, bo_order_id = 8\<rparr>"

definition single_ladder :: "order_side_specified \<Rightarrow> book_order \<Rightarrow> book_ladder" where
  "single_ladder s ord =
     (let p = \<lparr>bp_value = bo_price ord, bp_side = s\<rparr>
      in \<lparr>ld_side = s, ld_book_type = L3_MBO,
          ld_levels = [(p, \<lparr>lv_price = p, lv_orders = [(bo_order_id ord, ord)]\<rparr>)],
          ld_cache = [bo_order_id ord \<mapsto> p], ld_batch_state = NoBatch\<rparr>)"

definition sample_crossed :: order_book where
  "sample_crossed =
     \<lparr>ob_instrument_id = ''I'', ob_book_type = L3_MBO, ob_sequence = 1, ob_ts_last = 1,
      ob_update_count = 2, ob_bids = single_ladder BuySide sample_bid,
      ob_asks = single_ladder SellSide sample_ask\<rparr>"

lemma single_ladder_inv:
  assumes "as_specified (bo_side ord) = Some s" and "0 < q_raw (bo_size ord)"
  shows "ladder_inv (single_ladder s ord)"
proof -
  let ?p = "\<lparr>bp_value = bo_price ord, bp_side = s\<rparr>"
  let ?l = "\<lparr>lv_price = ?p, lv_orders = [(bo_order_id ord, ord)]\<rparr>"
  have "levels_ok s [(?p, ?l)]" using assms by (auto simp: levels_ok_def level_ok_def split: if_splits)
  moreover have "ld_cache (single_ladder s ord) = rebuild_cache [(?p, ?l)]"
    by (auto simp: single_ladder_def rebuild_cache_def level_ids_def Let_def)
  ultimately show ?thesis
    by (intro single_level_inv [of _ ?p ?l]) (simp_all add: single_ladder_def Let_def)
qed

lemma single_ladder_orders: "ladder_orders (single_ladder s ord) = [bo_order_id ord \<mapsto> ord]"
  by (auto simp: ladder_orders_def single_ladder_def Let_def order_at_def level_at_def book_rank_def
      split: order_side_specified.split)

lemma sample_crossed_sound: "sound_book sample_crossed"
  using single_ladder_inv [of sample_bid BuySide] single_ladder_inv [of sample_ask SellSide]
  by (auto simp: sound_book_def the_ladder_def sample_crossed_def sample_bid_def sample_ask_def
      as_specified_def single_ladder_def Let_def split: order_side_specified.split)

section \<open>Best prices\<close>

definition no_better :: "order_side_specified \<Rightarrow> int \<Rightarrow> int \<Rightarrow> bool" where
  "no_better s raw best \<longleftrightarrow> (case s of BuySide \<Rightarrow> raw \<le> best | SellSide \<Rightarrow> best \<le> raw)"

lemma book_rank_le:
  "bp_side p = s \<Longrightarrow> bp_side q = s \<Longrightarrow> book_rank p \<le> book_rank q \<longleftrightarrow> no_better s (raw_of q) (raw_of p)"
  by (cases s) (auto simp: book_rank_def no_better_def)

lemma ladder_top_head:
  assumes "levels_ok s (ld_levels L)" and "ladder_top L = Some l"
  obtains k rest where "ld_levels L = (k, l) # rest" "bp_side k = s" "raw_of (lv_price l) = raw_of k"
    "level_ok s (raw_of k) l" "lv_orders l \<noteq> []"
  using assms
  by (cases "ld_levels L") (auto simp: ladder_top_def bt_first_def levels_ok_def level_ok_def)

lemma ladder_top_None: "ladder_top L = None \<longleftrightarrow> ld_levels L = []"
  by (cases "ld_levels L") (auto simp: ladder_top_def bt_first_def)

lemma ladder_top_best:
  assumes inv: "ladder_inv L" and ord: "ladder_orders L i = Some ord"
  shows "\<exists>l. ladder_top L = Some l \<and> no_better (ld_side L) (p_raw (bo_price ord)) (raw_of (lv_price l))"
proof -
  let ?s = "ld_side L"
  have ok: "levels_ok ?s (ld_levels L)" using inv by (simp add: ladder_inv_def)
  let ?k = "\<lparr>bp_value = \<lparr>p_raw = p_raw (bo_price ord), p_precision = 0\<rparr>, bp_side = ?s\<rparr>"
  from at_ladder_orders [OF inv ord] obtain l' where
    l': "bt_get book_rank ?k (ld_levels L) = Some l'"
    by (auto simp: order_at_def level_at_def split: option.splits)
  then have "ld_levels L \<noteq> []" by auto
  then obtain l where top: "ladder_top L = Some l" using ladder_top_None by blast
  from ladder_top_head [OF ok top] obtain k rest where
    k: "ld_levels L = (k, l) # rest" "bp_side k = ?s" "raw_of (lv_price l) = raw_of k" by blast
  have "book_rank k \<le> book_rank ?k"
    using btree.first_least [OF levels_ok_sorted [OF ok], of k l ?k l'] k(1) l'
    by (simp add: bt_first_def)
  then show ?thesis using top k book_rank_le [of k ?s ?k] by simp
qed

lemma ladder_top_order:
  assumes inv: "ladder_inv L" and top: "ladder_top L = Some l"
  shows "\<exists>i ord. ladder_orders L i = Some ord \<and> p_raw (bo_price ord) = raw_of (lv_price l)"
proof -
  let ?s = "ld_side L"
  have ok: "levels_ok ?s (ld_levels L)" using inv by (simp add: ladder_inv_def)
  from ladder_top_head [OF ok top] obtain k rest where
    k: "ld_levels L = (k, l) # rest" "bp_side k = ?s" "raw_of (lv_price l) = raw_of k"
    and l: "level_ok ?s (raw_of k) l" "lv_orders l \<noteq> []" by blast
  obtain i ord xs where x: "lv_orders l = (i, ord) # xs" using l(2) by (cases "lv_orders l") auto
  have "bt_get book_rank k (ld_levels L) = Some l" using k(1) by simp
  then have "order_at ?s (ld_levels L) (raw_of k) i = Some ord"
    using x by (simp add: order_at_def level_at_get [OF k(2)])
  moreover have "map_of (lv_orders l) i = Some ord" using x by simp
  then have "p_raw (bo_price ord) = raw_of k" using l(1) unfolding level_ok_def by blast
  ultimately show ?thesis using ladder_orders_at [OF inv] k(3) by metis
qed

text \<open>
  (C30) The best bid is the highest price at which the book has a bid and the best ask the lowest
  price at which it has an ask, and a side has a best price exactly when it has an order.
\<close>

theorem best_prices_extreme:
  assumes "sound_book b"
  shows "(\<forall>p. best_bid_price b = Some p \<longrightarrow>
      (\<exists>i ord. ladder_orders (ob_bids b) i = Some ord \<and> p_raw (bo_price ord) = p_raw p) \<and>
      (\<forall>i ord. ladder_orders (ob_bids b) i = Some ord \<longrightarrow> p_raw (bo_price ord) \<le> p_raw p)) \<and>
    (\<forall>p. best_ask_price b = Some p \<longrightarrow>
      (\<exists>i ord. ladder_orders (ob_asks b) i = Some ord \<and> p_raw (bo_price ord) = p_raw p) \<and>
      (\<forall>i ord. ladder_orders (ob_asks b) i = Some ord \<longrightarrow> p_raw p \<le> p_raw (bo_price ord))) \<and>
    (best_bid_price b = None \<longleftrightarrow> ladder_orders (ob_bids b) = Map.empty) \<and>
    (best_ask_price b = None \<longleftrightarrow> ladder_orders (ob_asks b) = Map.empty)"
proof -
  note bid = sound_bookD(1,2) [OF assms] and ask = sound_bookD(3,4) [OF assms]
  have empty: "ladder_top L = None \<longleftrightarrow> ladder_orders L = Map.empty" if "ladder_inv L" for L
    using ladder_top_best [OF that] ladder_top_order [OF that]
    by (cases "ladder_top L") (fastforce simp: fun_eq_iff)+
  show ?thesis
    using ladder_top_best [OF bid(1)] ladder_top_order [OF bid(1)] ladder_top_best [OF ask(1)]
      ladder_top_order [OF ask(1)] empty [OF bid(1)] empty [OF ask(1)] bid(2) ask(2)
    by (auto simp: best_bid_price_def best_ask_price_def no_better_def)
qed

theorem best_prices_extreme_witness:
  "best_bid_price sample_crossed = Some \<lparr>p_raw = 10, p_precision = 0\<rparr> \<and>
   (\<exists>i ord. ladder_orders (ob_bids sample_crossed) i = Some ord \<and> p_raw (bo_price ord) = 10) \<and>
   ladder_orders (ob_asks sample_crossed) \<noteq> Map.empty"
proof -
  have "best_bid_price sample_crossed = Some \<lparr>p_raw = 10, p_precision = 0\<rparr>"
    by (simp add: best_bid_price_def sample_crossed_def single_ladder_def ladder_top_def bt_first_def
        sample_bid_def Let_def)
  moreover have "best_ask_price sample_crossed \<noteq> None"
    by (simp add: best_ask_price_def sample_crossed_def single_ladder_def ladder_top_def bt_first_def
        sample_ask_def Let_def)
  ultimately show ?thesis using best_prices_extreme [OF sample_crossed_sound] by fastforce
qed

section \<open>Removing levels\<close>

lemma fold_uncache: "fold (\<lambda>i cache. cache(i := None)) is c i = (if i \<in> set is then None else c i)"
  by (induction "is" arbitrary: c) auto

lemma remove_level_spec:
  assumes inv: "ladder_inv L" and p: "bp_side p = ld_side L"
    and l: "level_at (ld_side L) (ld_levels L) (raw_of p) = Some l"
  shows "\<exists>L'. ladder_remove_level p L = Some (L', Some l) \<and> ladder_inv L' \<and>
    ld_levels L' = bt_remove book_rank p (ld_levels L) \<and> ld_side L' = ld_side L \<and>
    ld_book_type L' = ld_book_type L \<and>
    (\<forall>i. ladder_orders L' i = (case ladder_orders L i of None \<Rightarrow> None
       | Some ord \<Rightarrow> if p_raw (bo_price ord) = raw_of p then None else Some ord))"
proof -
  let ?s = "ld_side L"
  let ?L = "L\<lparr>ld_levels := bt_remove book_rank p (ld_levels L),
      ld_cache := fold (\<lambda>i cache. cache(i := None)) (level_ids l) (ld_cache L)\<rparr>"
  have ok: "levels_ok ?s (ld_levels L)" and ix: "index_ok L" using inv by (simp_all add: ladder_inv_def)
  have eq: "ladder_remove_level p L = Some (?L, Some l)"
    using levels_ok_find [OF ok p] l by (simp add: ladder_remove_level_def)
  have at: "order_at ?s (bt_remove book_rank p (ld_levels L)) raw i =
      (if raw = raw_of p then None else order_at ?s (ld_levels L) raw i)" for raw i
    by (simp add: order_at_def level_at_remove [OF levels_ok_sorted [OF ok] p])
  have "map_of (lv_orders l) i = order_at ?s (ld_levels L) (raw_of p) i" for i
    using l by (simp add: order_at_def)
  then have ids: "i \<in> set (level_ids l) \<longleftrightarrow> (\<exists>q. ld_cache L i = Some q \<and> raw_of q = raw_of p)" for i
    using ix unfolding index_ok_def level_ids_map_of by simp
  have cache: "ld_cache ?L i = (case ld_cache L i of None \<Rightarrow> None
      | Some q \<Rightarrow> if raw_of q = raw_of p then None else Some q)" for i
    by (auto simp: fold_uncache ids split: option.split)
  have "levels_ok ?s (bt_remove book_rank p (ld_levels L))"
    using ok bt_remove_subset [of book_rank p "ld_levels L"] by (auto simp: levels_ok_def)
  moreover have "index_ok ?L"
    using ix unfolding index_ok_def cache
    by (simp add: at split: option.split if_split)
  moreover have "ladder_orders ?L i = (case ladder_orders L i of None \<Rightarrow> None
       | Some ord \<Rightarrow> if p_raw (bo_price ord) = raw_of p then None else Some ord)" for i
  proof (cases "ld_cache L i")
    case None
    then show ?thesis unfolding ladder_orders_def cache by simp
  next
    case (Some q)
    from cached_order [OF inv Some] obtain ord where
      "ladder_orders L i = Some ord" "p_raw (bo_price ord) = raw_of q" by blast
    then show ?thesis using Some unfolding ladder_orders_def [of ?L] cache
      by (auto simp: at ladder_orders_def)
  qed
  ultimately show ?thesis using eq by (simp add: ladder_inv_def)
qed

text \<open>Removing the levels of a prefix of the ladder, best first.\<close>

lemma remove_levels_prefix:
  assumes "ladder_inv L" and "ld_levels L = front @ rest"
  shows "\<exists>L'. remove_levels (map fst front) L = Some (L', map snd front) \<and> ladder_inv L' \<and>
    ld_levels L' = rest \<and> ld_side L' = ld_side L \<and> ld_book_type L' = ld_book_type L \<and>
    (\<forall>i. ladder_orders L' i = (case ladder_orders L i of None \<Rightarrow> None
       | Some ord \<Rightarrow> if p_raw (bo_price ord) \<in> raw_of ` fst ` set front then None else Some ord))"
  using assms
proof (induction front arbitrary: L)
  case Nil
  then show ?case by (simp split: option.split)
next
  case (Cons e front)
  obtain k l where e: "e = (k, l)" by (cases e)
  have ok: "levels_ok (ld_side L) (ld_levels L)" using Cons.prems(1) by (simp add: ladder_inv_def)
  then have side: "bp_side k = ld_side L" using Cons.prems(2) e by (simp add: levels_ok_def)
  have "bt_get book_rank k (ld_levels L) = Some l" using Cons.prems(2) e by simp
  then have at: "level_at (ld_side L) (ld_levels L) (raw_of k) = Some l"
    by (simp add: level_at_get [OF side])
  from remove_level_spec [OF Cons.prems(1) side at] Cons.prems(2) e obtain L1 where
    L1: "ladder_remove_level k L = Some (L1, Some l)" "ladder_inv L1" "ld_levels L1 = front @ rest"
      "ld_side L1 = ld_side L" "ld_book_type L1 = ld_book_type L"
      "\<forall>i. ladder_orders L1 i = (case ladder_orders L i of None \<Rightarrow> None
         | Some ord \<Rightarrow> if p_raw (bo_price ord) = raw_of k then None else Some ord)" by auto
  from Cons.IH [OF L1(2,3)] obtain L2 where
    L2: "remove_levels (map fst front) L1 = Some (L2, map snd front)" "ladder_inv L2"
      "ld_levels L2 = rest" "ld_side L2 = ld_side L1" "ld_book_type L2 = ld_book_type L1"
      "\<forall>i. ladder_orders L2 i = (case ladder_orders L1 i of None \<Rightarrow> None
         | Some ord \<Rightarrow> if p_raw (bo_price ord) \<in> raw_of ` fst ` set front then None else Some ord)"
    by blast
  have "ladder_orders L2 i = (case ladder_orders L i of None \<Rightarrow> None
      | Some ord \<Rightarrow> if p_raw (bo_price ord) \<in> raw_of ` fst ` set (e # front) then None else Some ord)"
    for i using L1(6) L2(6) e by (auto split: option.split)
  then show ?case using L1 L2 e by simp
qed

lemma ladder_key_head:
  assumes "ladder_inv L" and "ladder_top L = Some l"
  shows "\<exists>k rest. ld_levels L = (k, l) # rest \<and> bp_side k = ld_side L \<and>
    raw_of (lv_price l) = raw_of k \<and> (\<forall>(k', l') \<in> set rest. book_rank k < book_rank k' \<and> bp_side k' = ld_side L)"
proof -
  have ok: "levels_ok (ld_side L) (ld_levels L)" using assms(1) by (simp add: ladder_inv_def)
  from ladder_top_head [OF ok assms(2)] obtain k rest where
    "ld_levels L = (k, l) # rest" "bp_side k = ld_side L" "raw_of (lv_price l) = raw_of k" by blast
  with ok show ?thesis by (fastforce simp: levels_ok_def)
qed

text \<open>A ladder after the removal of its leading levels that satisfy a condition on the price.\<close>

lemma remove_while_spec:
  fixes P :: "price \<Rightarrow> bool"
  assumes inv: "ladder_inv L"
  defines "ps \<equiv> takeWhile (\<lambda>p. P (bp_value p)) (map fst (ld_levels L))"
  shows "\<exists>L' removed. remove_levels ps L = Some (L', removed) \<and> ladder_inv L' \<and>
    ld_side L' = ld_side L \<and> ld_book_type L' = ld_book_type L \<and>
    ld_levels L' = dropWhile (\<lambda>(p, _). P (bp_value p)) (ld_levels L) \<and> length removed = length ps"
proof -
  let ?Q = "\<lambda>(p, _ :: book_level). P (bp_value p)"
  have ps: "ps = map fst (takeWhile ?Q (ld_levels L))"
    by (simp add: ps_def takeWhile_map comp_def case_prod_unfold)
  have "ld_levels L = takeWhile ?Q (ld_levels L) @ dropWhile ?Q (ld_levels L)" by simp
  from remove_levels_prefix [OF inv this] show ?thesis unfolding ps by auto
qed

lemma drop_while_head:
  assumes "ladder_inv L'" and "ld_levels L' = dropWhile (\<lambda>(p, _). P (bp_value p)) levels"
    and "ladder_top L' = Some l"
  shows "\<exists>k. (k, l) \<in> set levels \<and> \<not> P (bp_value k) \<and> raw_of (lv_price l) = raw_of k"
proof -
  from ladder_key_head [OF assms(1,3)] obtain k rest where
    k: "ld_levels L' = (k, l) # rest" "raw_of (lv_price l) = raw_of k" by blast
  then have "dropWhile (\<lambda>(p, _). P (bp_value p)) levels = (k, l) # rest" using assms(2) by simp
  then have "\<not> P (bp_value k)" "(k, l) \<in> set levels"
    using hd_dropWhile [of "\<lambda>(p, _). P (bp_value p)" levels] set_dropWhileD
    by (fastforce, metis list.set_intros(1) set_dropWhileD)
  with k(2) show ?thesis by blast
qed

lemma level_no_better:
  assumes "ladder_inv L" and "ladder_top L = Some l" and "(k', l') \<in> set (ld_levels L)"
  shows "no_better (ld_side L) (raw_of k') (raw_of (lv_price l))"
proof -
  from ladder_key_head [OF assms(1,2)] obtain k rest where
    k: "ld_levels L = (k, l) # rest" "bp_side k = ld_side L" "raw_of (lv_price l) = raw_of k"
    "\<forall>(k', l') \<in> set rest. book_rank k < book_rank k' \<and> bp_side k' = ld_side L" by blast
  then have "book_rank k \<le> book_rank k' \<and> bp_side k' = ld_side L" using assms(3) by fastforce
  then show ?thesis using k(2,3) book_rank_le [of k "ld_side L" k'] by simp
qed

definition without_leading :: "bool \<Rightarrow> (price \<Rightarrow> bool) \<Rightarrow> book_ladder \<Rightarrow> book_ladder \<Rightarrow> bool" where
  "without_leading c P L L' \<longleftrightarrow>
     ladder_inv L' \<and> ld_side L' = ld_side L \<and> ld_book_type L' = ld_book_type L \<and>
     (\<not> c \<longrightarrow> L' = L) \<and>
     (c \<longrightarrow> ld_levels L' = dropWhile (\<lambda>(p, _). P (bp_value p)) (ld_levels L))"

lemma remove_when:
  assumes "ladder_inv L"
  shows "\<exists>L' removed. remove_levels
      (if c then takeWhile (\<lambda>p. P (bp_value p)) (map fst (ld_levels L)) else []) L = Some (L', removed) \<and>
    without_leading c P L L'"
  using remove_while_spec [OF assms, of P] assms
  by (cases c) (auto simp: without_leading_def)

lemma without_leading_top:
  assumes "ladder_inv L" and "without_leading c P L L'" and "ladder_top L' = Some l"
    and "ladder_top L = Some top_level"
  shows "no_better (ld_side L) (raw_of (lv_price l)) (raw_of (lv_price top_level)) \<and>
    (c \<longrightarrow> (\<exists>p. \<not> P p \<and> p_raw p = raw_of (lv_price l)))"
proof (cases c)
  case True
  then obtain k where "(k, l) \<in> set (ld_levels L)" "\<not> P (bp_value k)" "raw_of (lv_price l) = raw_of k"
    using drop_while_head [of L' P "ld_levels L" l] assms(2,3) by (auto simp: without_leading_def)
  then show ?thesis using level_no_better [OF assms(1,4)] by metis
next
  case False
  then show ?thesis
    using assms by (cases "ld_side L") (auto simp: without_leading_def no_better_def)
qed

lemma uncrossed_after_removal:
  assumes "sound_book b" and bid: "best_bid_price b = Some best_bid" and ask: "best_ask_price b = Some best_ask"
    and c: "clear_bids \<or> clear_asks"
    and bids: "without_leading clear_bids (price_le best_ask) (ob_bids b) bids"
    and asks: "without_leading clear_asks (\<lambda>p. price_le p best_bid) (ob_asks b) asks"
    and tops: "ladder_top bids = Some l" "ladder_top asks = Some m"
  shows "raw_of (lv_price l) \<le> raw_of (lv_price m)"
proof -
  note sb = sound_bookD [OF assms(1)]
  obtain bl where bl: "ladder_top (ob_bids b) = Some bl" "raw_of (lv_price bl) = p_raw best_bid"
    using bid by (auto simp: best_bid_price_def)
  obtain al where al: "ladder_top (ob_asks b) = Some al" "raw_of (lv_price al) = p_raw best_ask"
    using ask by (auto simp: best_ask_price_def)
  show ?thesis
    using without_leading_top [OF sb(1) bids tops(1) bl(1)] without_leading_top [OF sb(3) asks tops(2) al(1)]
      c bl(2) al(2) sb(2,4)
    by (auto simp: no_better_def price_le_def)
qed



section \<open>Books of individual orders\<close>



section \<open>Sequence numbers\<close>

lemma apply_delta_sequence:
  assumes "apply_delta h d b = Some (b', r)"
  shows "ob_sequence b \<le> ob_sequence b'"
proof -
  have step: "ob_sequence b2 = ob_sequence b" if "on_side side f b = Some b2" for side f b2
    using that by (auto simp: on_side_def split: bind_splits order_side_specified.splits)
  show ?thesis
    using assms
    by (cases "bd_action d")
      (auto simp: apply_delta_def apply_delta_unchecked_def book_add_def book_update_def book_delete_def
        book_clear_def increment_def Let_def split: sum.splits if_splits dest!: step)
qed

interpretation book_sequence: monotone_machine "delta_step h" ob_sequence for h
  by unfold_locales (auto simp: delta_step_def dest: apply_delta_sequence)

end
