(* ===== verification/Book_Fills.thy ===== *)
theory Book_Fills
  imports Book_Queries
begin

text \<open>
  Simulated fills against a side of the book and the snapshot of a book: what an order would
  execute is exactly what is available within its limit, up to its size, and a snapshot played
  into any book of the same type rebuilds the levels it was taken from.
\<close>

section \<open>Simulated fills\<close>

definition sizes :: "book_order list \<Rightarrow> nat" where
  "sizes ords = sum_list (map (\<lambda>ord. q_raw (bo_size ord)) ords)"

definition fill_total :: "(price \<times> quantity) list \<Rightarrow> nat" where
  "fill_total fs = sum_list (map (\<lambda>(_, q). q_raw q) fs)"

lemma sizes_simps [simp]:
  "sizes [] = 0" "sizes (ord # ords) = q_raw (bo_size ord) + sizes ords"
  "sizes (ords @ ords') = sizes ords + sizes ords'"
  by (simp_all add: sizes_def)

lemma fill_total_simps [simp]:
  "fill_total [] = 0" "fill_total ((p, q) # fs) = q_raw q + fill_total fs"
  "fill_total (fs @ gs) = fill_total fs + fill_total gs"
  by (simp_all add: fill_total_def)

definition fillable :: "quantity \<Rightarrow> book_order list \<Rightarrow> bool" where
  "fillable target ords \<longleftrightarrow>
     q_raw target \<le> QUANTITY_RAW_MAX \<and>
     (\<forall>ord \<in> set ords. 0 < q_raw (bo_size ord) \<and> q_raw target + q_raw (bo_size ord) \<le> u_max 64)"

text \<open>The inner loop adds fills at the prices of the orders it passes.\<close>

lemma simulate_orders_spec:
  assumes "fillable target ords" and "q_raw cum \<le> q_raw target"
  shows "\<exists>r cum' gs. simulate_orders target ords cum fs = Some (r, cum', fs @ gs) \<and>
    fill_total gs = min (q_raw target - q_raw cum) (sizes ords) \<and>
    (r \<longleftrightarrow> ords \<noteq> [] \<and> q_raw target \<le> q_raw cum + sizes ords) \<and>
    (\<not> r \<longrightarrow> q_raw cum' = q_raw cum + sizes ords) \<and>
    fst ` set gs \<subseteq> bo_price ` set ords \<and> (\<forall>(p, q) \<in> set gs. 0 < q_raw q)"
  using assms
proof (induction ords arbitrary: cum fs)
  case Nil
  show ?case by (intro exI [of _ False] exI [of _ cum] exI [of _ "[]"]) simp
next
  case (Cons ord ords)
  let ?n = "q_raw cum + q_raw (bo_size ord)"
  have pos: "0 < q_raw (bo_size ord)" and T: "q_raw target \<le> QUANTITY_RAW_MAX"
    and bound: "?n \<le> u_max 64" and rest: "fillable target ords"
    using Cons.prems by (auto simp: fillable_def)
  obtain cum' where c: "quantity_add cum (bo_size ord) = Some cum'" "q_raw cum' = ?n"
    using bound by (auto simp: quantity_add_def checked_add_u_def)
  show ?case
  proof (cases "q_raw target \<le> ?n")
    case True
    obtain rem where rem: "quantity_sub target cum = Some rem" "q_raw rem = q_raw target - q_raw cum"
      using Cons.prems(2) by (auto simp: quantity_sub_def checked_sub_u_def)
    have "quantity_is_positive rem \<longleftrightarrow> 0 < q_raw rem"
      using T quantity_max_lt_undef [of "q_raw rem"] rem(2)
      by (auto simp: quantity_is_positive_def QUANTITY_UNDEF_def)
    with True c rem show ?thesis by (auto simp: quantity_le_def)
  next
    case False
    then have "q_raw cum' \<le> q_raw target" using c(2) by simp
    from Cons.IH [OF rest this, of "fs @ [(bo_price ord, bo_size ord)]"] obtain r cum2 gs where
      ih: "simulate_orders target ords cum' (fs @ [(bo_price ord, bo_size ord)]) =
          Some (r, cum2, (fs @ [(bo_price ord, bo_size ord)]) @ gs)"
        "fill_total gs = min (q_raw target - ?n) (sizes ords)"
        "r \<longleftrightarrow> ords \<noteq> [] \<and> q_raw target \<le> ?n + sizes ords"
        "\<not> r \<longrightarrow> q_raw cum2 = ?n + sizes ords" "fst ` set gs \<subseteq> bo_price ` set ords"
        "\<forall>(p, q) \<in> set gs. 0 < q_raw q" by (auto simp: c(2))
    let ?gs = "(bo_price ord, bo_size ord) # gs"
    have "simulate_orders target (ord # ords) cum fs = Some (r, cum2, fs @ ?gs)"
      using False c ih(1) by (simp add: quantity_le_def)
    moreover have "fill_total ?gs = min (q_raw target - q_raw cum) (sizes (ord # ords))"
      using ih(2) False by simp
    moreover have "r \<longleftrightarrow> q_raw target \<le> q_raw cum + sizes (ord # ords)"
      using ih(3) False by (auto simp: add.assoc)
    ultimately show ?thesis using ih(4,5,6) pos by (intro exI [of _ r] exI [of _ cum2] exI [of _ ?gs]) auto
  qed
qed

definition within_limit :: "order_side_specified \<Rightarrow> price \<Rightarrow> price \<Rightarrow> bool" where
  "within_limit s limit p \<longleftrightarrow> (case s of BuySide \<Rightarrow> p_raw limit \<le> p_raw p | SellSide \<Rightarrow> p_raw p \<le> p_raw limit)"

definition reachable_levels :: "order_side_specified \<Rightarrow> price \<Rightarrow> book_level list \<Rightarrow> book_level list" where
  "reachable_levels s limit ls = takeWhile (\<lambda>l. within_limit s limit (bp_value (lv_price l))) ls"

definition level_orders :: "book_level list \<Rightarrow> book_order list" where
  "level_orders ls = concat (map level_get_orders ls)"

lemma simulate_levels_spec:
  assumes "fillable (bo_size ord) (level_orders ls)" and "q_raw cum \<le> q_raw (bo_size ord)"
    and "\<forall>l \<in> set ls. level_get_orders l \<noteq> []"
  shows "\<exists>gs. simulate_levels ord s ls cum fs = Some (fs @ gs) \<and>
    fill_total gs = min (q_raw (bo_size ord) - q_raw cum)
      (sizes (level_orders (reachable_levels s (bo_price ord) ls))) \<and>
    fst ` set gs \<subseteq> bo_price ` set (level_orders (reachable_levels s (bo_price ord) ls)) \<and>
    (\<forall>(p, q) \<in> set gs. 0 < q_raw q)"
  using assms
proof (induction ls arbitrary: cum fs)
  case Nil
  then show ?case by (simp add: reachable_levels_def level_orders_def)
next
  case (Cons l ls)
  let ?T = "bo_size ord"
  have stop: "((s = BuySide \<and> price_lt (bp_value (lv_price l)) (bo_price ord)) \<or>
      (s \<noteq> BuySide \<and> price_lt (bo_price ord) (bp_value (lv_price l)))) \<longleftrightarrow>
      \<not> within_limit s (bo_price ord) (bp_value (lv_price l))"
    by (cases s) (auto simp: within_limit_def price_lt_def)
  show ?case
  proof (cases "within_limit s (bo_price ord) (bp_value (lv_price l))")
    case False
    then show ?thesis by (simp add: stop reachable_levels_def level_orders_def)
  next
    case True
    have fl: "fillable ?T (level_get_orders l)" "fillable ?T (level_orders ls)"
      using Cons.prems(1) by (auto simp: fillable_def level_orders_def)
    from simulate_orders_spec [OF fl(1) Cons.prems(2), of fs] obtain r cum' gs where
      g: "simulate_orders ?T (level_get_orders l) cum fs = Some (r, cum', fs @ gs)"
        "fill_total gs = min (q_raw ?T - q_raw cum) (sizes (level_get_orders l))"
        "r \<longleftrightarrow> q_raw ?T \<le> q_raw cum + sizes (level_get_orders l)"
        "\<not> r \<longrightarrow> q_raw cum' = q_raw cum + sizes (level_get_orders l)"
        "fst ` set gs \<subseteq> bo_price ` set (level_get_orders l)" "\<forall>(p, q) \<in> set gs. 0 < q_raw q"
      using Cons.prems(3) by auto
    have split: "level_orders (reachable_levels s (bo_price ord) (l # ls)) =
        level_get_orders l @ level_orders (reachable_levels s (bo_price ord) ls)"
      using True by (simp add: reachable_levels_def level_orders_def)
    show ?thesis
    proof (cases r)
      case True
      then show ?thesis
        using g stop \<open>within_limit s (bo_price ord) (bp_value (lv_price l))\<close> by (auto simp: split)
    next
      case False
      then have "q_raw cum' \<le> q_raw ?T" using g(3,4) by simp
      from Cons.IH [OF fl(2) this, of "fs @ gs"] Cons.prems(3) obtain hs where
        hs: "simulate_levels ord s ls cum' (fs @ gs) = Some ((fs @ gs) @ hs)"
          "fill_total hs = min (q_raw ?T - q_raw cum')
            (sizes (level_orders (reachable_levels s (bo_price ord) ls)))"
          "fst ` set hs \<subseteq> bo_price ` set (level_orders (reachable_levels s (bo_price ord) ls))"
          "\<forall>(p, q) \<in> set hs. 0 < q_raw q" by auto
      have "simulate_levels ord s (l # ls) cum fs = Some (fs @ gs @ hs)"
        using g(1) hs(1) False stop \<open>within_limit s (bo_price ord) (bp_value (lv_price l))\<close> by auto
      then show ?thesis
        using g hs False by (intro exI [of _ "gs @ hs"]) (auto simp: split)
    qed
  qed
qed

lemma ladder_level_orders:
  assumes "ladder_inv L" and "l \<in> set (map snd (ld_levels L))"
  shows "level_get_orders l \<noteq> []"
    and "\<forall>ord \<in> set (level_get_orders l). 0 < q_raw (bo_size ord) \<and> p_raw (bo_price ord) = raw_of (lv_price l)"
proof -
  obtain k where k: "(k, l) \<in> set (ld_levels L)" using assms(2) by auto
  then have l: "lv_orders l \<noteq> []" "level_ok (ld_side L) (raw_of k) l"
    using assms(1) by (auto simp: ladder_inv_def levels_ok_def)
  show "level_get_orders l \<noteq> []" using l(1) by (simp add: level_get_orders_def)
  show "\<forall>ord \<in> set (level_get_orders l). 0 < q_raw (bo_size ord) \<and> p_raw (bo_price ord) = raw_of (lv_price l)"
  proof
    fix ord assume "ord \<in> set (level_get_orders l)"
    then obtain i where "(i, ord) \<in> set (lv_orders l)" by (auto simp: level_get_orders_def)
    then have "map_of (lv_orders l) i = Some ord"
      using l(2) unfolding level_ok_def by (intro map_of_is_SomeI) blast+
    from level_okD [OF l(2) this]
    show "0 < q_raw (bo_size ord) \<and> p_raw (bo_price ord) = raw_of (lv_price l)" by simp
  qed
qed

text \<open>
  (C20) Simulating an order against one side of a book gives fills that add up to the smaller of
  the order's size and what the levels within its limit offer. Every fill is positive and at a
  price within the limit. It does not panic as long as no single addition leaves 64 bits.
\<close>

theorem simulated_fills_exact:
  assumes inv: "ladder_inv L" and prec: "q_precision (bo_size ord) \<le> FIXED_PRECISION"
    and T: "q_raw (bo_size ord) \<le> QUANTITY_RAW_MAX"
    and bound: "\<And>o'. o' \<in> set (ladder_order_list L) \<Longrightarrow>
      q_raw (bo_size ord) + q_raw (bo_size o') \<le> u_max 64"
  shows "\<exists>fs. ladder_simulate_fills ord L = Some fs \<and>
    fill_total fs = min (q_raw (bo_size ord))
      (sizes (level_orders (reachable_levels (ld_side L) (bo_price ord) (map snd (ld_levels L))))) \<and>
    (\<forall>(p, q) \<in> set fs. 0 < q_raw q \<and> within_limit (ld_side L) (bo_price ord) p)"
proof -
  let ?ls = "map snd (ld_levels L)"
  let ?reach = "reachable_levels (ld_side L) (bo_price ord) ?ls"
  have list: "ladder_order_list L = level_orders ?ls"
    by (simp add: ladder_order_list_def level_orders_def)
  have "0 < q_raw (bo_size o')" if "o' \<in> set (level_orders ?ls)" for o'
    using that ladder_level_orders(2) [OF inv] by (auto simp: level_orders_def)
  then have "fillable (bo_size ord) (level_orders ?ls)"
    using T bound by (simp add: fillable_def list)
  moreover have "\<forall>l \<in> set ?ls. level_get_orders l \<noteq> []" using ladder_level_orders(1) [OF inv] by blast
  moreover obtain z where z: "quantity_zero (q_precision (bo_size ord)) = Some z" "q_raw z = 0"
    using prec by (auto simp: quantity_zero_def check_fixed_precision_def)
  ultimately obtain fs where fs: "simulate_levels ord (ld_side L) ?ls z [] = Some fs"
      "fill_total fs = min (q_raw (bo_size ord)) (sizes (level_orders ?reach))"
      "fst ` set fs \<subseteq> bo_price ` set (level_orders ?reach)" "\<forall>(p, q) \<in> set fs. 0 < q_raw q"
    using simulate_levels_spec [of ord ?ls z "ld_side L" "[]"] by auto
  have "within_limit (ld_side L) (bo_price ord) p" if p: "p \<in> fst ` set fs" for p
  proof -
    obtain l o' where l: "l \<in> set ?reach" "o' \<in> set (level_get_orders l)" "p = bo_price o'"
      using p fs(3) by (auto simp: level_orders_def)
    then have "l \<in> set ?ls" "within_limit (ld_side L) (bo_price ord) (bp_value (lv_price l))"
      by (auto simp: reachable_levels_def dest: set_takeWhileD)
    with ladder_level_orders(2) [OF inv this(1)] l(2,3) show ?thesis
      by (auto simp: within_limit_def split: order_side_specified.splits)
  qed
  then have "\<forall>(p, q) \<in> set fs. 0 < q_raw q \<and> within_limit (ld_side L) (bo_price ord) p"
    using fs(4) by force
  then show ?thesis using fs(1,2) z(1) by (simp add: ladder_simulate_fills_def)
qed

theorem simulated_fills_exact_witness:
  "\<exists>fs. ladder_simulate_fills
       (sample_bid\<lparr>bo_size := \<lparr>q_raw = 3, q_precision = 0\<rparr>\<rparr>) (single_ladder SellSide sample_ask) = Some fs \<and>
     fill_total fs = 3"
proof -
  let ?o = "sample_bid\<lparr>bo_size := \<lparr>q_raw = 3, q_precision = 0\<rparr>\<rparr>" and ?L = "single_ladder SellSide sample_ask"
  have "sizes (level_orders (reachable_levels (ld_side ?L) (bo_price ?o) (map snd (ld_levels ?L)))) = 5"
    by (simp add: single_ladder_def sample_ask_def sample_bid_def reachable_levels_def within_limit_def
        level_orders_def level_get_orders_def Let_def)
  moreover have "\<exists>fs. ladder_simulate_fills ?o ?L = Some fs \<and>
    fill_total fs = min (q_raw (bo_size ?o))
      (sizes (level_orders (reachable_levels (ld_side ?L) (bo_price ?o) (map snd (ld_levels ?L))))) \<and>
    (\<forall>(p, q) \<in> set fs. 0 < q_raw q \<and> within_limit (ld_side ?L) (bo_price ?o) p)"
    by (rule simulated_fills_exact [OF single_ladder_inv])
      (auto simp: sample_ask_def sample_bid_def as_specified_def QUANTITY_RAW_MAX_def FIXED_SCALAR_def
        u_max_def ladder_order_list_def level_get_orders_def single_ladder_def Let_def)
  ultimately show ?thesis by auto
qed

section \<open>Snapshots\<close>

lemma bt_insert_end:
  "\<forall>(k', _) \<in> set m. r k' < r k \<Longrightarrow> bt_insert r k v m = m @ [(k, v)]"
  by (induction m) auto

lemma bt_insert_last:
  "\<forall>(k', _) \<in> set m. r k' < r k \<Longrightarrow> r k = r k0 \<Longrightarrow> bt_insert r k v (m @ [(k0, v0)]) = m @ [(k0, v)]"
  by (induction m) auto

lemma bt_get_last:
  "\<forall>(k', _) \<in> set m. r k' < r k \<Longrightarrow> bt_get r k (m @ [(k0, v0)]) = (if r k = r k0 then Some v0 else None)"
  by (induction m) auto

lemma bt_get_beyond: "\<forall>(k', _) \<in> set m. r k' < r k \<Longrightarrow> bt_get r k m = None"
  by (induction m) auto

fun add_orders :: "(book_order \<times> flags) list \<Rightarrow> book_ladder \<Rightarrow> book_ladder option" where
  "add_orders [] L = Some L"
| "add_orders ((ord, flags) # ords) L = do { L' \<leftarrow> ladder_add ord flags L; add_orders ords L' }"

lemma add_orders_append:
  "add_orders (xs @ ys) L = do { L' \<leftarrow> add_orders xs L; add_orders ys L' }"
proof (induction xs L rule: add_orders.induct)
  case (2 ord flags ords L)
  then show ?case by (cases "ladder_add ord flags L") auto
qed simp

text \<open>The levels of a ladder, with the precision of the level prices left out.\<close>

definition ladder_view :: "book_ladder \<Rightarrow> (int \<times> (nat \<times> book_order) list) list" where
  "ladder_view L = map (\<lambda>(k, l). (raw_of k, lv_orders l)) (ld_levels L)"

definition beyond :: "order_side_specified \<Rightarrow> (book_price \<times> book_level) list \<Rightarrow> int \<Rightarrow> bool" where
  "beyond s m raw \<longleftrightarrow>
     (\<forall>(k, _) \<in> set m. bp_side k = s \<and>
        book_rank k < book_rank \<lparr>bp_value = \<lparr>p_raw = raw, p_precision = 0\<rparr>, bp_side = s\<rparr>)"

definition orders_for :: "order_side_specified \<Rightarrow> int \<Rightarrow> (nat \<times> book_order) list \<Rightarrow> bool" where
  "orders_for s raw xs \<longleftrightarrow>
     distinct (map fst xs) \<and>
     (\<forall>(i, ord) \<in> set xs. bo_order_id ord = i \<and> as_specified (bo_side ord) = Some s \<and>
        p_raw (bo_price ord) = raw \<and> quantity_is_positive (bo_size ord))"

lemma book_rank_cong: "bp_side p = bp_side q \<Longrightarrow> raw_of p = raw_of q \<Longrightarrow> book_rank p = book_rank q"
  by (cases "bp_side q") (simp_all add: book_rank_def)

lemma beyond_rank:
  assumes "beyond s m raw" and "bp_side p = s" and "raw_of p = raw"
  shows "(\<forall>(k', _) \<in> set m. book_rank k' < book_rank p) \<and> comparable p m"
proof -
  have r: "book_rank p = book_rank \<lparr>bp_value = \<lparr>p_raw = raw, p_precision = 0\<rparr>, bp_side = s\<rparr>"
    using assms(2,3) by (intro book_rank_cong) simp_all
  show ?thesis unfolding r using assms(1,2) by (auto simp: beyond_def comparable_def list_all_iff)
qed

lemma update_append: "i \<notin> fst ` set xs \<Longrightarrow> AList.update i v xs = xs @ [(i, v)]"
  by (induction xs) auto

lemma insert_into_last:
  assumes "beyond (ld_side L) m raw" and "ld_levels L = m @ [(k0, l0)]" and "bp_side k0 = ld_side L"
    and "raw_of k0 = raw" and "as_specified (bo_side ord) = Some (ld_side L)"
    and "p_raw (bo_price ord) = raw" and "quantity_is_positive (bo_size ord)"
    and "bo_order_id ord \<notin> fst ` set (lv_orders l0)" and "ld_book_type L \<noteq> L1_MBP"
  shows "\<exists>L'. ladder_add ord flags L = Some L' \<and> ld_side L' = ld_side L \<and>
    ld_book_type L' = ld_book_type L \<and>
    ld_levels L' = m @ [(k0, l0\<lparr>lv_orders := lv_orders l0 @ [(bo_order_id ord, ord)]\<rparr>)]"
proof -
  let ?p = "\<lparr>bp_value = bo_price ord, bp_side = ld_side L\<rparr>"
  have p: "to_book_price ord = Some ?p" using assms(5) by (simp add: to_book_price_def)
  have b: "\<forall>(k', _) \<in> set m. book_rank k' < book_rank ?p" "comparable ?p m"
    using beyond_rank [OF assms(1), of ?p] assms(6) by auto
  have r: "book_rank ?p = book_rank k0" using assms(3,4,6) by (intro book_rank_cong) simp_all
  have find: "find_level ?p (m @ [(k0, l0)]) = Some (Some l0)"
    using b assms(3) bt_get_last [OF b(1), of k0 l0] r by (simp add: find_level_def comparable_def)
  show ?thesis
    using assms(2,7,8,9) p find bt_insert_last [OF b(1) r]
    by (simp add: ladder_add_def insert_order_def level_add_def update_append)
qed

lemma add_rest_of_level:
  assumes "beyond (ld_side L) m raw" and "ld_levels L = m @ [(k0, l0)]" and "bp_side k0 = ld_side L"
    and "raw_of k0 = raw" and "orders_for (ld_side L) raw (lv_orders l0 @ xs)"
    and "ld_book_type L \<noteq> L1_MBP" and "length fs = length xs"
  shows "\<exists>L'. add_orders (zip (map snd xs) fs) L = Some L' \<and> ld_side L' = ld_side L \<and>
    ld_book_type L' = ld_book_type L \<and> ld_levels L' = m @ [(k0, l0\<lparr>lv_orders := lv_orders l0 @ xs\<rparr>)]"
  using assms
proof (induction xs arbitrary: L l0 fs)
  case Nil
  then show ?case by simp
next
  case (Cons x xs)
  obtain i ord where x: "x = (i, ord)" by (cases x)
  obtain f gs where fs: "fs = f # gs" "length gs = length xs" using Cons.prems(7) by (cases fs) auto
  let ?l = "l0\<lparr>lv_orders := lv_orders l0 @ [(i, ord)]\<rparr>"
  have ord: "as_specified (bo_side ord) = Some (ld_side L)" "p_raw (bo_price ord) = raw"
    "quantity_is_positive (bo_size ord)" "bo_order_id ord = i" "i \<notin> fst ` set (lv_orders l0)"
    using Cons.prems(5) x by (auto simp: orders_for_def)
  from insert_into_last [OF Cons.prems(1-4) ord(1-3) _ Cons.prems(6), of f] ord(4,5) obtain L1 where
    L1: "ladder_add ord f L = Some L1" "ld_side L1 = ld_side L" "ld_book_type L1 = ld_book_type L"
      "ld_levels L1 = m @ [(k0, ?l)]" by auto
  have "orders_for (ld_side L1) raw (lv_orders ?l @ xs)" using Cons.prems(5) x L1(2) by simp
  from Cons.IH [OF _ L1(4) _ Cons.prems(4) this _ fs(2)] Cons.prems(1,3,6) L1(2,3)
  show ?case using L1 fs x by auto
qed

lemma add_level:
  assumes "beyond (ld_side L) (ld_levels L) raw" and "orders_for (ld_side L) raw xs" and "xs \<noteq> []"
    and "ld_book_type L \<noteq> L1_MBP" and "length fs = length xs"
  shows "\<exists>L' k l. add_orders (zip (map snd xs) fs) L = Some L' \<and> ld_side L' = ld_side L \<and>
    ld_book_type L' = ld_book_type L \<and> ld_levels L' = ld_levels L @ [(k, l)] \<and>
    bp_side k = ld_side L \<and> raw_of k = raw \<and> lv_orders l = xs"
proof -
  obtain i ord ys where x: "xs = (i, ord) # ys" using assms(3) by (cases xs) auto
  obtain f gs where fs: "fs = f # gs" "length gs = length ys" using assms(5) x by (cases fs) auto
  have ord: "as_specified (bo_side ord) = Some (ld_side L)" "p_raw (bo_price ord) = raw"
    "quantity_is_positive (bo_size ord)" "bo_order_id ord = i"
    using assms(2) x by (auto simp: orders_for_def)
  let ?p = "\<lparr>bp_value = bo_price ord, bp_side = ld_side L\<rparr>"
  let ?l = "\<lparr>lv_price = ?p, lv_orders = [(i, ord)]\<rparr>"
  have b: "\<forall>(k', _) \<in> set (ld_levels L). book_rank k' < book_rank ?p" "comparable ?p (ld_levels L)"
    using beyond_rank [OF assms(1), of ?p] ord(2) by auto
  have "\<exists>L1. ladder_add ord f L = Some L1 \<and> ld_side L1 = ld_side L \<and>
      ld_book_type L1 = ld_book_type L \<and> ld_levels L1 = ld_levels L @ [(?p, ?l)]"
    using assms(4) ord b bt_insert_end [OF b(1)] bt_get_beyond [OF b(1)]
    by (simp add: ladder_add_def insert_order_def to_book_price_def find_level_def level_from_order_def
        level_add_def)
  then obtain L1 where L1: "ladder_add ord f L = Some L1" "ld_side L1 = ld_side L"
    "ld_book_type L1 = ld_book_type L" "ld_levels L1 = ld_levels L @ [(?p, ?l)]" by blast
  have "\<exists>L'. add_orders (zip (map snd ys) gs) L1 = Some L' \<and> ld_side L' = ld_side L1 \<and>
      ld_book_type L' = ld_book_type L1 \<and>
      ld_levels L' = ld_levels L @ [(?p, ?l\<lparr>lv_orders := lv_orders ?l @ ys\<rparr>)]"
    using add_rest_of_level [OF _ L1(4), of raw ys gs] assms(1,2,4) L1(2,3) x fs(2) ord(2) by simp
  then show ?thesis using L1 x fs ord(2) by fastforce
qed

text \<open>Rebuilding a ladder from the orders of its levels, best level first.\<close>

definition level_list_orders :: "(book_price \<times> book_level) list \<Rightarrow> book_order list" where
  "level_list_orders todo = concat (map level_get_orders (map snd todo))"

lemma level_list_orders_simps [simp]:
  "level_list_orders [] = []"
  "level_list_orders ((k, l) # todo) = map snd (lv_orders l) @ level_list_orders todo"
  by (simp_all add: level_list_orders_def level_get_orders_def)

lemma beyond_tail:
  assumes "levels_ok s ((k, l) # todo)" and "\<forall>(k', _) \<in> set ((k, l) # todo). beyond s m (raw_of k')"
    and "bp_side p = s" and "raw_of p = raw_of k"
  shows "\<forall>(k', _) \<in> set todo. beyond s (m @ [(p, l')]) (raw_of k')"
proof -
  have "book_rank p < book_rank \<lparr>bp_value = \<lparr>p_raw = raw_of k', p_precision = 0\<rparr>, bp_side = s\<rparr>"
    if "(k', v) \<in> set todo" for k' v
  proof -
    have "book_rank p = book_rank k"
      using assms(1,3,4) by (intro book_rank_cong) (auto simp: levels_ok_def)
    also have "\<dots> < book_rank k'" using assms(1) that by (auto simp: levels_ok_def)
    also have "book_rank k' = book_rank \<lparr>bp_value = \<lparr>p_raw = raw_of k', p_precision = 0\<rparr>, bp_side = s\<rparr>"
      using assms(1) that by (intro book_rank_cong) (auto simp: levels_ok_def)
    finally show ?thesis .
  qed
  then show ?thesis using assms(2,3) by (fastforce simp: beyond_def)
qed

lemma add_ladder:
  assumes "levels_ok (ld_side L) todo"
    and "\<forall>(k, _) \<in> set todo. beyond (ld_side L) (ld_levels L) (raw_of k)"
    and "\<forall>ord \<in> set (level_list_orders todo). quantity_is_positive (bo_size ord)"
    and "ld_book_type L \<noteq> L1_MBP" and "length fs = length (level_list_orders todo)"
  shows "\<exists>L'. add_orders (zip (level_list_orders todo) fs) L = Some L' \<and>
    ladder_view L' = ladder_view L @ map (\<lambda>(k, l). (raw_of k, lv_orders l)) todo"
  using assms
proof (induction todo arbitrary: L fs)
  case Nil
  then show ?case by simp
next
  case (Cons e todo)
  obtain k l where e: "e = (k, l)" by (cases e)
  let ?n = "length (lv_orders l)"
  have ok: "level_ok (ld_side L) (raw_of k) l" "lv_orders l \<noteq> []" and tail: "levels_ok (ld_side L) todo"
    using Cons.prems(1) e by (auto simp: levels_ok_def)
  have "orders_for (ld_side L) (raw_of k) (lv_orders l)"
    unfolding orders_for_def
  proof (intro conjI ballI)
    show d: "distinct (map fst (lv_orders l))" using ok(1) by (simp add: level_ok_def)
    fix x assume x: "x \<in> set (lv_orders l)"
    then have "map_of (lv_orders l) (fst x) = Some (snd x)" using d by (intro map_of_is_SomeI) simp_all
    from level_okD [OF ok(1) this] Cons.prems(3) x e
    show "case x of (i, ord) \<Rightarrow> bo_order_id ord = i \<and> as_specified (bo_side ord) = Some (ld_side L) \<and>
        p_raw (bo_price ord) = raw_of k \<and> quantity_is_positive (bo_size ord)"
      by (auto simp: case_prod_unfold)
  qed
  from add_level [OF _ this ok(2) Cons.prems(4), of "take ?n fs"] Cons.prems(2,5) e
  obtain L1 p l' where L1: "add_orders (zip (map snd (lv_orders l)) (take ?n fs)) L = Some L1"
      "ld_side L1 = ld_side L" "ld_book_type L1 = ld_book_type L"
      "ld_levels L1 = ld_levels L @ [(p, l')]" "bp_side p = ld_side L" "raw_of p = raw_of k"
      "lv_orders l' = lv_orders l" by auto
  have "\<forall>(k', _) \<in> set todo. beyond (ld_side L1) (ld_levels L1) (raw_of k')"
    using beyond_tail [OF _ _ L1(5,6)] Cons.prems(1,2) e L1(2,4) by auto
  from Cons.IH [OF _ this, of "drop ?n fs"] tail Cons.prems(3,4,5) L1(2,3) e obtain L2 where
    L2: "add_orders (zip (level_list_orders todo) (drop ?n fs)) L1 = Some L2"
      "ladder_view L2 = ladder_view L1 @ map (\<lambda>(k, l). (raw_of k, lv_orders l)) todo" by auto
  have "zip (level_list_orders (e # todo)) fs =
      zip (map snd (lv_orders l)) (take ?n fs) @ zip (level_list_orders todo) (drop ?n fs)"
    using e by (simp add: zip_append1)
  then show ?case using L1 L2 e by (simp add: add_orders_append ladder_view_def)
qed

text \<open>Deltas that add orders to one side.\<close>

definition add_delta :: "string \<Rightarrow> nat \<Rightarrow> nat \<Rightarrow> nat \<Rightarrow> book_order \<times> flags \<Rightarrow> order_book_delta" where
  "add_delta instrument_id sequence ts_event ts_init x =
     \<lparr>bd_instrument_id = instrument_id, bd_action = AddAction, bd_order = fst x, bd_flags = snd x,
      bd_sequence = sequence, bd_ts_event = ts_event, bd_ts_init = ts_init\<rparr>"

lemma apply_add:
  assumes "as_specified (bo_side ord) = Some s" and "pre_process_order h (ob_book_type b) ord f = ord"
    and "ladder_add ord f (the_ladder s b) = Some L"
  shows "apply_delta_unchecked h (add_delta i n ts ti (ord, f)) b =
    Some (increment n ts (set_ladder s L b), Inr ())"
proof -
  have "bo_side ord \<noteq> NoOrderSide" using assms(1) by (auto simp: as_specified_def)
  then show ?thesis
    using assms
    by (simp add: apply_delta_unchecked_def resolve_delta_def add_delta_def book_add_def on_side_ladder)
qed

lemma apply_adds:
  assumes "\<forall>(ord, f) \<in> set xs. as_specified (bo_side ord) = Some s \<and>
      pre_process_order h (ob_book_type b) ord f = ord"
    and "add_orders xs (the_ladder s b) = Some L"
  shows "\<exists>b'. apply_delta_list h (map (add_delta i n ts ti) xs) b = Some (b', Inr ()) \<and>
    the_ladder s b' = L \<and> (\<forall>t. t \<noteq> s \<longrightarrow> the_ladder t b' = the_ladder t b) \<and>
    ob_book_type b' = ob_book_type b"
  using assms
proof (induction xs arbitrary: b)
  case Nil
  then show ?case by simp
next
  case (Cons x xs)
  obtain ord f where x: "x = (ord, f)" by (cases x)
  obtain L1 where L1: "ladder_add ord f (the_ladder s b) = Some L1" "add_orders xs L1 = Some L"
    using Cons.prems(2) x by (auto split: bind_splits)
  let ?b = "increment n ts (set_ladder s L1 b)"
  have step: "apply_delta_unchecked h (add_delta i n ts ti x) b = Some (?b, Inr ())"
    using apply_add [OF _ _ L1(1), of h i n ts ti] Cons.prems(1) x by auto
  from Cons.IH [of ?b] Cons.prems(1) L1(2) obtain b' where
    "apply_delta_list h (map (add_delta i n ts ti) xs) ?b = Some (b', Inr ())"
    "the_ladder s b' = L" "\<forall>t. t \<noteq> s \<longrightarrow> the_ladder t b' = the_ladder t ?b"
    "ob_book_type b' = ob_book_type ?b" by auto
  then show ?case using step by auto
qed

lemma apply_delta_list_append:
  "apply_delta_list h xs b = Some (b', Inr ()) \<Longrightarrow>
     apply_delta_list h (xs @ ys) b = apply_delta_list h ys b'"
proof (induction xs arbitrary: b)
  case (Cons d xs)
  then show ?case by (cases "apply_delta_unchecked h d b") (auto split: sum.splits)
qed simp

lemma those_map:
  "those (map f xs) = Some ys \<Longrightarrow> map f xs = map Some ys"
  by (induction xs arbitrary: ys) (auto split: option.splits)

lemma zip_swap: "map (\<lambda>(n, x). g (x, f n)) (zip ns xs) = map g (zip xs (map f ns))"
  by (induction ns xs rule: list_induct2') auto

lemma delta_new_add:
  "delta_new i AddAction ord f n ts ti =
     (if quantity_is_positive (bo_size ord) then Some (add_delta i n ts ti (ord, f)) else None)"
  by (simp add: delta_new_def delta_new_checked_def check_positive_quantity_def add_delta_def)

lemma to_deltas_shape:
  assumes "to_deltas ts ti b = Some ds"
  defines "ords \<equiv> ladder_order_list (ob_bids b) @ ladder_order_list (ob_asks b)"
  defines "fs \<equiv> map (\<lambda>n. snapshot_flags n (length ords)) [1..<Suc (length ords)]"
  shows "dl_instrument_id ds = ob_instrument_id b \<and>
    (\<exists>c. bd_action c = ClearAction \<and> bd_order c = NULL_ORDER \<and>
       dl_deltas ds = c # map (add_delta (ob_instrument_id b) (ob_sequence b) ts ti) (zip ords fs)) \<and>
    (\<forall>ord \<in> set ords. quantity_is_positive (bo_size ord))"
proof -
  let ?mk = "add_delta (ob_instrument_id b) (ob_sequence b) ts ti"
  let ?f = "\<lambda>(n, ord). delta_new (ob_instrument_id b) AddAction ord (snapshot_flags n (length ords))
    (ob_sequence b) ts ti"
  let ?zs = "zip [1..<Suc (length ords)] ords"
  define c0 where "c0 = delta_clear (ob_instrument_id b) (ob_sequence b) ts ti"
  define c where "c = (if length ords = 0 then c0\<lparr>bd_flags := bd_flags c0 OR flag_value F_LAST\<rparr> else c0)"
  have "to_deltas ts ti b = do { adds \<leftarrow> those (map ?f ?zs); deltas_new (ob_instrument_id b) (c # adds) }"
    unfolding to_deltas_def Let_def c_def c0_def ords_def ..
  then obtain adds where adds: "those (map ?f ?zs) = Some adds" "bd_action c = ClearAction"
    "bd_order c = NULL_ORDER" "deltas_new (ob_instrument_id b) (c # adds) = Some ds"
    using assms(1) by (cases "those (map ?f ?zs)") (simp_all add: c_def c0_def delta_clear_def)
  note some = those_map [OF adds(1)]
  have pos: "quantity_is_positive (bo_size ord)" if "ord \<in> set ords" for ord
  proof -
    have "ord \<in> set (map snd ?zs)" using that by (simp add: map_snd_zip del: upt_Suc)
    then obtain n where z: "(n, ord) \<in> set ?zs" by auto
    then have "?f (n, ord) \<in> set (map Some adds)"
      unfolding some [symmetric] set_map by (rule imageI)
    then show ?thesis by (auto simp: delta_new_add split: if_splits)
  qed
  have "map Some adds = map (\<lambda>(n, ord). Some (?mk (ord, snapshot_flags n (length ords)))) ?zs"
    unfolding some [symmetric] using pos by (auto simp: delta_new_add dest: set_zip_rightD)
  also have "\<dots> = map Some (map ?mk (zip ords fs))"
    unfolding fs_def by (simp only: zip_swap [of "\<lambda>x. Some (?mk x)"] map_map comp_def)
  finally have "adds = map ?mk (zip ords fs)" by (metis inj_map_eq_map inj_Some)
  then show ?thesis
    using adds(2-4) pos
    by (auto simp: deltas_new_def deltas_new_checked_def check_predicate_true_def Let_def
        split: sum.splits if_splits)
qed

lemma those_total: "(\<And>x. x \<in> set xs \<Longrightarrow> f x \<noteq> None) \<Longrightarrow> those (map f xs) \<noteq> None"
  by (induction xs) (fastforce split: option.split)+

lemma to_deltas_total:
  assumes "\<forall>ord \<in> set (ladder_order_list (ob_bids b) @ ladder_order_list (ob_asks b)).
    quantity_is_positive (bo_size ord)"
  shows "\<exists>ds. to_deltas ts ti b = Some ds"
proof -
  let ?ords = "ladder_order_list (ob_bids b) @ ladder_order_list (ob_asks b)"
  let ?f = "\<lambda>(n, ord). delta_new (ob_instrument_id b) AddAction ord (snapshot_flags n (length ?ords))
    (ob_sequence b) ts ti"
  have "those (map ?f (zip [1..<Suc (length ?ords)] ?ords)) \<noteq> None"
    by (rule those_total) (use assms in \<open>auto simp: delta_new_add dest: set_zip_rightD\<close>)
  then obtain adds where "those (map ?f (zip [1..<Suc (length ?ords)] ?ords)) = Some adds" by blast
  then show ?thesis
    unfolding to_deltas_def Let_def
    by (simp del: upt_Suc add: deltas_new_def deltas_new_checked_def check_predicate_true_def Let_def)
qed

lemma snapshot_flags_plain [simp]:
  "\<not> matches F_TOB (snapshot_flags n k)" "\<not> matches F_MBP (snapshot_flags n k)"
  by (simp_all add: matches_def snapshot_flags_def)

lemma apply_clear_list:
  assumes "bd_action c = ClearAction" and "bd_order c = NULL_ORDER"
  shows "apply_delta_list h (c # ds) b =
    apply_delta_list h ds (book_clear (bd_sequence c) (bd_ts_event c) b)"
  using assms by (simp add: apply_delta_unchecked_def resolve_delta_def NULL_ORDER_def)

definition id_stable :: "(int \<Rightarrow> nat) \<Rightarrow> order_book \<Rightarrow> bool" where
  "id_stable h b \<longleftrightarrow>
     ob_book_type b = L3_MBO \<or>
     ob_book_type b = L2_MBP \<and>
     (\<forall>s. \<forall>ord \<in> set (ladder_order_list (the_ladder s b)). bo_order_id ord = h (p_raw (bo_price ord)))"

lemma id_stable_pre:
  assumes "id_stable h b" and "ord \<in> set (ladder_order_list (the_ladder s b))"
  shows "pre_process_order h (ob_book_type b) ord (snapshot_flags n k) = ord"
  using assms
  by (auto simp: id_stable_def pre_process_order_def price_based_order_id_def)

lemma ladder_order_side:
  assumes "ladder_inv L" and "ord \<in> set (ladder_order_list L)"
  shows "as_specified (bo_side ord) = Some (ld_side L)"
proof -
  obtain k l i where k: "(k, l) \<in> set (ld_levels L)" "(i, ord) \<in> set (lv_orders l)"
    using assms(2) by (auto simp: ladder_order_list_def level_get_orders_def)
  then have ok: "level_ok (ld_side L) (raw_of k) l"
    using assms(1) by (auto simp: ladder_inv_def levels_ok_def)
  then have "map_of (lv_orders l) i = Some ord"
    using k(2) unfolding level_ok_def by (intro map_of_is_SomeI) blast+
  from level_okD(3) [OF ok this] show ?thesis .
qed

text \<open>One side of a snapshot played into a book whose ladder on that side is empty.\<close>

lemma play_side:
  assumes sound: "sound_book b" and stable: "id_stable h b"
    and pos: "\<forall>ord \<in> set (ladder_order_list (the_ladder s b)). quantity_is_positive (bo_size ord)"
    and b1: "ob_book_type b1 = ob_book_type b" "ld_side (the_ladder s b1) = s"
      "ld_book_type (the_ladder s b1) = ob_book_type b" "ld_levels (the_ladder s b1) = []"
    and fs: "length fs = length (ladder_order_list (the_ladder s b))"
      "\<forall>f \<in> set fs. \<exists>n k. f = snapshot_flags n k"
  shows "\<exists>b'. apply_delta_list h
      (map (add_delta i n ts ti) (zip (ladder_order_list (the_ladder s b)) fs)) b1 = Some (b', Inr ()) \<and>
    ladder_view (the_ladder s b') = ladder_view (the_ladder s b) \<and>
    (\<forall>t. t \<noteq> s \<longrightarrow> the_ladder t b' = the_ladder t b1) \<and> ob_book_type b' = ob_book_type b"
proof -
  let ?L = "the_ladder s b"
  have inv: "ladder_inv ?L" and side: "ld_side ?L = s" using sound by (simp_all add: sound_book_def)
  have list: "ladder_order_list ?L = level_list_orders (ld_levels ?L)"
    by (simp add: ladder_order_list_def level_list_orders_def)
  have "\<exists>L'. add_orders (zip (level_list_orders (ld_levels ?L)) fs) (the_ladder s b1) = Some L' \<and>
      ladder_view L' = ladder_view (the_ladder s b1) @ map (\<lambda>(k, l). (raw_of k, lv_orders l)) (ld_levels ?L)"
  proof (rule add_ladder)
    show "levels_ok (ld_side (the_ladder s b1)) (ld_levels ?L)"
      using inv side b1(2) by (simp add: ladder_inv_def)
    show "ld_book_type (the_ladder s b1) \<noteq> L1_MBP" using stable b1(3) by (auto simp: id_stable_def)
  qed (use pos fs(1) b1(4) in \<open>simp_all add: list beyond_def\<close>)
  then obtain L' where L': "add_orders (zip (ladder_order_list ?L) fs) (the_ladder s b1) = Some L'"
    "ladder_view L' = ladder_view ?L" by (auto simp: list ladder_view_def b1(4))
  have "\<forall>(ord, f) \<in> set (zip (ladder_order_list ?L) fs). as_specified (bo_side ord) = Some s \<and>
      pre_process_order h (ob_book_type b1) ord f = ord"
    using ladder_order_side [OF inv] id_stable_pre [OF stable] fs(2) side b1(1)
    by (fastforce dest: set_zip_leftD set_zip_rightD)
  from apply_adds [OF this L'(1), of i n ts ti] show ?thesis using L'(2) b1(1) by auto
qed

lemma sound_book_positive:
  assumes "sound_book b" and "list_all (\<lambda>ord. q_raw (bo_size ord) \<noteq> QUANTITY_UNDEF)
    (ladder_order_list (ob_bids b) @ ladder_order_list (ob_asks b))"
  shows "\<forall>ord \<in> set (ladder_order_list (ob_bids b) @ ladder_order_list (ob_asks b)).
    quantity_is_positive (bo_size ord)"
proof -
  have "0 < q_raw (bo_size ord)" if mem: "ord \<in> set (ladder_order_list L)" and inv: "ladder_inv L" for L ord
  proof -
    obtain l where "l \<in> set (map snd (ld_levels L))" "ord \<in> set (level_get_orders l)"
      using mem unfolding ladder_order_list_def by fastforce
    then show ?thesis using ladder_level_orders(2) [OF inv] by blast
  qed
  then show ?thesis
    using assms sound_bookD(1,3) [OF assms(1)] by (auto simp: list_all_iff quantity_is_positive_def)
qed



end
