(* ===== verification/Topic_Matching.thy ===== *)
theory Topic_Matching
  imports Fixed_Point
begin

text \<open>
  Topics, patterns and endpoints of the message bus
  (\<^verbatim>\<open>crates/common/src/msgbus/mstr.rs\<close>) and wildcard matching
  (\<^verbatim>\<open>crates/common/src/msgbus/matching.rs\<close>), with the string check of
  \<^verbatim>\<open>crates/core/src/correctness.rs\<close> they rest on. A string is its UTF-8 bytes, a byte
  being a \<^typ>\<open>char\<close>. The matcher's two loops are functions with their termination proofs;
  the result is that the matcher decides the usual recursive meaning of a pattern for every
  topic the bus accepts.
\<close>

section \<open>Valid strings\<close>

text \<open>
  \<^verbatim>\<open>char::is_whitespace\<close> on the UTF-8 encoding: the six ASCII characters, U+0085, U+00A0,
  U+1680, U+2000 to U+200A, U+2028, U+2029, U+202F, U+205F and U+3000. The function drops one
  whitespace character from the front, if there is one.
\<close>

definition byte :: "char \<Rightarrow> nat" where
  "byte c = of_char c"

fun whitespace_prefix :: "string \<Rightarrow> nat" where
  "whitespace_prefix [] = 0"
| "whitespace_prefix (a # s) =
     (if 9 \<le> byte a \<and> byte a \<le> 13 \<or> byte a = 32 then 1
      else case s of
        [] \<Rightarrow> 0
      | b # s' \<Rightarrow>
          if byte a = 194 \<and> (byte b = 133 \<or> byte b = 160) then 2
          else case s' of
            [] \<Rightarrow> 0
          | c # _ \<Rightarrow>
              if byte a = 225 \<and> byte b = 154 \<and> byte c = 128 \<or>
                 byte a = 226 \<and> byte b = 128 \<and>
                   (128 \<le> byte c \<and> byte c \<le> 138 \<or> byte c = 168 \<or> byte c = 169 \<or> byte c = 175) \<or>
                 byte a = 226 \<and> byte b = 129 \<and> byte c = 159 \<or>
                 byte a = 227 \<and> byte b = 128 \<and> byte c = 128
              then 3 else 0)"

function all_whitespace :: "string \<Rightarrow> bool" where
  "all_whitespace s \<longleftrightarrow>
     (if s = [] then True
      else if whitespace_prefix s = 0 then False
      else all_whitespace (drop (whitespace_prefix s) s))"
  by pat_completeness auto

termination
  by (relation "measure length") auto

declare all_whitespace.simps [simp del]

definition check_valid_string_utf8 :: "string \<Rightarrow> correctness_error + unit" where
  "check_valid_string_utf8 s =
     (if s = [] then Inl EmptyString
      else if all_whitespace s then Inl WhitespaceString
      else Inr ())"

section \<open>Topics, patterns and endpoints\<close>

text \<open>
  The marker types of \<^verbatim>\<open>MStr\<close> keep the three kinds of string apart; here they are the names
  of three copies of the string type. The error of a constructor is an \<^verbatim>\<open>anyhow\<close> error made
  from one of two causes.
\<close>

datatype mstr_error = InvalidString correctness_error | InvalidCharacters

type_synonym topic = string
type_synonym pattern = string
type_synonym endpoint = string

definition check_no_wildcards :: "string \<Rightarrow> mstr_error + unit" where
  "check_no_wildcards value =
     (if list_ex (\<lambda>b. b = CHR ''*'' \<or> b = CHR ''?'') value then Inl InvalidCharacters else Inr ())"

definition mstr_checked :: "string \<Rightarrow> mstr_error + string" where
  "mstr_checked value =
     (case check_valid_string_utf8 value of
        Inl e \<Rightarrow> Inl (InvalidString e)
      | Inr _ \<Rightarrow> (case check_no_wildcards value of Inl e \<Rightarrow> Inl e | Inr _ \<Rightarrow> Inr value))"

definition mstr_pattern :: "string \<Rightarrow> pattern" where
  "mstr_pattern value = value"

definition mstr_topic :: "string \<Rightarrow> mstr_error + topic" where
  "mstr_topic value = mstr_checked value"

definition topic_from_ustr :: "string \<Rightarrow> mstr_error + topic" where
  "topic_from_ustr value = mstr_checked value"

definition mstr_endpoint :: "string \<Rightarrow> mstr_error + endpoint" where
  "mstr_endpoint value = mstr_checked value"

definition endpoint_from_ustr :: "string \<Rightarrow> mstr_error + endpoint" where
  "endpoint_from_ustr value = mstr_checked value"

text \<open>The conversions from plain strings panic where the constructors return an error.\<close>

definition topic_from :: "string \<Rightarrow> topic option" where
  "topic_from value = (case mstr_topic value of Inl _ \<Rightarrow> None | Inr t \<Rightarrow> Some t)"

definition endpoint_from :: "string \<Rightarrow> endpoint option" where
  "endpoint_from value = (case mstr_endpoint value of Inl _ \<Rightarrow> None | Inr e \<Rightarrow> Some e)"

definition pattern_from_topic :: "topic \<Rightarrow> pattern" where
  "pattern_from_topic t = t"

section \<open>Matching\<close>

text \<open>The main loop, with the position of the last star and the topic position tried for it.\<close>

function greedy_loop ::
    "string \<Rightarrow> string \<Rightarrow> nat \<Rightarrow> nat \<Rightarrow> nat option \<Rightarrow> nat \<Rightarrow> nat option" where
  "greedy_loop topic pattern i j star_idx match_idx =
     (if i < length topic
      then if j < length pattern \<and> (pattern ! j = CHR ''?'' \<or> pattern ! j = topic ! i)
           then greedy_loop topic pattern (i + 1) (j + 1) star_idx match_idx
           else if j < length pattern \<and> pattern ! j = CHR ''*''
           then greedy_loop topic pattern i (j + 1) (Some j) i
           else (case star_idx of
                   Some si \<Rightarrow> greedy_loop topic pattern (match_idx + 1) (si + 1) star_idx (match_idx + 1)
                 | None \<Rightarrow> None)
      else Some j)"
  by pat_completeness auto

termination
  by (relation "measures
      [\<lambda>(t, p, i, j, s, m). if m \<le> i then 0 else 1,
       \<lambda>(t, p, i, j, s, m). length t - m,
       \<lambda>(t, p, i, j, s, m). length t - i,
       \<lambda>(t, p, i, j, s, m). length p - j]") auto

declare greedy_loop.simps [simp del]

function skip_stars :: "string \<Rightarrow> nat \<Rightarrow> nat" where
  "skip_stars pattern j =
     (if j < length pattern \<and> pattern ! j = CHR ''*'' then skip_stars pattern (j + 1) else j)"
  by pat_completeness auto

termination
  by (relation "measure (\<lambda>(p, j). length p - j)") auto

declare skip_stars.simps [simp del]

definition is_matching_greedy :: "string \<Rightarrow> string \<Rightarrow> bool" where
  "is_matching_greedy topic pattern =
     (case greedy_loop topic pattern 0 0 None 0 of
        None \<Rightarrow> False
      | Some j \<Rightarrow> skip_stars pattern j = length pattern)"

definition is_matching :: "string \<Rightarrow> string \<Rightarrow> bool" where
  "is_matching topic pattern =
     (if length topic = length pattern \<and> CHR ''*'' \<notin> set pattern \<and> CHR ''?'' \<notin> set pattern
      then topic = pattern
      else is_matching_greedy topic pattern)"

definition is_matching_backtracking :: "topic \<Rightarrow> pattern \<Rightarrow> bool" where
  "is_matching_backtracking topic pattern = is_matching topic pattern"

section \<open>The meaning of a pattern\<close>

text \<open>A star stands for any string, a question mark for any character.\<close>

fun glob :: "pattern \<Rightarrow> string \<Rightarrow> bool" where
  "glob [] t \<longleftrightarrow> t = []"
| "glob (c # p) [] \<longleftrightarrow> c = CHR ''*'' \<and> glob p []"
| "glob (c # p) (x # t) \<longleftrightarrow>
     (if c = CHR ''*'' then glob p (x # t) \<or> glob (c # p) t
      else (c = CHR ''?'' \<or> c = x) \<and> glob p t)"

definition fits :: "pattern \<Rightarrow> string \<Rightarrow> bool" where
  "fits p t \<longleftrightarrow> list_all2 (\<lambda>c x. c = CHR ''?'' \<or> c = x) p t"

text \<open>A star matches some prefix, and what matches after a star also matches after a longer text.\<close>

lemma glob_star: "glob (CHR ''*'' # p) t \<longleftrightarrow> (\<exists>k \<le> length t. glob p (drop k t))"
proof (induction t)
  case (Cons x t)
  have "(\<exists>k \<le> length (x # t). glob p (drop k (x # t))) \<longleftrightarrow>
    glob p (x # t) \<or> (\<exists>k \<le> length t. glob p (drop k t))"
    by (metis drop0 drop_Suc_Cons length_Cons Suc_le_mono le0 not0_implies_Suc)
  with Cons show ?case by simp
qed simp

lemma glob_plain:
  assumes "CHR ''*'' \<notin> set a"
  shows "glob (a @ q) t \<longleftrightarrow>
    length a \<le> length t \<and> fits a (take (length a) t) \<and> glob q (drop (length a) t)"
  using assms
proof (induction a arbitrary: t)
  case (Cons c a)
  then show ?case by (cases t) (auto simp: fits_def)
qed (simp add: fits_def)

lemma glob_star_suffix:
  assumes "glob (CHR ''*'' # q) (drop n t)" and "m \<le> n"
  shows "glob (CHR ''*'' # q) (drop m t)"
proof (cases "n \<le> length t")
  case True
  from assms(1) obtain k where k: "k \<le> length t - n" "glob q (drop k (drop n t))"
    unfolding glob_star by auto
  then have "glob q (drop (n - m + k) (drop m t))" using assms(2) by (simp add: add.commute)
  moreover have "n - m + k \<le> length (drop m t)" using k(1) True assms(2) by simp
  ultimately show ?thesis unfolding glob_star by blast
next
  case False
  with assms(1) have "glob q []" by (simp add: glob_star)
  then show ?thesis unfolding glob_star by (intro exI [of _ "length (drop m t)"]) simp
qed

text \<open>
  What the loop knows of the last star: the pattern after it up to the current position is free
  of stars and matches the topic between the position tried for the star and the current one.
\<close>

definition after_star :: "string \<Rightarrow> string \<Rightarrow> nat \<Rightarrow> nat \<Rightarrow> nat \<Rightarrow> nat \<Rightarrow> bool" where
  "after_star t p i j si m \<longleftrightarrow>
     m \<le> i \<and> i \<le> length t \<and> si < j \<and> j \<le> length p \<and> j - (si + 1) = i - m \<and>
     CHR ''*'' \<notin> set (take (i - m) (drop (si + 1) p)) \<and>
     fits (take (i - m) (drop (si + 1) p)) (take (i - m) (drop m t))"

lemma after_star_split:
  assumes "after_star t p i j si m"
  defines "a \<equiv> take (i - m) (drop (si + 1) p)"
  shows "drop (si + 1) p = a @ drop j p" and "length a = i - m" and "CHR ''*'' \<notin> set a"
    and "fits a (take (length a) (drop m t))" and "length a \<le> length (drop m t)"
    and "drop (length a) (drop m t) = drop i t"
proof -
  note inv = assms(1) [unfolded after_star_def]
  have j: "j = i - m + (si + 1)" using inv by linarith
  have "i - m \<le> length p - (si + 1)" using inv j by linarith
  then have len: "length a = i - m" unfolding a_def by simp
  show "drop (si + 1) p = a @ drop j p"
    unfolding a_def j drop_drop [symmetric] by (rule append_take_drop_id [symmetric])
  show "length a = i - m" by (rule len)
  show "CHR ''*'' \<notin> set a" using inv unfolding a_def by simp
  show "fits a (take (length a) (drop m t))" using inv unfolding len unfolding a_def by simp
  show "length a \<le> length (drop m t)" using inv unfolding len by (simp add: diff_le_mono)
  show "drop (length a) (drop m t) = drop i t" using inv unfolding len by simp
qed

text \<open>The meaning a state of the loop stands for.\<close>

definition pending :: "string \<Rightarrow> string \<Rightarrow> nat \<Rightarrow> nat \<Rightarrow> nat option \<Rightarrow> nat \<Rightarrow> bool" where
  "pending t p i j star m \<longleftrightarrow>
     (case star of
        None \<Rightarrow> glob (drop j p) (drop i t)
      | Some si \<Rightarrow> glob (CHR ''*'' # drop (si + 1) p) (drop m t))"

definition loop_inv :: "string \<Rightarrow> string \<Rightarrow> nat \<Rightarrow> nat \<Rightarrow> nat option \<Rightarrow> nat \<Rightarrow> bool" where
  "loop_inv t p i j star m \<longleftrightarrow>
     i \<le> length t \<and> j \<le> length p \<and> (\<forall>si. star = Some si \<longrightarrow> after_star t p i j si m)"

lemma take_Suc_drop:
  "k + n < length xs \<Longrightarrow> take (Suc n) (drop k xs) = take n (drop k xs) @ [xs ! (k + n)]"
  by (simp add: take_Suc_conv_app_nth)

lemma after_star_extend:
  assumes inv: "after_star t p i j si m" and ij: "i < length t" "j < length p"
    and c: "p ! j = CHR ''?'' \<or> p ! j = t ! i" "p ! j \<noteq> CHR ''*''"
  shows "after_star t p (i + 1) (j + 1) si m"
proof -
  note iv = inv [unfolded after_star_def]
  have j: "j = si + 1 + (i - m)" using iv by linarith
  have n: "i + 1 - m = Suc (i - m)" and m: "m + (i - m) = i" using iv by linarith+
  have "take (i + 1 - m) (drop (si + 1) p) = take (i - m) (drop (si + 1) p) @ [p ! j]"
    "take (i + 1 - m) (drop m t) = take (i - m) (drop m t) @ [t ! i]"
    using take_Suc_drop [of "si + 1" "i - m" p] take_Suc_drop [of m "i - m" t] ij
    unfolding n m j [symmetric] by blast+
  then show ?thesis
    using iv ij c by (auto simp: after_star_def fits_def intro: list_all2_appendI)
qed

lemma pending_match:
  assumes inv: "loop_inv t p i j star m" and ij: "i < length t" "j < length p"
    and c: "p ! j = CHR ''?'' \<or> p ! j = t ! i" "p ! j \<noteq> CHR ''*''"
  shows "loop_inv t p (i + 1) (j + 1) star m \<and>
    pending t p (i + 1) (j + 1) star m = pending t p i j star m"
proof -
  have "glob (drop j p) (drop i t) \<longleftrightarrow> glob (drop (j + 1) p) (drop (i + 1) t)"
    using c ij by (simp add: Cons_nth_drop_Suc [symmetric])
  then show ?thesis
    using inv ij c after_star_extend by (auto simp: loop_inv_def pending_def split: option.split)
qed

lemma pending_star:
  assumes inv: "loop_inv t p i j star m" and ij: "i < length t" "j < length p"
    and c: "p ! j = CHR ''*''"
  shows "loop_inv t p i (j + 1) (Some j) i \<and>
    pending t p i (j + 1) (Some j) i = pending t p i j star m"
proof
  show "loop_inv t p i (j + 1) (Some j) i"
    using ij by (auto simp: loop_inv_def after_star_def fits_def)
  have drop: "drop j p = CHR ''*'' # drop (j + 1) p"
    using ij c by (simp add: Cons_nth_drop_Suc [symmetric])
  show "pending t p i (j + 1) (Some j) i = pending t p i j star m"
  proof (cases star)
    case None
    then show ?thesis by (simp add: pending_def drop)
  next
    case (Some si)
    define a where "a = take (i - m) (drop (si + 1) p)"
    have inv: "after_star t p i j si m" using inv Some by (simp add: loop_inv_def)
    note sp = after_star_split [OF inv, folded a_def]
    let ?q = "CHR ''*'' # drop (j + 1) p"
    have "pending t p i j star m \<longleftrightarrow> (\<exists>k \<le> length (drop m t). glob (a @ ?q) (drop k (drop m t)))"
      unfolding pending_def Some option.case sp(1) glob_star drop ..
    also have "\<dots> \<longleftrightarrow> glob ?q (drop i t)"
    proof
      assume "glob ?q (drop i t)"
      then have "glob (a @ ?q) (drop 0 (drop m t))"
        using sp(4-6) by (simp only: glob_plain [OF sp(3)] drop0)
      then show "\<exists>k \<le> length (drop m t). glob (a @ ?q) (drop k (drop m t))" by blast
    next
      assume "\<exists>k \<le> length (drop m t). glob (a @ ?q) (drop k (drop m t))"
      then obtain k where "glob ?q (drop (length a) (drop k (drop m t)))"
        unfolding glob_plain [OF sp(3)] by blast
      then have "glob ?q (drop (length a + k + m) t)" by (simp add: add.assoc)
      moreover have "i \<le> length a + k + m" using sp(2) inv by (simp add: after_star_def)
      ultimately show "glob ?q (drop i t)" by (rule glob_star_suffix)
    qed
    finally show ?thesis by (simp add: pending_def)
  qed
qed

lemma pending_back:
  assumes inv: "loop_inv t p i j (Some si) m" and i: "i < length t"
    and c: "\<not> (j < length p \<and> (p ! j = CHR ''?'' \<or> p ! j = t ! i))"
      "\<not> (j < length p \<and> p ! j = CHR ''*'')"
  shows "loop_inv t p (m + 1) (si + 1) (Some si) (m + 1) \<and>
    pending t p (m + 1) (si + 1) (Some si) (m + 1) = pending t p i j (Some si) m"
proof
  have inv: "after_star t p i j si m" using inv by (simp add: loop_inv_def)
  note iv = inv [unfolded after_star_def]
  show "loop_inv t p (m + 1) (si + 1) (Some si) (m + 1)"
    using iv i by (auto simp: loop_inv_def after_star_def fits_def)
  define a where "a = take (i - m) (drop (si + 1) p)"
  note sp = after_star_split [OF inv, folded a_def]
  have "\<not> glob (drop j p) (drop i t)"
    using c i by (cases "j < length p") (auto simp: Cons_nth_drop_Suc [symmetric])
  then have "\<not> glob (drop (si + 1) p) (drop m t)"
    unfolding sp(1) glob_plain [OF sp(3)] using sp(6) by simp
  moreover have "drop m t = t ! m # drop (m + 1) t"
    using iv i by (simp add: Cons_nth_drop_Suc)
  ultimately show "pending t p (m + 1) (si + 1) (Some si) (m + 1) = pending t p i j (Some si) m"
    by (simp add: pending_def)
qed

lemma skip_stars_glob:
  "j \<le> length p \<Longrightarrow> skip_stars p j = length p \<longleftrightarrow> glob (drop j p) []"
proof (induction p j rule: skip_stars.induct)
  case (1 p j)
  show ?case
  proof (cases "j < length p")
    case True
    then have "drop j p = p ! j # drop (j + 1) p" by (simp add: Cons_nth_drop_Suc)
    with 1 True show ?thesis by (subst skip_stars.simps) auto
  qed (use 1 in \<open>simp add: skip_stars.simps\<close>)
qed

lemma pending_end:
  assumes inv: "loop_inv t p (length t) j star m"
  shows "pending t p (length t) j star m \<longleftrightarrow> skip_stars p j = length p"
proof (cases star)
  case None
  then show ?thesis using inv by (simp add: pending_def skip_stars_glob loop_inv_def)
next
  case (Some si)
  define a where "a = take (length t - m) (drop (si + 1) p)"
  have st: "after_star t p (length t) j si m" "j \<le> length p"
    using inv Some by (simp_all add: loop_inv_def)
  note sp = after_star_split [OF st(1), folded a_def]
  have "glob (a @ drop j p) (drop k (drop m t)) \<longleftrightarrow> k = 0 \<and> glob (drop j p) []"
    if "k \<le> length (drop m t)" for k
    unfolding glob_plain [OF sp(3)] using sp(2,4) that by (auto simp: sp(6))
  then have "pending t p (length t) j star m \<longleftrightarrow> glob (drop j p) []"
    unfolding pending_def Some option.case sp(1) glob_star by blast
  then show ?thesis by (simp add: skip_stars_glob [OF st(2)])
qed

lemma greedy_loop_decides:
  assumes "loop_inv t p i j star m" and "CHR ''*'' \<notin> set t"
  shows "(case greedy_loop t p i j star m of
            None \<Rightarrow> False | Some j' \<Rightarrow> skip_stars p j' = length p) = pending t p i j star m"
  using assms
proof (induction t p i j star m rule: greedy_loop.induct)
  case (1 t p i j star m)
  note inv = 1(4) and plain = 1(5)
  let ?match = "j < length p \<and> (p ! j = CHR ''?'' \<or> p ! j = t ! i)"
  let ?star = "j < length p \<and> p ! j = CHR ''*''"
  consider
      (stop) "\<not> i < length t" | (match) "i < length t" "?match"
    | (star) "i < length t" "\<not> ?match" "?star"
    | (again) si where "i < length t" "\<not> ?match" "\<not> ?star" "star = Some si"
    | (fail) "i < length t" "\<not> ?match" "\<not> ?star" "star = None"
    by blast
  then show ?case
  proof cases
    case stop
    then have "i = length t" using inv by (simp add: loop_inv_def)
    then show ?thesis using inv pending_end by (simp add: greedy_loop.simps)
  next
    case match
    then have "t ! i \<noteq> CHR ''*''" using plain by (metis nth_mem)
    then have "p ! j \<noteq> CHR ''*''" using match by auto
    note step = pending_match [OF inv match(1) _ _ this]
    show ?thesis
      using match step 1(1) [OF match] plain by (subst greedy_loop.simps) simp
  next
    case star
    note step = pending_star [OF inv star(1)]
    show ?thesis using star step 1(2) [OF star] plain by (subst greedy_loop.simps) simp
  next
    case again
    note step = pending_back [OF inv [unfolded again(4)] again(1-3)]
    have "greedy_loop t p i j star m = greedy_loop t p (m + 1) (si + 1) star (m + 1)"
      using again by (subst greedy_loop.simps) auto
    then show ?thesis using step 1(3) [OF again] plain again(4) by simp
  next
    case fail
    then have "\<not> glob (drop j p) (drop i t)"
      by (cases "j < length p") (auto simp: Cons_nth_drop_Suc [symmetric])
    moreover have "greedy_loop t p i j star m = None"
      using fail by (subst greedy_loop.simps) auto
    ultimately show ?thesis using fail(4) by (simp add: pending_def)
  qed
qed

lemma glob_literal:
  assumes "CHR ''*'' \<notin> set p" and "CHR ''?'' \<notin> set p"
  shows "glob p t \<longleftrightarrow> t = p"
  using assms
proof (induction p arbitrary: t)
  case (Cons c p)
  then show ?case by (cases t) auto
qed simp

lemma is_matching_glob:
  assumes "CHR ''*'' \<notin> set t"
  shows "is_matching t p = glob p t"
proof -
  have "is_matching_greedy t p = glob p t"
    using greedy_loop_decides [of t p 0 0 None 0] assms
    by (simp add: is_matching_greedy_def loop_inv_def pending_def)
  then show ?thesis by (auto simp: is_matching_def glob_literal)
qed

lemma mstr_checked_plain: "mstr_checked s = Inr t \<Longrightarrow> t = s \<and> CHR ''*'' \<notin> set t \<and> CHR ''?'' \<notin> set t"
  by (auto simp: mstr_checked_def check_no_wildcards_def list_ex_iff split: sum.splits if_splits)



end
