(* ===== verification/Topic_Router.thy ===== *)
theory Topic_Router
  imports Topic_Matching "HOL-Library.AList" "HOL-Library.Char_ord" "HOL-Library.List_Lexorder"
    "HOL-Library.Product_Lexorder"
begin

text \<open>
  Routing of published messages (\<^verbatim>\<open>crates/common/src/msgbus/typed_router.rs\<close>): the list
  of subscriptions kept sorted by priority, and the cache from topics to the indices of the
  matching subscriptions. A handler is its identifier and a callback of an arbitrary type;
  publishing returns the handlers it calls, in the order in which it calls them. The cache is an
  \<^verbatim>\<open>IndexMap\<close>, an association list in insertion order.
\<close>

section \<open>Subscriptions\<close>

record 'f typed_handler =
  th_id :: string
  th_callback :: 'f

record 'f typed_subscription =
  ts_handler :: "'f typed_handler"
  ts_handler_id :: string
  ts_pattern :: pattern
  ts_priority :: nat

definition subscription_new ::
    "pattern \<Rightarrow> 'f typed_handler \<Rightarrow> nat option \<Rightarrow> 'f typed_subscription" where
  "subscription_new pattern handler priority =
     \<lparr>ts_handler = handler, ts_handler_id = th_id handler, ts_pattern = pattern,
      ts_priority = (case priority of None \<Rightarrow> 0 | Some n \<Rightarrow> n)\<rparr>"

definition subscription_eq :: "'f typed_subscription \<Rightarrow> 'f typed_subscription \<Rightarrow> bool" where
  "subscription_eq s o' \<longleftrightarrow> ts_pattern s = ts_pattern o' \<and> ts_handler_id s = ts_handler_id o'"

text \<open>The key of \<^verbatim>\<open>Ord\<close>: descending priority, then the pattern, then the handler.\<close>

definition subscription_key :: "'f typed_subscription \<Rightarrow> int \<times> string \<times> string" where
  "subscription_key s = (- int (ts_priority s), ts_pattern s, ts_handler_id s)"

section \<open>The router\<close>

record 'f topic_router =
  tr_subscriptions :: "'f typed_subscription list"
  tr_topic_cache :: "(topic \<times> nat list) list"

definition router_new :: "'f topic_router" where
  "router_new = \<lparr>tr_subscriptions = [], tr_topic_cache = []\<rparr>"

definition subscription_count :: "'f topic_router \<Rightarrow> nat" where
  "subscription_count r = length (tr_subscriptions r)"

definition router_patterns :: "'f topic_router \<Rightarrow> pattern list" where
  "router_patterns r = map ts_pattern (tr_subscriptions r)"

definition handler_ids :: "'f topic_router \<Rightarrow> string list" where
  "handler_ids r = map ts_handler_id (tr_subscriptions r)"

definition router_subscribe ::
    "pattern \<Rightarrow> 'f typed_handler \<Rightarrow> nat \<Rightarrow> 'f topic_router \<Rightarrow> 'f topic_router" where
  "router_subscribe pattern handler priority r =
     (let sub = subscription_new pattern handler (Some priority)
      in if list_ex (\<lambda>s. subscription_eq s sub) (tr_subscriptions r) then r
         else r\<lparr>tr_subscriptions := sort_key subscription_key (tr_subscriptions r @ [sub]),
                tr_topic_cache := []\<rparr>)"

text \<open>\<^verbatim>\<open>Vec::remove\<close> of the first element for which the predicate holds.\<close>

fun remove_first :: "('a \<Rightarrow> bool) \<Rightarrow> 'a list \<Rightarrow> 'a list option" where
  "remove_first P [] = None"
| "remove_first P (x # xs) = (if P x then Some xs else map_option ((#) x) (remove_first P xs))"

definition remove_handler :: "pattern \<Rightarrow> string \<Rightarrow> 'f topic_router \<Rightarrow> 'f topic_router" where
  "remove_handler pattern handler_id r =
     (case remove_first (\<lambda>s. ts_pattern s = pattern \<and> ts_handler_id s = handler_id)
             (tr_subscriptions r) of
        None \<Rightarrow> r
      | Some subs \<Rightarrow> r\<lparr>tr_subscriptions := subs, tr_topic_cache := []\<rparr>)"

definition router_unsubscribe ::
    "pattern \<Rightarrow> 'f typed_handler \<Rightarrow> 'f topic_router \<Rightarrow> 'f topic_router" where
  "router_unsubscribe pattern handler r =
     (let handler_id = th_id handler
      in case remove_first (\<lambda>s. ts_pattern s = pattern \<and> ts_handler_id s = handler_id)
                (tr_subscriptions r) of
           None \<Rightarrow> r
         | Some subs \<Rightarrow> r\<lparr>tr_subscriptions := subs, tr_topic_cache := []\<rparr>)"

definition is_subscribed :: "pattern \<Rightarrow> 'f typed_handler \<Rightarrow> 'f topic_router \<Rightarrow> bool" where
  "is_subscribed pattern handler r =
     list_ex (\<lambda>s. ts_pattern s = pattern \<and> ts_handler_id s = th_id handler) (tr_subscriptions r)"

definition find_matches :: "topic \<Rightarrow> 'f topic_router \<Rightarrow> nat list" where
  "find_matches topic r =
     map fst (filter (\<lambda>(idx, sub). is_matching_backtracking topic (ts_pattern sub))
       (enumerate 0 (tr_subscriptions r)))"

definition get_matching_indices :: "topic \<Rightarrow> 'f topic_router \<Rightarrow> nat list option" where
  "get_matching_indices topic r = map_of (tr_topic_cache r) topic"

definition has_subscribers :: "topic \<Rightarrow> 'f topic_router \<Rightarrow> bool" where
  "has_subscribers topic r =
     (case get_matching_indices topic r of
        None \<Rightarrow> find_matches topic r \<noteq> []
      | Some indices \<Rightarrow> indices \<noteq> [])"

definition subscriber_count :: "topic \<Rightarrow> 'f topic_router \<Rightarrow> nat" where
  "subscriber_count topic r =
     (case get_matching_indices topic r of
        None \<Rightarrow> length (find_matches topic r)
      | Some indices \<Rightarrow> length indices)"

definition exact_subscriber_count :: "topic \<Rightarrow> 'f topic_router \<Rightarrow> nat" where
  "exact_subscriber_count topic r =
     length (filter (\<lambda>s. ts_pattern s = pattern_from_topic topic) (tr_subscriptions r))"

definition get_or_compute_matching_indices ::
    "topic \<Rightarrow> 'f topic_router \<Rightarrow> 'f topic_router \<times> nat list" where
  "get_or_compute_matching_indices topic r =
     (case map_of (tr_topic_cache r) topic of
        Some indices \<Rightarrow> (r, indices)
      | None \<Rightarrow>
          let indices = find_matches topic r
          in (r\<lparr>tr_topic_cache := tr_topic_cache r @ [(topic, indices)]\<rparr>, indices))"

text \<open>Indexing the subscriptions panics out of bounds.\<close>

fun handlers_at :: "'f typed_subscription list \<Rightarrow> nat list \<Rightarrow> 'f typed_handler list option" where
  "handlers_at subs [] = Some []"
| "handlers_at subs (idx # indices) =
     (if idx < length subs
      then map_option ((#) (ts_handler (subs ! idx))) (handlers_at subs indices)
      else None)"

definition router_publish ::
    "topic \<Rightarrow> 'f topic_router \<Rightarrow> ('f topic_router \<times> 'f typed_handler list) option" where
  "router_publish topic r =
     (let (r', indices) = get_or_compute_matching_indices topic r
      in map_option (Pair r') (handlers_at (tr_subscriptions r') indices))"

definition get_matching_handlers ::
    "topic \<Rightarrow> 'f topic_router \<Rightarrow> ('f topic_router \<times> 'f typed_handler list) option" where
  "get_matching_handlers topic r =
     (let (r', indices) = get_or_compute_matching_indices topic r
      in map_option (Pair r') (handlers_at (tr_subscriptions r') indices))"

definition fill_matching_handlers ::
    "topic \<Rightarrow> 'f typed_handler list \<Rightarrow> 'f topic_router \<Rightarrow>
     ('f topic_router \<times> 'f typed_handler list) option" where
  "fill_matching_handlers topic buf r =
     (let (r', indices) = get_or_compute_matching_indices topic r
      in map_option (\<lambda>hs. (r', buf @ hs)) (handlers_at (tr_subscriptions r') indices))"

definition router_clear :: "'f topic_router \<Rightarrow> 'f topic_router" where
  "router_clear r = r\<lparr>tr_subscriptions := [], tr_topic_cache := []\<rparr>"

section \<open>The invariant of the router\<close>

abbreviation sub_id :: "'f typed_subscription \<Rightarrow> pattern \<times> string" where
  "sub_id s \<equiv> (ts_pattern s, ts_handler_id s)"

definition router_inv :: "'f topic_router \<Rightarrow> bool" where
  "router_inv r \<longleftrightarrow>
     sorted (map subscription_key (tr_subscriptions r)) \<and>
     distinct (map sub_id (tr_subscriptions r)) \<and>
     (\<forall>s \<in> set (tr_subscriptions r). ts_handler_id s = th_id (ts_handler s)) \<and>
     (\<forall>(t, indices) \<in> set (tr_topic_cache r). indices = find_matches t r)"

lemma find_matches_cong: "tr_subscriptions r = tr_subscriptions r' \<Longrightarrow> find_matches t r = find_matches t r'"
  by (simp add: find_matches_def)

lemma router_inv_new [simp]: "router_inv router_new"
  by (simp add: router_inv_def router_new_def)

lemma router_inv_clear [simp]: "router_inv (router_clear r)"
  by (simp add: router_inv_def router_clear_def)

lemma distinct_sort_key: "distinct (map f (sort_key k xs)) = distinct (map f xs)"
  by (simp add: distinct_map)

lemma router_inv_subscribe:
  assumes "router_inv r"
  shows "router_inv (router_subscribe pattern handler priority r)"
proof (cases "list_ex (\<lambda>s. subscription_eq s (subscription_new pattern handler (Some priority)))
    (tr_subscriptions r)")
  case True
  then show ?thesis using assms by (simp add: router_subscribe_def)
next
  case False
  let ?sub = "subscription_new pattern handler (Some priority)"
  have "sub_id ?sub \<notin> sub_id ` set (tr_subscriptions r)"
    using False by (auto simp: subscription_eq_def list_ex_iff)
  moreover have "ts_handler_id ?sub = th_id (ts_handler ?sub)" by (simp add: subscription_new_def)
  ultimately show ?thesis
    using assms False
    unfolding router_inv_def router_subscribe_def Let_def
    by (simp add: distinct_sort_key del: sort_key_simps)
qed

lemma remove_first_distinct:
  assumes "distinct (map f xs)"
  shows "remove_first (\<lambda>x. f x = k) xs =
    (if k \<in> f ` set xs then Some (filter (\<lambda>x. f x \<noteq> k) xs) else None)"
  using assms
proof (induction xs)
  case (Cons x xs)
  then have "f x \<notin> f ` set xs" by simp
  then have "filter (\<lambda>y. f y \<noteq> f x) xs = xs" by (metis (mono_tags, lifting) filter_True image_eqI)
  with Cons show ?case by auto
qed simp

lemma remove_handler_eq:
  assumes "router_inv r"
  shows "remove_handler pattern i r =
    (if (pattern, i) \<in> sub_id ` set (tr_subscriptions r)
     then r\<lparr>tr_subscriptions := filter (\<lambda>s. sub_id s \<noteq> (pattern, i)) (tr_subscriptions r),
            tr_topic_cache := []\<rparr>
     else r)"
  using remove_first_distinct [of sub_id "tr_subscriptions r" "(pattern, i)"] assms
  by (simp add: remove_handler_def router_inv_def)

lemma router_inv_remove: "router_inv r \<Longrightarrow> router_inv (remove_handler pattern i r)"
  unfolding remove_handler_eq
  by (auto simp: router_inv_def sorted_filter distinct_map_filter)

lemma router_unsubscribe_eq: "router_unsubscribe pattern h = remove_handler pattern (th_id h)"
  by (simp add: fun_eq_iff router_unsubscribe_def remove_handler_def)

lemma router_inv_indices:
  assumes "router_inv r" and "get_or_compute_matching_indices topic r = (r', indices)"
  shows "router_inv r' \<and> tr_subscriptions r' = tr_subscriptions r \<and> indices = find_matches topic r"
  using assms find_matches_cong [of r' r]
  by (auto simp: router_inv_def get_or_compute_matching_indices_def Let_def dest: map_of_SomeD
      split: option.splits)

lemma handlers_at_map:
  "(\<forall>i \<in> set indices. i < length subs) \<Longrightarrow>
     handlers_at subs indices = Some (map (\<lambda>i. ts_handler (subs ! i)) indices)"
  by (induction indices) auto

lemma handlers_at_matches:
  "handlers_at (tr_subscriptions r) (find_matches t r) =
     Some (map ts_handler (filter (\<lambda>s. is_matching_backtracking t (ts_pattern s)) (tr_subscriptions r)))"
proof -
  let ?xs = "tr_subscriptions r" and ?P = "\<lambda>s. is_matching_backtracking t (ts_pattern s)"
  let ?ys = "filter (\<lambda>(i, s). ?P s) (enumerate 0 ?xs)"
  have mem: "i < length ?xs \<and> ?xs ! i = s" if "(i, s) \<in> set ?ys" for i s
    using that by (auto simp: in_set_enumerate_eq)
  have "map snd ?ys = filter ?P (map snd (enumerate 0 ?xs))"
    by (simp only: filter_map case_prod_beta' comp_def)
  moreover have "map (\<lambda>i. ts_handler (?xs ! i)) (map fst ?ys) = map ts_handler (map snd ?ys)"
    using mem by (auto simp: case_prod_beta')
  moreover have "\<forall>i \<in> set (map fst ?ys). i < length ?xs" using mem by fastforce
  ultimately show ?thesis by (simp add: find_matches_def handlers_at_map del: map_map)
qed

lemma router_publish_eq:
  assumes "router_inv r"
  shows "\<exists>r'. router_publish t r =
      Some (r', map ts_handler (filter (\<lambda>s. is_matching_backtracking t (ts_pattern s)) (tr_subscriptions r))) \<and>
    router_inv r' \<and> tr_subscriptions r' = tr_subscriptions r"
proof -
  obtain r' indices where r': "get_or_compute_matching_indices t r = (r', indices)" by fastforce
  note inv = router_inv_indices [OF assms r']
  show ?thesis
    using inv handlers_at_matches [of r t] by (simp add: router_publish_def r')
qed

section \<open>Runs of the router\<close>

datatype 'f router_op =
    Subscribe pattern "'f typed_handler" nat
  | Unsubscribe pattern "'f typed_handler"
  | RemoveHandler pattern string
  | Publish topic
  | ClearRouter

fun router_step :: "'f topic_router \<Rightarrow> 'f router_op \<Rightarrow> 'f topic_router option" where
  "router_step r (Subscribe p h n) = Some (router_subscribe p h n r)"
| "router_step r (Unsubscribe p h) = Some (router_unsubscribe p h r)"
| "router_step r (RemoveHandler p i) = Some (remove_handler p i r)"
| "router_step r (Publish t) = map_option fst (router_publish t r)"
| "router_step r ClearRouter = Some (router_clear r)"

text \<open>
  The abstract router: which handler is registered, and with what priority, under a pattern and a
  handler's identifier. The first registration counts.
\<close>

type_synonym 'f registry = "(pattern \<times> string) \<rightharpoonup> nat \<times> 'f typed_handler"

fun registry_step :: "'f registry \<Rightarrow> 'f router_op \<Rightarrow> 'f registry" where
  "registry_step m (Subscribe p h n) =
     (if m (p, th_id h) = None then m((p, th_id h) \<mapsto> (n, h)) else m)"
| "registry_step m (Unsubscribe p h) = m((p, th_id h) := None)"
| "registry_step m (RemoveHandler p i) = m((p, i) := None)"
| "registry_step m (Publish t) = m"
| "registry_step m ClearRouter = Map.empty"

definition registry :: "'f topic_router \<Rightarrow> 'f registry" where
  "registry r = map_of (map (\<lambda>s. (sub_id s, (ts_priority s, ts_handler s))) (tr_subscriptions r))"

lemma registry_Some:
  assumes "router_inv r"
  shows "registry r k = Some (n, h) \<longleftrightarrow>
    (\<exists>s \<in> set (tr_subscriptions r). k = sub_id s \<and> n = ts_priority s \<and> h = ts_handler s)"
proof -
  have "distinct (map fst (map (\<lambda>s. (sub_id s, (ts_priority s, ts_handler s))) (tr_subscriptions r)))"
    using assms by (simp add: router_inv_def comp_def)
  from map_of_eq_Some_iff [OF this, of k "(n, h)"] show ?thesis
    unfolding registry_def set_map image_iff prod.inject .
qed

lemma registry_None: "registry r k = None \<longleftrightarrow> k \<notin> sub_id ` set (tr_subscriptions r)"
  unfolding registry_def map_of_eq_None_iff by (simp add: image_image)

lemma registry_eqI:
  assumes "router_inv r" and "\<And>k n h. m k = Some (n, h) \<longleftrightarrow>
    (\<exists>s \<in> set (tr_subscriptions r). k = sub_id s \<and> n = ts_priority s \<and> h = ts_handler s)"
  shows "registry r = m"
proof
  fix k
  have eq: "registry r k = Some x \<longleftrightarrow> m k = Some x" for x
  proof -
    obtain n h where "x = (n, h)" by fastforce
    then show ?thesis by (simp only: registry_Some [OF assms(1)] assms(2))
  qed
  show "registry r k = m k"
  proof (cases "m k")
    case None
    then show ?thesis using eq by (metis option.exhaust)
  next
    case (Some x)
    then show ?thesis using eq [of x] by simp
  qed
qed

lemma registry_subscribe:
  assumes inv: "router_inv r"
  shows "registry (router_subscribe p h n r) = registry_step (registry r) (Subscribe p h n)"
proof (cases "(p, th_id h) \<in> sub_id ` set (tr_subscriptions r)")
  case True
  then have "router_subscribe p h n r = r"
    by (auto simp: router_subscribe_def Let_def subscription_eq_def subscription_new_def list_ex_iff)
  moreover have "registry r (p, th_id h) \<noteq> None" using True registry_None by blast
  ultimately show ?thesis by auto
next
  case False
  then have "set (tr_subscriptions (router_subscribe p h n r)) =
      insert (subscription_new p h (Some n)) (set (tr_subscriptions r))"
    by (auto simp: router_subscribe_def Let_def subscription_eq_def subscription_new_def list_ex_iff)
  moreover have "registry r (p, th_id h) = None" using False registry_None by blast
  ultimately show ?thesis
    using False router_inv_subscribe [OF inv]
    by (intro registry_eqI) (auto simp: registry_Some [OF inv] subscription_new_def)
qed

lemma registry_remove:
  assumes inv: "router_inv r"
  shows "registry (remove_handler p i r) = (registry r)((p, i) := None)"
  by (rule registry_eqI [OF router_inv_remove [OF inv]])
    (auto simp: registry_Some [OF inv] remove_handler_eq [OF inv])

interpretation router: simulation router_step router_inv "\<lambda>_. True" registry registry_step
proof unfold_locales
  fix r :: "'a topic_router" and e r'
  assume inv: "router_inv r"
  have "\<exists>r'. router_step r e = Some r' \<and> router_inv r' \<and> registry r' = registry_step (registry r) e"
  proof (cases e)
    case (Publish t)
    from router_publish_eq [OF inv, of t] obtain r1 hs where
      "router_publish t r = Some (r1, hs)" "router_inv r1" "tr_subscriptions r1 = tr_subscriptions r"
      by blast
    then show ?thesis using Publish by (simp add: registry_def)
  next
    case (Subscribe p h n)
    then show ?thesis
      using router_inv_subscribe [OF inv, of p h n] registry_subscribe [OF inv, of p h n] by simp
  next
    case (Unsubscribe p h)
    then show ?thesis
      using router_inv_remove [OF inv] registry_remove [OF inv] by (simp add: router_unsubscribe_eq)
  next
    case (RemoveHandler p i)
    then show ?thesis using router_inv_remove [OF inv] registry_remove [OF inv] by simp
  next
    case ClearRouter
    then show ?thesis by (simp add: router_clear_def registry_def router_inv_def)
  qed
  then obtain r1 where r1: "router_step r e = Some r1" "router_inv r1"
    "registry r1 = registry_step (registry r) e" by blast
  show "router_step r e \<noteq> None" using r1 by simp
  show "router_inv r'" if "router_step r e = Some r'" using r1 that by simp
  show "registry r' = registry_step (registry r) e" if "router_step r e = Some r'"
    using r1 that by simp
qed

text \<open>
  (C10) The router delivers every message to the right handlers. After any sequence of
  subscriptions, cancellations and publications, which may all have filled or cleared its cache,
  publishing to an accepted topic never panics and calls exactly the handlers whose pattern
  describes the topic, by descending priority and in a fixed order within a priority; who is
  registered is what a map fed the same operations holds.
\<close>

theorem router_delivers:
  assumes "mstr_topic s = Inr t"
  shows "\<exists>r r'. run_steps router_step router_new ops = Some r \<and>
    router_publish t r =
      Some (r', map ts_handler (filter (\<lambda>s. glob (ts_pattern s) t) (tr_subscriptions r))) \<and>
    sorted (map subscription_key (tr_subscriptions r)) \<and>
    distinct (map sub_id (tr_subscriptions r)) \<and>
    registry r = foldl registry_step Map.empty ops"
proof -
  have "list_all (\<lambda>_. True) ops" by (simp add: list_all_iff)
  from router.run_refines [OF router_inv_new this] obtain r where
    r: "run_steps router_step router_new ops = Some r" "router_inv r"
      "registry r = foldl registry_step (registry router_new) ops" by blast
  have "CHR ''*'' \<notin> set t" using mstr_checked_plain assms by (simp add: mstr_topic_def)
  then have "is_matching_backtracking t p = glob p t" for p
    by (simp add: is_matching_backtracking_def is_matching_glob)
  with router_publish_eq [OF r(2), of t] r show ?thesis
    by (auto simp: router_inv_def registry_def router_new_def)
qed

definition sample_handler :: "string \<Rightarrow> unit typed_handler" where
  "sample_handler i = \<lparr>th_id = i, th_callback = ()\<rparr>"

theorem router_delivers_witness:
  "\<exists>r r' hs. run_steps router_step router_new [Subscribe ''a.*'' (sample_handler ''h'') 0] = Some r \<and>
    router_publish ''a.b'' r = Some (r', hs) \<and>
    registry r (''a.*'', ''h'') = Some (0, sample_handler ''h'')"
proof -
  have "mstr_topic ''a.b'' = Inr ''a.b''"
    by (simp add: mstr_topic_def mstr_checked_def check_valid_string_utf8_def check_no_wildcards_def
        all_whitespace.simps byte_def)
  from router_delivers [OF this, of "[Subscribe ''a.*'' (sample_handler ''h'') 0]"] show ?thesis
    by (auto simp: sample_handler_def)
qed

end
