(* ===== verification/Component_FSM.thy ===== *)
theory Component_FSM
  imports Prelude "HOL-Library.AList"
begin

text \<open>
  The lifecycle of components (\<^verbatim>\<open>crates/common/src/component.rs\<close> and the enumerations of
  \<^verbatim>\<open>crates/common/src/enums.rs\<close>): the state machine, the lifecycle methods of the
  \<^verbatim>\<open>Component\<close> trait, and the registry that tracks which components are borrowed while a
  lifecycle method runs. What the handlers of a component do is a parameter: the handler of a
  method may call the registry again, for any component, and ends with success or an error.
\<close>

section \<open>States and triggers\<close>

datatype component_state =
    PreInitialized | Ready | Starting | Running | Stopping | Stopped | Resuming | Resetting
  | Disposing | Disposed | Degrading | Degraded | Faulting | Faulted

datatype component_trigger =
    Initialize | Start | StartCompleted | Stop | StopCompleted | Resume | ResumeCompleted
  | Reset | ResetCompleted | Dispose | DisposeCompleted | Degrade | DegradeCompleted
  | Fault | FaultCompleted

definition component_transition :: "component_state \<Rightarrow> component_trigger \<Rightarrow> component_state option" where
  "component_transition s trigger =
     (case s of
        PreInitialized \<Rightarrow>
          (case trigger of Initialize \<Rightarrow> Some Ready | _ \<Rightarrow> None)
      | Ready \<Rightarrow>
          (case trigger of Reset \<Rightarrow> Some Resetting | Start \<Rightarrow> Some Starting
            | Dispose \<Rightarrow> Some Disposing | _ \<Rightarrow> None)
      | Resetting \<Rightarrow>
          (case trigger of ResetCompleted \<Rightarrow> Some Ready | _ \<Rightarrow> None)
      | Starting \<Rightarrow>
          (case trigger of StartCompleted \<Rightarrow> Some Running
            | Stop \<Rightarrow> Some Stopping | Fault \<Rightarrow> Some Faulting
            | _ \<Rightarrow> None)
      | Running \<Rightarrow>
          (case trigger of Stop \<Rightarrow> Some Stopping | Degrade \<Rightarrow> Some Degrading
            | Fault \<Rightarrow> Some Faulting | _ \<Rightarrow> None)
      | Resuming \<Rightarrow>
          (case trigger of Stop \<Rightarrow> Some Stopping
            | ResumeCompleted \<Rightarrow> Some Running | Fault \<Rightarrow> Some Faulting
            | _ \<Rightarrow> None)
      | Stopping \<Rightarrow>
          (case trigger of StopCompleted \<Rightarrow> Some Stopped
            | Fault \<Rightarrow> Some Faulting | _ \<Rightarrow> None)
      | Stopped \<Rightarrow>
          (case trigger of Reset \<Rightarrow> Some Resetting | Resume \<Rightarrow> Some Resuming
            | Dispose \<Rightarrow> Some Disposing | Fault \<Rightarrow> Some Faulting
            | _ \<Rightarrow> None)
      | Degrading \<Rightarrow>
          (case trigger of DegradeCompleted \<Rightarrow> Some Degraded | _ \<Rightarrow> None)
      | Degraded \<Rightarrow>
          (case trigger of Resume \<Rightarrow> Some Resuming | Stop \<Rightarrow> Some Stopping
            | Fault \<Rightarrow> Some Faulting | _ \<Rightarrow> None)
      | Disposing \<Rightarrow>
          (case trigger of DisposeCompleted \<Rightarrow> Some Disposed | _ \<Rightarrow> None)
      | Faulting \<Rightarrow>
          (case trigger of FaultCompleted \<Rightarrow> Some Faulted | _ \<Rightarrow> None)
      | _ \<Rightarrow> None)"

text \<open>An error is an invalid trigger or the error a handler returned.\<close>

datatype component_error = InvalidTrigger component_state component_trigger | HandlerError

definition transition_state ::
    "component_trigger \<Rightarrow> component_state \<Rightarrow> component_state \<times> (component_error + unit)" where
  "transition_state trigger s =
     (case component_transition s trigger of
        None \<Rightarrow> (s, Inl (InvalidTrigger s trigger))
      | Some s' \<Rightarrow> (s', Inr ()))"

section \<open>Lifecycle methods\<close>

text \<open>
  The seven methods with a handler have one shape: the trigger, the handler, whose error halts
  the transition, and the completion trigger. The argument \<^term>\<open>ok\<close> says whether the handler
  succeeds.
\<close>

definition with_handler ::
    "component_trigger \<Rightarrow> component_trigger \<Rightarrow> bool \<Rightarrow> component_state \<Rightarrow>
     component_state \<times> (component_error + unit)" where
  "with_handler trigger completed ok s =
     (case transition_state trigger s of
        (s1, Inl e) \<Rightarrow> (s1, Inl e)
      | (s1, Inr _) \<Rightarrow> if \<not> ok then (s1, Inl HandlerError) else transition_state completed s1)"

definition component_initialize :: "component_state \<Rightarrow> component_state \<times> (component_error + unit)" where
  "component_initialize = transition_state Initialize"

definition component_start :: "bool \<Rightarrow> component_state \<Rightarrow> component_state \<times> (component_error + unit)" where
  "component_start = with_handler Start StartCompleted"

definition component_stop :: "bool \<Rightarrow> component_state \<Rightarrow> component_state \<times> (component_error + unit)" where
  "component_stop = with_handler Stop StopCompleted"

definition component_resume :: "bool \<Rightarrow> component_state \<Rightarrow> component_state \<times> (component_error + unit)" where
  "component_resume = with_handler Resume ResumeCompleted"

definition component_degrade :: "bool \<Rightarrow> component_state \<Rightarrow> component_state \<times> (component_error + unit)" where
  "component_degrade = with_handler Degrade DegradeCompleted"

definition component_fault :: "bool \<Rightarrow> component_state \<Rightarrow> component_state \<times> (component_error + unit)" where
  "component_fault = with_handler Fault FaultCompleted"

definition component_reset :: "bool \<Rightarrow> component_state \<Rightarrow> component_state \<times> (component_error + unit)" where
  "component_reset = with_handler Reset ResetCompleted"

definition component_dispose :: "bool \<Rightarrow> component_state \<Rightarrow> component_state \<times> (component_error + unit)" where
  "component_dispose = with_handler Dispose DisposeCompleted"

text \<open>A call of one of the public methods, with what its handler does.\<close>

datatype lifecycle_call =
    CallInitialize | CallStart bool | CallStop bool | CallResume bool | CallDegrade bool
  | CallFault bool | CallReset bool | CallDispose bool

fun lifecycle :: "component_state \<Rightarrow> lifecycle_call \<Rightarrow> component_state" where
  "lifecycle s CallInitialize = fst (component_initialize s)"
| "lifecycle s (CallStart ok) = fst (component_start ok s)"
| "lifecycle s (CallStop ok) = fst (component_stop ok s)"
| "lifecycle s (CallResume ok) = fst (component_resume ok s)"
| "lifecycle s (CallDegrade ok) = fst (component_degrade ok s)"
| "lifecycle s (CallFault ok) = fst (component_fault ok s)"
| "lifecycle s (CallReset ok) = fst (component_reset ok s)"
| "lifecycle s (CallDispose ok) = fst (component_dispose ok s)"

lemmas lifecycle_defs =
  component_initialize_def component_start_def component_stop_def component_resume_def
  component_degrade_def component_fault_def component_reset_def component_dispose_def
  with_handler_def transition_state_def

section \<open>The registry\<close>

record component_registry =
  cr_components :: "(string \<times> component_state) list"
  cr_borrows :: "string set"

definition registry_new :: component_registry where
  "registry_new = \<lparr>cr_components = [], cr_borrows = {}\<rparr>"

definition registry_insert :: "string \<Rightarrow> component_state \<Rightarrow> component_registry \<Rightarrow> component_registry" where
  "registry_insert i c r = r\<lparr>cr_components := AList.update i c (cr_components r)\<rparr>"

definition is_borrowed :: "string \<Rightarrow> component_registry \<Rightarrow> bool" where
  "is_borrowed i r \<longleftrightarrow> i \<in> cr_borrows r"

definition try_borrow :: "string \<Rightarrow> component_registry \<Rightarrow> component_registry \<times> bool" where
  "try_borrow i r =
     (if i \<in> cr_borrows r then (r, False) else (r\<lparr>cr_borrows := insert i (cr_borrows r)\<rparr>, True))"

definition release_borrow :: "string \<Rightarrow> component_registry \<Rightarrow> component_registry" where
  "release_borrow i r = r\<lparr>cr_borrows := cr_borrows r - {i}\<rparr>"

datatype registry_call =
    StartComponent string | StopComponent string | ResetComponent string | DisposeComponent string

fun call_id :: "registry_call \<Rightarrow> string" where
  "call_id (StartComponent i) = i"
| "call_id (StopComponent i) = i"
| "call_id (ResetComponent i) = i"
| "call_id (DisposeComponent i) = i"

fun call_triggers :: "registry_call \<Rightarrow> component_trigger \<times> component_trigger" where
  "call_triggers (StartComponent i) = (Start, StartCompleted)"
| "call_triggers (StopComponent i) = (Stop, StopCompleted)"
| "call_triggers (ResetComponent i) = (Reset, ResetCompleted)"
| "call_triggers (DisposeComponent i) = (Dispose, DisposeCompleted)"

definition set_state :: "string \<Rightarrow> component_state \<Rightarrow> component_registry \<Rightarrow> component_registry" where
  "set_state i s r = r\<lparr>cr_components := AList.update i s (cr_components r)\<rparr>"

text \<open>
  Entering a call: the lookup, the borrow and the first trigger. A call that gets no further has
  released its borrow, if it took one.
\<close>

definition enter_call :: "registry_call \<Rightarrow> component_registry \<Rightarrow> component_registry option" where
  "enter_call c r =
     (let i = call_id c
      in case map_of (cr_components r) i of
           None \<Rightarrow> None
         | Some s \<Rightarrow>
             (case try_borrow i r of
                (r1, False) \<Rightarrow> None
              | (r1, True) \<Rightarrow>
                  (case component_transition s (fst (call_triggers c)) of
                     None \<Rightarrow> None
                   | Some s1 \<Rightarrow> Some (set_state i s1 r1))))"

text \<open>Leaving it: the completion trigger if the handler succeeded, and the guard's release.\<close>

definition leave_call :: "registry_call \<Rightarrow> bool \<Rightarrow> component_registry \<Rightarrow> component_registry" where
  "leave_call c ok r =
     (let i = call_id c
      in release_borrow i
           (if ok
            then (case map_of (cr_components r) i of
                    None \<Rightarrow> r
                  | Some s \<Rightarrow> set_state i (fst (transition_state (snd (call_triggers c)) s)) r)
            else r))"

text \<open>
  A sequence of calls. The parameter gives what the handler of a call does: the calls it makes
  and whether it succeeds. An error of a nested call is the handler's to deal with.
\<close>

type_synonym handler_script = "registry_call \<Rightarrow> component_registry \<Rightarrow> registry_call list \<times> bool"

definition free_components :: "component_registry \<Rightarrow> string set" where
  "free_components r = fst ` set (cr_components r) - cr_borrows r"

lemma finite_free [simp]: "finite (free_components r)"
  by (simp add: free_components_def)

lemma enter_callD:
  assumes "enter_call c r = Some r1"
  shows "call_id c \<in> free_components r" and "cr_borrows r1 = insert (call_id c) (cr_borrows r)"
    and "fst ` set (cr_components r1) = fst ` set (cr_components r)"
    and "i \<noteq> call_id c \<Longrightarrow> map_of (cr_components r1) i = map_of (cr_components r) i"
proof -
  obtain s s1 where s: "map_of (cr_components r) (call_id c) = Some s" "call_id c \<notin> cr_borrows r"
    "r1 = set_state (call_id c) s1 (r\<lparr>cr_borrows := insert (call_id c) (cr_borrows r)\<rparr>)"
    using assms by (auto simp: enter_call_def try_borrow_def Let_def split: option.splits if_splits)
  have mem: "call_id c \<in> fst ` set (cr_components r)" using s(1) by (metis map_of_eq_None_iff option.distinct(1))
  with s show "call_id c \<in> free_components r" "cr_borrows r1 = insert (call_id c) (cr_borrows r)"
    by (simp_all add: free_components_def set_state_def)
  show "fst ` set (cr_components r1) = fst ` set (cr_components r)"
    using s(3) mem by (auto simp: set_state_def dom_update)
  show "i \<noteq> call_id c \<Longrightarrow> map_of (cr_components r1) i = map_of (cr_components r) i"
    using s(3) by (simp add: set_state_def update_conv)
qed

lemma leave_callD:
  "cr_borrows (leave_call c ok r) = cr_borrows r - {call_id c}"
  "fst ` set (cr_components (leave_call c ok r)) = fst ` set (cr_components r)"
  "i \<noteq> call_id c \<Longrightarrow> map_of (cr_components (leave_call c ok r)) i = map_of (cr_components r) i"
proof -
  show "cr_borrows (leave_call c ok r) = cr_borrows r - {call_id c}"
    by (simp add: leave_call_def release_borrow_def set_state_def Let_def split: option.split)
  show "fst ` set (cr_components (leave_call c ok r)) = fst ` set (cr_components r)"
    by (auto simp: leave_call_def release_borrow_def set_state_def Let_def dom_update
        split: option.split dest: map_of_SomeD) (force dest: map_of_SomeD)
  show "i \<noteq> call_id c \<Longrightarrow> map_of (cr_components (leave_call c ok r)) i = map_of (cr_components r) i"
    by (simp add: leave_call_def release_borrow_def set_state_def Let_def update_conv split: option.split)
qed

text \<open>What every call keeps: the set of borrows and the set of registered components.\<close>

definition same_frame :: "component_registry \<Rightarrow> component_registry \<Rightarrow> bool" where
  "same_frame r r' \<longleftrightarrow>
     cr_borrows r' = cr_borrows r \<and> fst ` set (cr_components r') = fst ` set (cr_components r)"

lemma same_frame_refl [simp]: "same_frame r r"
  by (simp add: same_frame_def)

lemma same_frame_call:
  assumes "enter_call c r = Some r1" and "same_frame r1 r2"
    and "same_frame (leave_call c ok r2) r3"
  shows "same_frame r r3"
  using enter_callD(1-3) [OF assms(1)] assms(2,3)
  by (simp add: same_frame_def leave_callD free_components_def)

lemma free_components_frame: "same_frame r r' \<Longrightarrow> free_components r' = free_components r"
  by (simp add: same_frame_def free_components_def)

function run_calls :: "handler_script \<Rightarrow> registry_call list \<Rightarrow> component_registry \<Rightarrow> component_registry" where
  "run_calls script [] r = r"
| "run_calls script (c # cs) r =
     (case enter_call c r of
        None \<Rightarrow> run_calls script cs r
      | Some r1 \<Rightarrow>
          run_calls script cs
            (leave_call c (snd (script c r1)) (run_calls script (fst (script c r1)) r1)))"
  by pat_completeness auto

termination
proof (relation "measures [\<lambda>(script, cs, r). card (free_components r), \<lambda>(script, cs, r). length cs]")
  fix script :: handler_script and c cs r r1
  assume enter: "enter_call c r = Some r1"
  note e = enter_callD [OF enter]
  have "free_components r1 \<subset> free_components r" using e(1-3) by (auto simp: free_components_def)
  then show "((script, fst (script c r1), r1), (script, c # cs, r)) \<in>
      measures [\<lambda>(script, cs, r). card (free_components r), \<lambda>(script, cs, r). length cs]"
    by (simp add: psubset_card_mono)
  assume dom: "run_calls_dom (script, fst (script c r1), r1)"
  have "same_frame r' (run_calls script' cs' r')" if "run_calls_dom (script', cs', r')" for script' cs' r'
    using that
  proof (induction rule: run_calls.pinduct)
    case (2 script c cs r)
    show ?case
    proof (cases "enter_call c r")
      case None
      then show ?thesis using 2(1,2) by (simp add: run_calls.psimps)
    next
      case (Some r1)
      then show ?thesis
        using same_frame_call [OF Some] 2(1) 2(3,4) [OF Some] by (simp add: run_calls.psimps)
    qed
  qed (simp add: run_calls.psimps)
  note frame = same_frame_call [OF enter this [OF dom] same_frame_refl]
  have "free_components (leave_call c (snd (script c r1)) (run_calls script (fst (script c r1)) r1)) =
      free_components r"
    using frame by (rule free_components_frame)
  then show "((script, cs, leave_call c (snd (script c r1)) (run_calls script (fst (script c r1)) r1)),
       (script, c # cs, r)) \<in>
      measures [\<lambda>(script, cs, r). card (free_components r), \<lambda>(script, cs, r). length cs]"
    by simp
qed simp_all

section \<open>Properties of the lifecycle\<close>

interpretation component: terminal_machine component_transition "\<lambda>s. s = Disposed \<or> s = Faulted"
  by unfold_locales (auto simp: component_transition_def)



text \<open>A state no lifecycle call leaves, although its handler failed half-way.\<close>

definition stuck_states :: "component_state set" where
  "stuck_states = {Resetting, Disposing, Degrading, Faulting}"

lemma lifecycle_stuck: "s \<in> stuck_states \<Longrightarrow> lifecycle s call = s"
  unfolding stuck_states_def
  by (cases call) (auto simp: lifecycle_defs component_transition_def)

lemma lifecycle_stuck_run: "s \<in> stuck_states \<Longrightarrow> foldl lifecycle s calls = s"
  by (induction calls) (simp_all add: lifecycle_stuck)

text \<open>The calls that shut a component down.\<close>

fun shutdown_plan :: "component_state \<Rightarrow> lifecycle_call list" where
  "shutdown_plan PreInitialized = [CallInitialize, CallDispose True]"
| "shutdown_plan Ready = [CallDispose True]"
| "shutdown_plan Stopped = [CallDispose True]"
| "shutdown_plan Stopping = [CallFault True]"
| "shutdown_plan Disposed = []"
| "shutdown_plan Faulted = []"
| "shutdown_plan _ = [CallStop True, CallDispose True]"

lemma shutdown_plan_works:
  assumes "s \<notin> stuck_states"
  shows "length (shutdown_plan s) \<le> 2 \<and> foldl lifecycle s (shutdown_plan s) \<in> {Disposed, Faulted}"
  using assms unfolding stuck_states_def
  by (cases s) (simp_all add: lifecycle_defs component_transition_def)


section \<open>Properties of the registry\<close>

lemma run_calls_frame: "same_frame r (run_calls script cs r)"
proof (induction script cs r rule: run_calls.induct)
  case (2 script c cs r)
  then show ?case by (cases "enter_call c r") (simp_all add: same_frame_call)
qed simp

lemma run_calls_borrowed:
  "i \<in> cr_borrows r \<Longrightarrow> map_of (cr_components (run_calls script cs r)) i = map_of (cr_components r) i"
proof (induction script cs r rule: run_calls.induct)
  case (2 script c cs r)
  show ?case
  proof (cases "enter_call c r")
    case None
    then show ?thesis using 2(1,4) by simp
  next
    case (Some r1)
    note e = enter_callD [OF Some]
    have i: "i \<noteq> call_id c" using e(1) 2(4) by (auto simp: free_components_def)
    then show ?thesis
      using 2(2) [OF Some] 2(3) [OF Some] 2(4) e(2,4) Some
        run_calls_frame [of r1 script "fst (script c r1)"]
      by (simp add: leave_callD same_frame_def)
  qed
qed simp

text \<open>
  (C26) Lifecycle calls through the registry are exclusive, whatever the handlers do. While a call
  has a component borrowed, no call made by its handler, at any depth of nesting, changes that
  component; every borrow is released again, no component appears or disappears, and the calls
  end.
\<close>

theorem registry_calls_exclusive:
  "(is_borrowed i r \<longrightarrow> map_of (cr_components (run_calls script cs r)) i = map_of (cr_components r) i) \<and>
   cr_borrows (run_calls script cs r) = cr_borrows r \<and>
   fst ` set (cr_components (run_calls script cs r)) = fst ` set (cr_components r)"
  using run_calls_borrowed run_calls_frame by (simp add: is_borrowed_def same_frame_def)

text \<open>A component whose start handler tries to dispose of it, while it is being started.\<close>

definition sample_script :: handler_script where
  "sample_script c r =
     (case c of StartComponent i \<Rightarrow> ([DisposeComponent i], True) | _ \<Rightarrow> ([], True))"

theorem registry_calls_exclusive_witness:
  "map_of (cr_components (run_calls sample_script [DisposeComponent ''a'']
     \<lparr>cr_components = [(''a'', Starting)], cr_borrows = {''a''}\<rparr>)) ''a'' = Some Starting"
  using registry_calls_exclusive [of "''a''" "\<lparr>cr_components = [(''a'', Starting)], cr_borrows = {''a''}\<rparr>"
      sample_script "[DisposeComponent ''a'']"]
  by (simp add: is_borrowed_def)

end
