(* ===== verification/Fifo_Caches.thy ===== *)
theory Fifo_Caches
  imports Fixed_Point
begin

text \<open>
  The bounded caches of \<^verbatim>\<open>crates/common/src/cache/fifo.rs\<close> and
  \<^verbatim>\<open>crates/common/src/cache/bounded.rs\<close>. A \<^verbatim>\<open>VecDeque\<close> is a list with its front
  first, a hash set a set and a hash map a map. The capacity of the two first-in-first-out caches
  is a constant of their type, so it is an argument here; a zero capacity does not compile.
\<close>

section \<open>Identifiers\<close>

record 'a fifo_cache =
  fc_order :: "'a list"
  fc_index :: "'a set"

definition fifo_new :: "'a fifo_cache" where
  "fifo_new = \<lparr>fc_order = [], fc_index = {}\<rparr>"

definition fifo_len :: "'a fifo_cache \<Rightarrow> nat" where
  "fifo_len c = card (fc_index c)"

definition fifo_contains :: "'a \<Rightarrow> 'a fifo_cache \<Rightarrow> bool" where
  "fifo_contains i c \<longleftrightarrow> i \<in> fc_index c"

definition fifo_add :: "nat \<Rightarrow> 'a \<Rightarrow> 'a fifo_cache \<Rightarrow> 'a fifo_cache" where
  "fifo_add n i c =
     (if i \<in> fc_index c then c
      else let c1 = (if length (fc_order c) = n \<and> fc_order c \<noteq> []
                     then c\<lparr>fc_order := butlast (fc_order c),
                            fc_index := fc_index c - {last (fc_order c)}\<rparr>
                     else c)
           in c1\<lparr>fc_order := i # fc_order c1, fc_index := insert i (fc_index c1)\<rparr>)"

definition fifo_remove :: "'a \<Rightarrow> 'a fifo_cache \<Rightarrow> 'a fifo_cache" where
  "fifo_remove i c =
     (if i \<in> fc_index c
      then c\<lparr>fc_index := fc_index c - {i}, fc_order := filter (\<lambda>x. x \<noteq> i) (fc_order c)\<rparr>
      else c)"

definition fifo_clear :: "'a fifo_cache \<Rightarrow> 'a fifo_cache" where
  "fifo_clear c = c\<lparr>fc_order := [], fc_index := {}\<rparr>"

section \<open>Keys and values\<close>

record ('k, 'v) fifo_cache_map =
  fm_order :: "'k list"
  fm_index :: "'k \<rightharpoonup> 'v"

definition fmap_new :: "('k, 'v) fifo_cache_map" where
  "fmap_new = \<lparr>fm_order = [], fm_index = Map.empty\<rparr>"

definition fmap_len :: "('k, 'v) fifo_cache_map \<Rightarrow> nat" where
  "fmap_len c = card (dom (fm_index c))"

definition fmap_contains_key :: "'k \<Rightarrow> ('k, 'v) fifo_cache_map \<Rightarrow> bool" where
  "fmap_contains_key k c \<longleftrightarrow> fm_index c k \<noteq> None"

definition fmap_get :: "'k \<Rightarrow> ('k, 'v) fifo_cache_map \<Rightarrow> 'v option" where
  "fmap_get k c = fm_index c k"

definition fmap_insert :: "nat \<Rightarrow> 'k \<Rightarrow> 'v \<Rightarrow> ('k, 'v) fifo_cache_map \<Rightarrow> ('k, 'v) fifo_cache_map" where
  "fmap_insert n k v c =
     (if fm_index c k \<noteq> None then c\<lparr>fm_index := (fm_index c)(k \<mapsto> v)\<rparr>
      else let c1 = (if length (fm_order c) = n \<and> fm_order c \<noteq> []
                     then c\<lparr>fm_order := butlast (fm_order c),
                            fm_index := (fm_index c)(last (fm_order c) := None)\<rparr>
                     else c)
           in c1\<lparr>fm_order := k # fm_order c1, fm_index := (fm_index c1)(k \<mapsto> v)\<rparr>)"

definition fmap_remove :: "'k \<Rightarrow> ('k, 'v) fifo_cache_map \<Rightarrow> ('k, 'v) fifo_cache_map \<times> 'v option" where
  "fmap_remove k c =
     (case fm_index c k of
        None \<Rightarrow> (c, None)
      | Some v \<Rightarrow>
          (c\<lparr>fm_index := (fm_index c)(k := None), fm_order := filter (\<lambda>x. x \<noteq> k) (fm_order c)\<rparr>,
           Some v))"

definition fmap_clear :: "('k, 'v) fifo_cache_map \<Rightarrow> ('k, 'v) fifo_cache_map" where
  "fmap_clear c = c\<lparr>fm_order := [], fm_index := Map.empty\<rparr>"

section \<open>Bounded deques\<close>

record 'a bounded_deque =
  bq_inner :: "'a list"
  bq_capacity :: nat

definition check_positive_usize :: "nat \<Rightarrow> correctness_error + unit" where
  "check_positive_usize value = (if value = 0 then Inl NotPositive else Inr ())"

definition deque_new :: "nat \<Rightarrow> 'a bounded_deque option" where
  "deque_new capacity =
     (case check_positive_usize capacity of
        Inl _ \<Rightarrow> None
      | Inr _ \<Rightarrow> Some \<lparr>bq_inner = [], bq_capacity = capacity\<rparr>)"

definition deque_push_front :: "'a \<Rightarrow> 'a bounded_deque \<Rightarrow> 'a bounded_deque" where
  "deque_push_front item d =
     d\<lparr>bq_inner := item # (if length (bq_inner d) \<ge> bq_capacity d then butlast (bq_inner d)
                           else bq_inner d)\<rparr>"

definition deque_len :: "'a bounded_deque \<Rightarrow> nat" where
  "deque_len d = length (bq_inner d)"

definition deque_front :: "'a bounded_deque \<Rightarrow> 'a option" where
  "deque_front d = (case bq_inner d of [] \<Rightarrow> None | x # _ \<Rightarrow> Some x)"

definition deque_get :: "nat \<Rightarrow> 'a bounded_deque \<Rightarrow> 'a option" where
  "deque_get i d = (if i < length (bq_inner d) then Some (bq_inner d ! i) else None)"

section \<open>The queue a cache implements\<close>

text \<open>
  A queue of key-value pairs with distinct keys, newest first: a new key pushes the oldest pair out
  of a full queue, a known key keeps its place and gets the new value.
\<close>

datatype ('k, 'v) cache_op = Insert 'k 'v | Remove 'k | ClearCache

fun queue_step :: "nat \<Rightarrow> ('k \<times> 'v) list \<Rightarrow> ('k, 'v) cache_op \<Rightarrow> ('k \<times> 'v) list" where
  "queue_step n q (Insert k v) =
     (if k \<in> fst ` set q then map (\<lambda>(k', v'). (k', if k' = k then v else v')) q
      else (k, v) # take (n - 1) q)"
| "queue_step n q (Remove k) = filter (\<lambda>(k', _). k' \<noteq> k) q"
| "queue_step n q ClearCache = []"

fun fmap_step ::
    "nat \<Rightarrow> ('k, 'v) fifo_cache_map \<Rightarrow> ('k, 'v) cache_op \<Rightarrow> ('k, 'v) fifo_cache_map option" where
  "fmap_step n c (Insert k v) = Some (fmap_insert n k v c)"
| "fmap_step n c (Remove k) = Some (fst (fmap_remove k c))"
| "fmap_step n c ClearCache = Some (fmap_clear c)"

fun fifo_step :: "nat \<Rightarrow> 'a fifo_cache \<Rightarrow> ('a, unit) cache_op \<Rightarrow> 'a fifo_cache option" where
  "fifo_step n c (Insert i _) = Some (fifo_add n i c)"
| "fifo_step n c (Remove i) = Some (fifo_remove i c)"
| "fifo_step n c ClearCache = Some (fifo_clear c)"

definition fmap_inv :: "nat \<Rightarrow> ('k, 'v) fifo_cache_map \<Rightarrow> bool" where
  "fmap_inv n c \<longleftrightarrow>
     0 < n \<and> length (fm_order c) \<le> n \<and> distinct (fm_order c) \<and> dom (fm_index c) = set (fm_order c)"

definition fmap_view :: "('k, 'v) fifo_cache_map \<Rightarrow> ('k \<times> 'v) list" where
  "fmap_view c = map (\<lambda>k. (k, the (fm_index c k))) (fm_order c)"

definition fifo_view :: "'a fifo_cache \<Rightarrow> ('a \<times> unit) list" where
  "fifo_view c = map (\<lambda>i. (i, ())) (fc_order c)"

definition fifo_inv :: "nat \<Rightarrow> 'a fifo_cache \<Rightarrow> bool" where
  "fifo_inv n c \<longleftrightarrow>
     0 < n \<and> length (fc_order c) \<le> n \<and> distinct (fc_order c) \<and> fc_index c = set (fc_order c)"

lemma last_notin_butlast: "distinct xs \<Longrightarrow> xs \<noteq> [] \<Longrightarrow> last xs \<notin> set (butlast xs)"
  by (metis append_butlast_last_id distinct_append disjoint_iff list.set_intros(1))

lemma set_last_butlast: "xs \<noteq> [] \<Longrightarrow> set xs = insert (last xs) (set (butlast xs))"
  by (metis Un_insert_right append_butlast_last_id list.simps(15) set_append sup_bot_right list.set(1))

lemma fmap_view_keys: "fst ` set (fmap_view c) = set (fm_order c)"
  by (simp add: fmap_view_def image_image)

lemma fmap_insert_new:
  assumes inv: "fmap_inv n c" and new: "fm_index c k = None"
  shows "fmap_inv n (fmap_insert n k v c) \<and>
    fmap_view (fmap_insert n k v c) = (k, v) # take (n - 1) (fmap_view c)"
proof (cases "length (fm_order c) = n")
  case full: True
  note i = inv [unfolded fmap_inv_def]
  let ?ks = "butlast (fm_order c)" and ?l = "last (fm_order c)"
  have ne: "fm_order c \<noteq> []" using full i by auto
  have out: "?l \<notin> set ?ks" "k \<notin> set ?ks" "set ?ks = set (fm_order c) - {?l}"
    using last_notin_butlast [OF _ ne] set_last_butlast [OF ne] new i by (auto simp: domIff)
  have "fmap_insert n k v c = c\<lparr>fm_order := k # ?ks, fm_index := (fm_index c)(?l := None, k \<mapsto> v)\<rparr>"
    using full ne new by (simp add: fmap_insert_def)
  moreover have "map (\<lambda>x. (x, the (((fm_index c)(?l := None, k \<mapsto> v)) x))) ?ks =
      take (n - 1) (fmap_view c)"
    using out full by (auto simp: fmap_view_def butlast_conv_take take_map)
  ultimately show ?thesis
    using i out full by (auto simp: fmap_inv_def fmap_view_def distinct_butlast)
next
  case False
  note i = inv [unfolded fmap_inv_def]
  have "fmap_insert n k v c = c\<lparr>fm_order := k # fm_order c, fm_index := (fm_index c)(k \<mapsto> v)\<rparr>"
    using False new by (simp add: fmap_insert_def)
  moreover have "k \<notin> set (fm_order c)" using new i by (auto simp: domIff)
  ultimately show ?thesis using False i by (auto simp: fmap_inv_def fmap_view_def)
qed

lemma fmap_step_refines:
  assumes inv: "fmap_inv n c"
  shows "\<exists>c'. fmap_step n c e = Some c' \<and> fmap_inv n c' \<and> fmap_view c' = queue_step n (fmap_view c) e"
proof (cases e)
  case (Insert k v)
  show ?thesis
  proof (cases "fm_index c k")
    case None
    then have "k \<notin> fst ` set (fmap_view c)" using inv by (auto simp: fmap_view_keys fmap_inv_def domIff)
    then show ?thesis using Insert fmap_insert_new [OF inv None] by simp
  next
    case (Some v0)
    then have "k \<in> fst ` set (fmap_view c)" using inv by (auto simp: fmap_view_keys fmap_inv_def domIff)
    then show ?thesis
      using Insert Some inv by (auto simp: fmap_insert_def fmap_inv_def fmap_view_def)
  qed
next
  case (Remove k)
  show ?thesis
  proof (cases "fm_index c k")
    case None
    then have "k \<notin> set (fm_order c)" using inv by (auto simp: fmap_inv_def domIff)
    then have "filter (\<lambda>x. x \<noteq> k) (fm_order c) = fm_order c" by (auto simp: filter_id_conv)
    then show ?thesis
      using Remove None inv by (simp add: fmap_remove_def fmap_view_def filter_map comp_def)
  next
    case (Some v)
    have "length (filter (\<lambda>x. x \<noteq> k) (fm_order c)) \<le> n"
      using inv by (intro order_trans [OF length_filter_le]) (simp add: fmap_inv_def)
    then show ?thesis
      using Remove Some inv
      by (auto simp: fmap_remove_def fmap_inv_def fmap_view_def filter_map comp_def intro: map_cong)
  qed
qed (use inv in \<open>simp add: fmap_clear_def fmap_inv_def fmap_view_def\<close>)

interpretation cache_map: simulation "fmap_step n" "fmap_inv n" "\<lambda>_. True" fmap_view "queue_step n" for n
  by unfold_locales (use fmap_step_refines in \<open>metis option.inject option.distinct(1)\<close>)+

text \<open>A cache of identifiers is a cache of keys without values.\<close>

definition as_map :: "'a fifo_cache \<Rightarrow> ('a, unit) fifo_cache_map" where
  "as_map c = \<lparr>fm_order = fc_order c, fm_index = (\<lambda>i. if i \<in> fc_index c then Some () else None)\<rparr>"

lemma as_map_step: "fmap_step n (as_map c) e = map_option as_map (fifo_step n c e)"
  by (cases e)
    (auto simp: as_map_def fmap_insert_def fifo_add_def fmap_remove_def fifo_remove_def fmap_clear_def
      fifo_clear_def Let_def fun_eq_iff)

lemma as_map_run: "run_steps (fmap_step n) (as_map c) es = map_option as_map (run_steps (fifo_step n) c es)"
  by (induction es arbitrary: c) (simp_all add: as_map_step split: option.split)

lemma as_map_new: "as_map fifo_new = fmap_new"
  by (simp add: as_map_def fifo_new_def fmap_new_def)

lemma fmap_run:
  assumes "0 < n"
  shows "\<exists>c. run_steps (fmap_step n) fmap_new es = Some c \<and> fmap_inv n c \<and>
    fmap_view c = foldl (queue_step n) [] es"
  using cache_map.run_refines [of n fmap_new es] assms
  by (simp add: fmap_inv_def fmap_new_def fmap_view_def list_all_iff)

lemma fmap_get_view:
  assumes "fmap_inv n c"
  shows "fmap_get k c = map_of (fmap_view c) k"
proof (cases "k \<in> set (fm_order c)")
  case True
  then obtain v where "fm_index c k = Some v" using assms by (auto simp: fmap_inv_def)
  then show ?thesis using True by (simp add: fmap_get_def fmap_view_def map_of_map_restrict)
next
  case False
  then show ?thesis
    using assms by (auto simp: fmap_get_def fmap_view_def map_of_map_restrict fmap_inv_def)
qed

lemma fmap_len_view: "fmap_inv n c \<Longrightarrow> fmap_len c = length (fmap_view c) \<and> fmap_len c \<le> n"
  by (simp add: fmap_len_def fmap_inv_def fmap_view_def distinct_card)

lemma as_map_inv:
  assumes "fmap_inv n (as_map c)"
  shows "fifo_contains i c \<longleftrightarrow> i \<in> fst ` set (fmap_view (as_map c))" and "fifo_len c \<le> n"
proof -
  have "dom (fm_index (as_map c)) = fc_index c" by (auto simp: as_map_def split: if_splits)
  then show "fifo_contains i c \<longleftrightarrow> i \<in> fst ` set (fmap_view (as_map c))" and "fifo_len c \<le> n"
    using assms fmap_len_view [OF assms]
    unfolding fmap_view_keys fifo_contains_def fifo_len_def fmap_len_def by (simp_all add: fmap_inv_def)
qed

text \<open>
  (C21) The caches are bounded first-in-first-out queues. Whatever is inserted, removed and cleared,
  a cache never holds more than its capacity, and a lookup gives what it gives in a queue from
  which a new key pushes out the oldest one and a known key keeps its place and takes the new
  value. The cache of identifiers answers membership in the same way.
\<close>

theorem caches_are_queues:
  assumes "0 < n"
  shows "(\<exists>c. run_steps (fmap_step n) fmap_new ops = Some c \<and>
      (\<forall>k. fmap_get k c = map_of (foldl (queue_step n) [] ops) k) \<and>
      fmap_len c = length (foldl (queue_step n) [] ops) \<and> fmap_len c \<le> n) \<and>
    (\<exists>c. run_steps (fifo_step n) fifo_new ids = Some c \<and>
      (\<forall>i. fifo_contains i c \<longleftrightarrow> i \<in> fst ` set (foldl (queue_step n) [] ids)) \<and> fifo_len c \<le> n)"
proof
  obtain c where c: "run_steps (fmap_step n) fmap_new ops = Some c" "fmap_inv n c"
    "fmap_view c = foldl (queue_step n) [] ops" using fmap_run [OF assms] by blast
  show "\<exists>c. run_steps (fmap_step n) fmap_new ops = Some c \<and>
      (\<forall>k. fmap_get k c = map_of (foldl (queue_step n) [] ops) k) \<and>
      fmap_len c = length (foldl (queue_step n) [] ops) \<and> fmap_len c \<le> n"
    using c(1) fmap_get_view [OF c(2)] fmap_len_view [OF c(2)] unfolding c(3) by blast
next
  obtain m where m: "run_steps (fmap_step n) fmap_new ids = Some m" "fmap_inv n m"
    "fmap_view m = foldl (queue_step n) [] ids" using fmap_run [OF assms] by blast
  then obtain c where c: "run_steps (fifo_step n) fifo_new ids = Some c" "m = as_map c"
    using as_map_run [of n fifo_new ids]
    by (cases "run_steps (fifo_step n) fifo_new ids") (auto simp: as_map_new)
  have inv: "fmap_inv n (as_map c)" and view: "fmap_view (as_map c) = foldl (queue_step n) [] ids"
    using m(2,3) c(2) by simp_all
  show "\<exists>c. run_steps (fifo_step n) fifo_new ids = Some c \<and>
      (\<forall>i. fifo_contains i c \<longleftrightarrow> i \<in> fst ` set (foldl (queue_step n) [] ids)) \<and> fifo_len c \<le> n"
    using c(1) as_map_inv [OF inv] unfolding view by blast
qed

theorem caches_are_queues_witness:
  "\<exists>c. run_steps (fmap_step 2) fmap_new [Insert (1::nat) ''a'', Insert 2 ''b'', Insert 3 ''c''] = Some c \<and>
     fmap_get 1 c = None \<and> fmap_get 3 c = Some ''c''"
  using caches_are_queues [of 2 "[Insert (1::nat) ''a'', Insert 2 ''b'', Insert 3 ''c'']" "[] :: (nat, unit) cache_op list"]
  by auto

section \<open>The deque\<close>

lemma push_all:
  "0 < bq_capacity d \<Longrightarrow> length (bq_inner d) \<le> bq_capacity d \<Longrightarrow>
     bq_inner (fold deque_push_front xs d) = take (bq_capacity d) (rev xs @ bq_inner d)"
proof (induction xs arbitrary: d)
  case (Cons x xs)
  let ?d = "deque_push_front x d"
  have cap: "bq_capacity ?d = bq_capacity d" by (simp add: deque_push_front_def)
  obtain n where n: "bq_capacity d = Suc n" using Cons.prems(1) by (cases "bq_capacity d") auto
  have inner: "bq_inner ?d = take (bq_capacity d) (x # bq_inner d)"
    using Cons.prems(2) n
    by (cases "length (bq_inner d) = Suc n") (simp_all add: deque_push_front_def butlast_conv_take)
  have "bq_inner (fold deque_push_front xs ?d) = take (bq_capacity d) (rev xs @ bq_inner ?d)"
    using Cons.IH [of ?d] Cons.prems cap inner by simp
  then show ?case unfolding inner by (simp add: min_def)
qed simp

text \<open>
  (C40) A bounded deque keeps the latest items, newest first: after any number of pushes it holds the
  first items, as many as its capacity, of the reversed sequence of pushes. Its constructor panics
  on a zero capacity and on nothing else.
\<close>

theorem deque_keeps_latest:
  "(deque_new capacity = (None :: 'a bounded_deque option) \<longleftrightarrow> capacity = 0) \<and>
   (deque_new capacity = Some d \<longrightarrow>
     bq_inner (fold deque_push_front xs d) = take capacity (rev (xs :: 'a list)) \<and>
     deque_front (fold deque_push_front xs d) = (if xs = [] then None else Some (last xs)))"
proof -
  have new: "deque_new capacity =
      (if capacity = 0 then None else Some \<lparr>bq_inner = [] :: 'a list, bq_capacity = capacity\<rparr>)"
    by (simp add: deque_new_def check_positive_usize_def)
  have inner: "bq_inner (fold deque_push_front xs d) = take capacity (rev xs)"
    and pos: "0 < capacity" if "deque_new capacity = Some d"
    using that push_all [of d xs] new by (auto split: if_splits)
  have "deque_front (fold deque_push_front xs d) = (if xs = [] then None else Some (last xs))"
    if "deque_new capacity = Some d"
  proof (cases xs rule: rev_cases)
    case Nil
    then show ?thesis using inner [OF that] by (simp add: deque_front_def)
  next
    case (snoc ys y)
    then have "bq_inner (fold deque_push_front xs d) = y # take (capacity - 1) (rev ys)"
      using inner [OF that] pos [OF that] by (simp add: take_Cons')
    then show ?thesis using snoc by (simp add: deque_front_def)
  qed
  then show ?thesis using new inner by simp
qed

theorem deque_keeps_latest_witness:
  "bq_inner (fold deque_push_front [1, 2, 3] \<lparr>bq_inner = [], bq_capacity = 2\<rparr>) = [3, 2 :: nat]"
  using deque_keeps_latest [of 2 "\<lparr>bq_inner = [], bq_capacity = 2\<rparr>" "[1, 2, 3 :: nat]"]
  by (simp add: deque_new_def check_positive_usize_def)

end
