(* ===== verification/Atomic_Time.thy ===== *)
theory Atomic_Time
  imports Prelude
begin

text \<open>
  Timestamps (\<^verbatim>\<open>crates/core/src/nanos.rs\<close>) and the atomic clock
  (\<^verbatim>\<open>crates/core/src/time.rs\<close>). A timestamp is a 64-bit count of nanoseconds, a natural
  number here; arithmetic that overflows panics. The wall clock is outside the program: each of
  its readings is an argument, and nothing is assumed of it, so that it may stand still or jump
  backwards. The compare-and-exchange loop of the real-time mode is a step relation in which the
  atomic operations of any number of threads interleave.
\<close>

section \<open>Timestamps\<close>

definition NANOSECONDS_IN_SECOND :: nat where
  "NANOSECONDS_IN_SECOND = 1000000000"

definition NANOSECONDS_IN_MILLISECOND :: nat where
  "NANOSECONDS_IN_MILLISECOND = 1000000"

definition NANOSECONDS_IN_MICROSECOND :: nat where
  "NANOSECONDS_IN_MICROSECOND = 1000"

definition nanos_as_seconds :: "nat \<Rightarrow> nat" where
  "nanos_as_seconds t = t div NANOSECONDS_IN_SECOND"

definition nanos_as_millis :: "nat \<Rightarrow> nat" where
  "nanos_as_millis t = t div NANOSECONDS_IN_MILLISECOND"

definition nanos_as_micros :: "nat \<Rightarrow> nat" where
  "nanos_as_micros t = t div NANOSECONDS_IN_MICROSECOND"

definition nanos_from_seconds :: "nat \<Rightarrow> nat option" where
  "nanos_from_seconds seconds = checked_mul_u 64 seconds NANOSECONDS_IN_SECOND"

definition nanos_from_millis :: "nat \<Rightarrow> nat option" where
  "nanos_from_millis millis = checked_mul_u 64 millis NANOSECONDS_IN_MILLISECOND"

definition nanos_from_micros :: "nat \<Rightarrow> nat option" where
  "nanos_from_micros micros = checked_mul_u 64 micros NANOSECONDS_IN_MICROSECOND"

definition nanos_as_i64 :: "nat \<Rightarrow> int option" where
  "nanos_as_i64 t = (if int t \<le> i_max 64 then Some (int t) else None)"

definition nanos_duration_since :: "nat \<Rightarrow> nat \<Rightarrow> nat option" where
  "nanos_duration_since t other = checked_sub_u t other"

definition nanos_checked_add :: "nat \<Rightarrow> nat \<Rightarrow> nat option" where
  "nanos_checked_add t rhs = checked_add_u 64 t rhs"

definition nanos_checked_sub :: "nat \<Rightarrow> nat \<Rightarrow> nat option" where
  "nanos_checked_sub t rhs = checked_sub_u t rhs"

definition nanos_saturating_add :: "nat \<Rightarrow> nat \<Rightarrow> nat" where
  "nanos_saturating_add t rhs = saturating_add_u 64 t rhs"

definition nanos_saturating_sub :: "nat \<Rightarrow> nat \<Rightarrow> nat" where
  "nanos_saturating_sub t rhs = saturating_sub_u t rhs"

text \<open>The operators panic where the checked operations return nothing.\<close>

definition nanos_add :: "nat \<Rightarrow> nat \<Rightarrow> nat option" where
  "nanos_add t rhs = checked_add_u 64 t rhs"

definition nanos_sub :: "nat \<Rightarrow> nat \<Rightarrow> nat option" where
  "nanos_sub t rhs = checked_sub_u t rhs"

section \<open>The atomic clock\<close>

record atomic_time =
  at_realtime :: bool
  at_timestamp_ns :: nat

definition atomic_new :: "bool \<Rightarrow> nat \<Rightarrow> atomic_time" where
  "atomic_new realtime time = \<lparr>at_realtime = realtime, at_timestamp_ns = time\<rparr>"

text \<open>One thread on its own; \<^term>\<open>now\<close> is its reading of the wall clock.\<close>

definition time_since_epoch :: "nat \<Rightarrow> atomic_time \<Rightarrow> (atomic_time \<times> nat) option" where
  "time_since_epoch now c =
     (case checked_add_u 64 (at_timestamp_ns c) 1 of
        None \<Rightarrow> None
      | Some incremented \<Rightarrow>
          let next = max now incremented in Some (c\<lparr>at_timestamp_ns := next\<rparr>, next))"

definition get_time_ns :: "nat \<Rightarrow> atomic_time \<Rightarrow> (atomic_time \<times> nat) option" where
  "get_time_ns now c =
     (if at_realtime c then time_since_epoch now c else Some (c, at_timestamp_ns c))"

definition get_time_us :: "nat \<Rightarrow> atomic_time \<Rightarrow> (atomic_time \<times> nat) option" where
  "get_time_us now c =
     map_option (\<lambda>(c', t). (c', t div NANOSECONDS_IN_MICROSECOND)) (get_time_ns now c)"

definition get_time_ms :: "nat \<Rightarrow> atomic_time \<Rightarrow> (atomic_time \<times> nat) option" where
  "get_time_ms now c =
     map_option (\<lambda>(c', t). (c', t div NANOSECONDS_IN_MILLISECOND)) (get_time_ns now c)"

definition set_time :: "nat \<Rightarrow> atomic_time \<Rightarrow> atomic_time option" where
  "set_time time c = (if at_realtime c then None else Some (c\<lparr>at_timestamp_ns := time\<rparr>))"

datatype time_error = RealtimeMode | BeyondMax

definition increment_time :: "nat \<Rightarrow> atomic_time \<Rightarrow> atomic_time \<times> (time_error + nat)" where
  "increment_time delta c =
     (if at_realtime c then (c, Inl RealtimeMode)
      else case checked_add_u 64 (at_timestamp_ns c) delta of
             None \<Rightarrow> (c, Inl BeyondMax)
           | Some t \<Rightarrow> (c\<lparr>at_timestamp_ns := t\<rparr>, Inr t))"

definition make_realtime :: "nat \<Rightarrow> atomic_time \<Rightarrow> atomic_time" where
  "make_realtime now c =
     (if at_realtime c then c else c\<lparr>at_realtime := True, at_timestamp_ns := now\<rparr>)"

definition make_static :: "nat \<Rightarrow> atomic_time \<Rightarrow> atomic_time" where
  "make_static now c =
     (if at_realtime c then c\<lparr>at_realtime := False, at_timestamp_ns := now\<rparr> else c)"

section \<open>Threads on the clock\<close>

text \<open>
  Where a thread is in \<^verbatim>\<open>time_since_epoch\<close>: outside, holding a reading of the wall clock,
  holding in addition the value it loaded, or stopped by the overflow panic. The number kept with
  the loaded value, of calls that had returned when it was loaded, is there for the statement of
  progress only.
\<close>

datatype thread_pc = Outside | HasNow nat | HasLast nat nat nat | Panicked

record clock_system =
  cs_timestamp :: nat
  cs_threads :: "nat \<Rightarrow> thread_pc"
  cs_returned :: "(nat \<times> nat) list"

definition clock_start :: "nat \<Rightarrow> clock_system" where
  "clock_start t0 = \<lparr>cs_timestamp = t0, cs_threads = (\<lambda>_. Outside), cs_returned = []\<rparr>"

inductive clock_step :: "clock_system \<Rightarrow> clock_system \<Rightarrow> bool" where
  read_wall_clock:
    "cs_threads S i = Outside \<Longrightarrow> now \<le> u_max 64 \<Longrightarrow>
       clock_step S (S\<lparr>cs_threads := (cs_threads S)(i := HasNow now)\<rparr>)"
| load:
    "cs_threads S i = HasNow now \<Longrightarrow>
       clock_step S (S\<lparr>cs_threads :=
         (cs_threads S)(i := HasLast now (cs_timestamp S) (length (cs_returned S)))\<rparr>)"
| overflow:
    "cs_threads S i = HasLast now loaded k \<Longrightarrow> checked_add_u 64 loaded 1 = None \<Longrightarrow>
       clock_step S (S\<lparr>cs_threads := (cs_threads S)(i := Panicked)\<rparr>)"
| exchange:
    "cs_threads S i = HasLast now loaded k \<Longrightarrow> checked_add_u 64 loaded 1 = Some incremented \<Longrightarrow>
       cs_timestamp S = loaded \<Longrightarrow>
       clock_step S (S\<lparr>cs_timestamp := max now incremented,
         cs_threads := (cs_threads S)(i := Outside),
         cs_returned := (i, max now incremented) # cs_returned S\<rparr>)"
| retry:
    "cs_threads S i = HasLast now loaded k \<Longrightarrow> checked_add_u 64 loaded 1 = Some incremented \<Longrightarrow>
       cs_timestamp S \<noteq> loaded \<Longrightarrow>
       clock_step S (S\<lparr>cs_threads := (cs_threads S)(i := HasNow now)\<rparr>)"

inductive clock_reachable :: "nat \<Rightarrow> clock_system \<Rightarrow> bool" for t0 where
  start: "clock_reachable t0 (clock_start t0)"
| step: "clock_reachable t0 S \<Longrightarrow> clock_step S S' \<Longrightarrow> clock_reachable t0 S'"

text \<open>
  The invariant: what was returned increases strictly and is bounded by the timestamp, and a
  loaded value is at most the timestamp, less than it only when a call has returned since.
\<close>

fun thread_ok :: "nat \<Rightarrow> nat \<Rightarrow> thread_pc \<Rightarrow> bool" where
  "thread_ok t n (HasLast now loaded k) \<longleftrightarrow> k \<le> n \<and> (loaded = t \<or> loaded < t \<and> k < n)"
| "thread_ok t n _ \<longleftrightarrow> True"

definition clock_inv :: "clock_system \<Rightarrow> bool" where
  "clock_inv S \<longleftrightarrow>
     sorted_wrt (\<lambda>a b. snd b < snd a) (cs_returned S) \<and>
     (\<forall>r \<in> set (cs_returned S). snd r \<le> cs_timestamp S) \<and>
     (\<forall>i. thread_ok (cs_timestamp S) (length (cs_returned S)) (cs_threads S i))"

lemma thread_ok_later: "thread_ok t n pc \<Longrightarrow> t < t' \<Longrightarrow> thread_ok t' (Suc n) pc"
  by (cases pc) auto

lemma clock_inv_step:
  assumes "clock_step S S'" and inv: "clock_inv S"
  shows "clock_inv S'"
  using assms(1)
proof (cases rule: clock_step.cases)
  case (exchange i now loaded k incremented)
  define v where "v = max now incremented"
  have later: "cs_timestamp S < v" using exchange by (simp add: v_def)
  have threads: "thread_ok v (Suc (length (cs_returned S))) (cs_threads S j)" for j
    using inv later by (intro thread_ok_later [of "cs_timestamp S"]) (simp_all add: clock_inv_def)
  have old: "snd r < v" if "r \<in> set (cs_returned S)" for r
    using inv later that unfolding clock_inv_def by (meson le_less_trans)
  show ?thesis
    using inv threads old unfolding exchange(1) clock_inv_def v_def [symmetric]
    by (simp add: less_imp_le)
qed (use inv in \<open>auto simp: clock_inv_def\<close>)

lemma clock_reachable_inv: "clock_reachable t0 S \<Longrightarrow> clock_inv S"
proof (induction rule: clock_reachable.induct)
  case start
  then show ?case by (simp add: clock_inv_def clock_start_def)
qed (rule clock_inv_step)

lemma decreasing_distinct:
  fixes f :: "'a \<Rightarrow> nat"
  shows "sorted_wrt (\<lambda>a b. f b < f a) xs \<Longrightarrow> distinct (map f xs)"
  by (induction xs) auto

text \<open>A thread that is left to run alone.\<close>

lemma solo_from_now:
  assumes i: "cs_threads S i = HasNow now" and t: "cs_timestamp S < u_max 64"
  shows "\<exists>S'. clock_step\<^sup>*\<^sup>* S S' \<and> cs_returned S' = (i, max now (cs_timestamp S + 1)) # cs_returned S"
proof -
  let ?S1 = "S\<lparr>cs_threads := (cs_threads S)(i := HasLast now (cs_timestamp S) (length (cs_returned S)))\<rparr>"
  have "clock_step S ?S1" by (rule load [OF i])
  moreover have "\<exists>S2. clock_step ?S1 S2 \<and> cs_returned S2 = (i, max now (cs_timestamp S + 1)) # cs_returned S"
    using exchange [of ?S1 i now "cs_timestamp S" "length (cs_returned S)" "cs_timestamp S + 1"] t
    by fastforce
  ultimately show ?thesis by (meson rtranclp.rtrancl_into_rtrancl rtranclp.rtrancl_refl)
qed

lemma solo_returns:
  assumes inv: "clock_inv S" and i: "cs_threads S i \<noteq> Panicked" and t: "cs_timestamp S < u_max 64"
  shows "\<exists>S' v. clock_step\<^sup>*\<^sup>* S S' \<and> cs_returned S' = (i, v) # cs_returned S"
proof (cases "cs_threads S i")
  case Outside
  let ?S1 = "S\<lparr>cs_threads := (cs_threads S)(i := HasNow 0)\<rparr>"
  have "clock_step S ?S1" by (rule read_wall_clock [OF Outside]) simp
  moreover have "\<exists>S' v. clock_step\<^sup>*\<^sup>* ?S1 S' \<and> cs_returned S' = (i, v) # cs_returned S"
    using solo_from_now [of ?S1 i 0] t by auto
  ultimately show ?thesis by (meson converse_rtranclp_into_rtranclp)
next
  case (HasNow now)
  then show ?thesis using solo_from_now [OF HasNow t] by blast
next
  case (HasLast now loaded k)
  have "thread_ok (cs_timestamp S) (length (cs_returned S)) (cs_threads S i)"
    using inv by (simp add: clock_inv_def)
  then have loaded: "loaded \<le> cs_timestamp S" by (auto simp: HasLast)
  then have add: "checked_add_u 64 loaded 1 = Some (loaded + 1)" using t by simp
  show ?thesis
  proof (cases "cs_timestamp S = loaded")
    case True
    from exchange [OF HasLast add True] show ?thesis
      by (intro exI [of _ "_ \<lparr>cs_returned := _\<rparr>"] exI conjI r_into_rtranclp) auto
  next
    case False
    let ?S1 = "S\<lparr>cs_threads := (cs_threads S)(i := HasNow now)\<rparr>"
    have "clock_step S ?S1" by (rule retry [OF HasLast add False])
    moreover have "\<exists>S' v. clock_step\<^sup>*\<^sup>* ?S1 S' \<and> cs_returned S' = (i, v) # cs_returned S"
      using solo_from_now [of ?S1 i now] t by auto
    ultimately show ?thesis by (meson converse_rtranclp_into_rtranclp)
  qed
qed (use i in simp)

lemma clock_reachable_steps: "clock_step\<^sup>*\<^sup>* S S' \<Longrightarrow> clock_reachable t0 S \<Longrightarrow> clock_reachable t0 S'"
  by (induction rule: rtranclp_induct) (auto intro: step)

text \<open>
  (C11) The real-time clock never returns the same timestamp twice, to any thread, and its
  timestamps increase in the order in which the calls take effect, whatever the interleaving of
  the threads and however the wall clock jumps.
\<close>

theorem realtime_clock_strictly_increasing:
  assumes "clock_reachable t0 S"
  shows "sorted_wrt (\<lambda>newer older. snd older < snd newer) (cs_returned S) \<and>
    distinct (map snd (cs_returned S))"
  using clock_reachable_inv [OF assms] decreasing_distinct [of snd "cs_returned S"]
  by (simp add: clock_inv_def)

theorem realtime_clock_strictly_increasing_witness:
  "\<exists>S v. clock_reachable 0 S \<and> cs_returned S = [(0, v)] \<and> distinct (map snd (cs_returned S))"
proof -
  have start: "clock_reachable 0 (clock_start 0)" by (rule start)
  from solo_returns [OF clock_reachable_inv [OF start], of 0] obtain S v where
    S: "clock_step\<^sup>*\<^sup>* (clock_start 0) S" "cs_returned S = [(0, v)]" by (auto simp: clock_start_def)
  note r = clock_reachable_steps [OF S(1) start]
  from realtime_clock_strictly_increasing [OF r] r S(2) show ?thesis by blast
qed

text \<open>
  (C23) The compare-and-exchange loop makes progress. An exchange fails only when another call has
  returned since the value was loaded, and a thread that is not stopped by the overflow panic
  returns when it is left to run alone, from wherever the other threads were interrupted.
\<close>

theorem realtime_clock_progress:
  assumes "clock_reachable t0 S"
  shows "(cs_threads S i = HasLast now loaded k \<and> cs_timestamp S \<noteq> loaded \<longrightarrow>
      k < length (cs_returned S)) \<and>
    (cs_threads S i \<noteq> Panicked \<and> cs_timestamp S < u_max 64 \<longrightarrow>
      (\<exists>S' v. clock_step\<^sup>*\<^sup>* S S' \<and> cs_returned S' = (i, v) # cs_returned S))"
proof -
  note inv = clock_reachable_inv [OF assms]
  have "thread_ok (cs_timestamp S) (length (cs_returned S)) (cs_threads S i)"
    using inv by (simp add: clock_inv_def)
  then have "k < length (cs_returned S)"
    if "cs_threads S i = HasLast now loaded k" "cs_timestamp S \<noteq> loaded"
    using that by simp
  then show ?thesis using solo_returns [OF inv, of i] by blast
qed

theorem realtime_clock_progress_witness:
  "\<exists>S' v. clock_step\<^sup>*\<^sup>* (clock_start 0) S' \<and> cs_returned S' = [(7, v)]"
  using realtime_clock_progress [OF start [of 0], of 7] by (simp add: clock_start_def)

end
