(* ===== verification/Test_Clock.thy ===== *)
theory Test_Clock
  imports Atomic_Time Topic_Matching "HOL-Library.AList" "HOL-Library.Char_ord"
    "HOL-Library.List_Lexorder" "HOL-Library.Product_Lexorder" "HOL-Library.Monad_Syntax"
begin

text \<open>
  Timers (\<^verbatim>\<open>crates/common/src/timer.rs\<close>) and the test clock
  (\<^verbatim>\<open>crates/common/src/clock.rs\<close>) that drives them. The timers are an association list
  with one entry per name. The \<^verbatim>\<open>BinaryHeap\<close> of scheduled events is a list from which the
  earliest entry is taken, the first pushed among equals; nothing proved below depends on that
  choice. Event identifiers are random, so a clock carries a supply of them. Callbacks are values
  of an arbitrary type. Logging is left out.
\<close>

section \<open>Timers\<close>

text \<open>\<^verbatim>\<open>NonZeroU64\<close> and \<^verbatim>\<open>NonZeroUsize\<close>, the number being one more than what is stored.\<close>

datatype non_zero = NonZero nat

fun nz_get :: "non_zero \<Rightarrow> nat" where
  "nz_get (NonZero n) = n + 1"

definition nz_new :: "nat \<Rightarrow> non_zero option" where
  "nz_new n = (if n = 0 then None else Some (NonZero (n - 1)))"

definition create_valid_interval :: "nat \<Rightarrow> non_zero" where
  "create_valid_interval interval_ns =
     (case nz_new interval_ns of None \<Rightarrow> NonZero 0 | Some n \<Rightarrow> n)"

record time_event =
  te_name :: string
  te_event_id :: string
  te_ts_event :: nat
  te_ts_init :: nat

record test_timer =
  tm_name :: string
  tm_interval_ns :: non_zero
  tm_start_time_ns :: nat
  tm_stop_time_ns :: "nat option"
  tm_fire_immediately :: bool
  tm_next_time_ns :: nat
  tm_is_expired :: bool

definition timer_new ::
    "string \<Rightarrow> non_zero \<Rightarrow> nat \<Rightarrow> nat option \<Rightarrow> bool \<Rightarrow> test_timer option" where
  "timer_new name interval_ns start_time_ns stop_time_ns fire_immediately =
     (case check_valid_string_utf8 name of
        Inl _ \<Rightarrow> None
      | Inr _ \<Rightarrow> do {
          next_time_ns \<leftarrow> (if fire_immediately then Some start_time_ns
                          else nanos_add start_time_ns (nz_get interval_ns));
          Some \<lparr>tm_name = name, tm_interval_ns = interval_ns, tm_start_time_ns = start_time_ns,
                tm_stop_time_ns = stop_time_ns, tm_fire_immediately = fire_immediately,
                tm_next_time_ns = next_time_ns, tm_is_expired = False\<rparr>})"

definition timer_pop_event :: "string \<Rightarrow> nat \<Rightarrow> test_timer \<Rightarrow> time_event" where
  "timer_pop_event event_id ts_init tm =
     \<lparr>te_name = tm_name tm, te_event_id = event_id, te_ts_event = tm_next_time_ns tm,
      te_ts_init = ts_init\<rparr>"

definition timer_cancel :: "test_timer \<Rightarrow> test_timer" where
  "timer_cancel tm = tm\<lparr>tm_is_expired := True\<rparr>"

text \<open>
  The iterator, given the identifier a new event takes. The outer option is the panic of the
  timestamp addition.
\<close>

definition timer_next :: "string \<Rightarrow> test_timer \<Rightarrow> (test_timer \<times> time_event option) option" where
  "timer_next event_id tm =
     (if tm_is_expired tm then Some (tm, None)
      else if (case tm_stop_time_ns tm of None \<Rightarrow> False | Some stop \<Rightarrow> tm_next_time_ns tm > stop)
      then Some (tm\<lparr>tm_is_expired := True\<rparr>, None)
      else
        let item = \<lparr>te_name = tm_name tm, te_event_id = event_id,
                    te_ts_event = tm_next_time_ns tm, te_ts_init = tm_next_time_ns tm\<rparr>;
            tm1 = (if tm_stop_time_ns tm = Some (tm_next_time_ns tm)
                   then tm\<lparr>tm_is_expired := True\<rparr> else tm)
        in do {
          next_time_ns \<leftarrow> nanos_add (tm_next_time_ns tm1) (nz_get (tm_interval_ns tm1));
          Some (tm1\<lparr>tm_next_time_ns := next_time_ns\<rparr>, Some item)})"

text \<open>\<^verbatim>\<open>Iterator::take\<close>, consumed to its end, with a supply of identifiers.\<close>

fun timer_take ::
    "nat \<Rightarrow> (nat \<Rightarrow> string) \<Rightarrow> test_timer \<Rightarrow> (test_timer \<times> time_event list) option" where
  "timer_take 0 ids tm = Some (tm, [])"
| "timer_take (Suc n) ids tm =
     (case timer_next (ids 0) tm of
        None \<Rightarrow> None
      | Some (tm1, None) \<Rightarrow> Some (tm1, [])
      | Some (tm1, Some event) \<Rightarrow>
          map_option (\<lambda>(tm2, events). (tm2, event # events)) (timer_take n (\<lambda>i. ids (Suc i)) tm1))"

definition timer_advance ::
    "nat \<Rightarrow> (nat \<Rightarrow> string) \<Rightarrow> test_timer \<Rightarrow> (test_timer \<times> time_event list) option" where
  "timer_advance to_time_ns ids tm =
     (let advances =
        (if tm_next_time_ns tm \<le> to_time_ns
         then saturating_add_u 64 ((to_time_ns - tm_next_time_ns tm) div nz_get (tm_interval_ns tm)) 1
         else 0)
      in timer_take advances ids tm)"

section \<open>Callbacks\<close>

record 'c callback_registry =
  cb_default :: "'c option"
  cb_callbacks :: "string \<rightharpoonup> 'c"

record 'c time_event_handler =
  eh_event :: time_event
  eh_callback :: 'c

definition callbacks_new :: "'c callback_registry" where
  "callbacks_new = \<lparr>cb_default = None, cb_callbacks = Map.empty\<rparr>"

definition register_default_handler :: "'c \<Rightarrow> 'c callback_registry \<Rightarrow> 'c callback_registry" where
  "register_default_handler callback r = r\<lparr>cb_default := Some callback\<rparr>"

definition cancel_default_handler :: "'c callback_registry \<Rightarrow> 'c callback_registry" where
  "cancel_default_handler r = r\<lparr>cb_default := None\<rparr>"

definition register_callback :: "string \<Rightarrow> 'c \<Rightarrow> 'c callback_registry \<Rightarrow> 'c callback_registry" where
  "register_callback name callback r = r\<lparr>cb_callbacks := (cb_callbacks r)(name \<mapsto> callback)\<rparr>"

definition has_any_callback :: "string \<Rightarrow> 'c callback_registry \<Rightarrow> bool" where
  "has_any_callback name r \<longleftrightarrow> cb_callbacks r name \<noteq> None \<or> cb_default r \<noteq> None"

definition get_callback :: "string \<Rightarrow> 'c callback_registry \<Rightarrow> 'c option" where
  "get_callback name r = (case cb_callbacks r name of Some c \<Rightarrow> Some c | None \<Rightarrow> cb_default r)"

definition get_handler :: "time_event \<Rightarrow> 'c callback_registry \<Rightarrow> 'c time_event_handler option" where
  "get_handler event r = do {
     callback \<leftarrow> get_callback (te_name event) r;
     Some \<lparr>eh_event = event, eh_callback = callback\<rparr>}"

definition callbacks_clear :: "'c callback_registry \<Rightarrow> 'c callback_registry" where
  "callbacks_clear r = r\<lparr>cb_callbacks := Map.empty\<rparr>"

section \<open>The clock\<close>

record 'c test_clock =
  ck_time :: atomic_time
  ck_timers :: "(string \<times> test_timer) list"
  ck_queue :: "time_event list"
  ck_callbacks :: "'c callback_registry"
  ck_ids :: "nat \<Rightarrow> string"

definition clock_new :: "(nat \<Rightarrow> string) \<Rightarrow> 'c test_clock" where
  "clock_new ids =
     \<lparr>ck_time = atomic_new False 0, ck_timers = [], ck_queue = [], ck_callbacks = callbacks_new,
      ck_ids = ids\<rparr>"

definition clock_timestamp_ns :: "'c test_clock \<Rightarrow> nat" where
  "clock_timestamp_ns c = at_timestamp_ns (ck_time c)"

text \<open>The heap: its earliest entry.\<close>

fun heap_peek :: "time_event list \<Rightarrow> time_event option" where
  "heap_peek [] = None"
| "heap_peek (e # q) =
     (case heap_peek q of
        None \<Rightarrow> Some e
      | Some e' \<Rightarrow> Some (if te_ts_event e \<le> te_ts_event e' then e else e'))"

definition scheduled_event :: "string \<Rightarrow> test_timer \<Rightarrow> time_event" where
  "scheduled_event event_id tm =
     \<lparr>te_name = tm_name tm, te_event_id = event_id, te_ts_event = tm_next_time_ns tm,
      te_ts_init = tm_next_time_ns tm\<rparr>"

definition compact_timer_queue :: "'c test_clock \<Rightarrow> 'c test_clock" where
  "compact_timer_queue c =
     (let n = length (ck_timers c)
      in c\<lparr>ck_queue := map2 (\<lambda>i (_, tm). scheduled_event (ck_ids c i) tm) [0..<n] (ck_timers c),
           ck_ids := (\<lambda>i. ck_ids c (n + i))\<rparr>)"

definition compact_timer_queue_if_needed :: "'c test_clock \<Rightarrow> 'c test_clock" where
  "compact_timer_queue_if_needed c =
     (if length (ck_queue c) > length (ck_timers c) * 2 then compact_timer_queue c else c)"

definition replace_existing_timer ::
    "string \<Rightarrow> (string \<times> test_timer) list \<Rightarrow> (string \<times> test_timer) list" where
  "replace_existing_timer name timers =
     (case map_of timers name of None \<Rightarrow> timers | Some _ \<Rightarrow> AList.delete name timers)"

definition replace_existing_timer_if_needed :: "string \<Rightarrow> 'c test_clock \<Rightarrow> 'c test_clock" where
  "replace_existing_timer_if_needed name c =
     compact_timer_queue_if_needed (c\<lparr>ck_timers := replace_existing_timer name (ck_timers c)\<rparr>)"

definition insert_timer :: "test_timer \<Rightarrow> 'c test_clock \<Rightarrow> 'c test_clock" where
  "insert_timer tm c =
     compact_timer_queue_if_needed
       (c\<lparr>ck_queue := ck_queue c @ [scheduled_event (ck_ids c 0) tm],
          ck_timers := AList.update (tm_name tm) tm (ck_timers c),
          ck_ids := (\<lambda>i. ck_ids c (Suc i))\<rparr>)"

text \<open>
  One entry of the queue: the event it fires, if the entry is still the timer's, and the timer's
  next entry. The outer option is the panic of the timestamp addition.
\<close>

definition advance_timer_from_entry ::
    "time_event \<Rightarrow> 'c test_clock \<Rightarrow> ('c test_clock \<times> (time_event \<times> time_event option) option) option"
where
  "advance_timer_from_entry entry c =
     (case map_of (ck_timers c) (te_name entry) of
        None \<Rightarrow> Some (c, None)
      | Some tm \<Rightarrow>
          if tm_next_time_ns tm \<noteq> te_ts_event entry then Some (c, None)
          else (case timer_next (ck_ids c 0) tm of
                  None \<Rightarrow> None
                | Some (tm1, None) \<Rightarrow>
                    Some (c\<lparr>ck_timers := AList.delete (te_name entry) (ck_timers c)\<rparr>, None)
                | Some (tm1, Some event) \<Rightarrow>
                    if tm_is_expired tm1
                    then Some (c\<lparr>ck_timers := AList.delete (te_name entry) (ck_timers c),
                                 ck_ids := (\<lambda>i. ck_ids c (1 + i))\<rparr>, Some (event, None))
                    else Some (c\<lparr>ck_timers := AList.update (te_name entry) tm1 (ck_timers c),
                                 ck_ids := (\<lambda>i. ck_ids c (2 + i))\<rparr>,
                               Some (event, Some (scheduled_event (ck_ids c 1) tm1)))))"

lemma heap_peek_None [simp]: "heap_peek q = None \<longleftrightarrow> q = []"
  by (cases q) (auto split: option.split)

lemma heap_peek_Some:
  "heap_peek q = Some e \<Longrightarrow> e \<in> set q \<and> (\<forall>e' \<in> set q. te_ts_event e \<le> te_ts_event e')"
  by (induction q arbitrary: e) (auto split: option.splits if_splits)

lemma timer_next_later:
  assumes "timer_next i tm = Some (tm1, Some event)"
  shows "tm_next_time_ns tm < tm_next_time_ns tm1"
proof -
  obtain n where "tm_interval_ns tm = NonZero n" by (cases "tm_interval_ns tm")
  with assms show ?thesis
    by (auto simp: timer_next_def nanos_add_def Let_def split: if_splits option.splits bind_splits)
qed

lemma advance_entry_frame:
  assumes "advance_timer_from_entry entry c = Some (c', r)"
  shows "ck_queue c' = ck_queue c"
    and "r = Some (event, Some later) \<Longrightarrow> te_ts_event entry < te_ts_event later"
  using assms
  by (auto simp: advance_timer_from_entry_def scheduled_event_def
      split: option.splits if_splits prod.splits dest: timer_next_later)

text \<open>What the entries due at a time add up to, which decreases with every iteration.\<close>

definition queue_work :: "nat \<Rightarrow> time_event list \<Rightarrow> nat" where
  "queue_work to q = sum_list (map (\<lambda>e. Suc to - te_ts_event e) q)"

lemma queue_work_pop:
  "e \<in> set q \<Longrightarrow> queue_work to q = (Suc to - te_ts_event e) + queue_work to (remove1 e q)"
  unfolding queue_work_def by (induction q) auto

lemma queue_work_push [simp]: "queue_work to (q @ [e]) = queue_work to q + (Suc to - te_ts_event e)"
  by (simp add: queue_work_def)

lemma queue_work_decreases:
  assumes "heap_peek (ck_queue c) = Some entry" and "te_ts_event entry \<le> to"
    and "advance_timer_from_entry entry (c\<lparr>ck_queue := remove1 entry (ck_queue c)\<rparr>) = Some (c1, r)"
  shows "queue_work to (ck_queue c1) < queue_work to (ck_queue c)"
    and "r = Some (event, Some later) \<Longrightarrow>
      queue_work to (ck_queue c1 @ [later]) < queue_work to (ck_queue c)"
  using queue_work_pop [of entry "ck_queue c" to] heap_peek_Some [OF assms(1)]
    advance_entry_frame [OF assms(3)] assms(2) by auto

function advance_loop ::
    "nat \<Rightarrow> 'c test_clock \<Rightarrow> time_event list \<Rightarrow> ('c test_clock \<times> time_event list) option" where
  "advance_loop to_time_ns c events =
     (case heap_peek (ck_queue c) of
        None \<Rightarrow> Some (c, events)
      | Some entry \<Rightarrow>
          if te_ts_event entry \<le> to_time_ns
          then (case advance_timer_from_entry entry (c\<lparr>ck_queue := remove1 entry (ck_queue c)\<rparr>) of
                  None \<Rightarrow> None
                | Some (c1, None) \<Rightarrow> advance_loop to_time_ns c1 events
                | Some (c1, Some (event, None)) \<Rightarrow> advance_loop to_time_ns c1 (events @ [event])
                | Some (c1, Some (event, Some next_event)) \<Rightarrow>
                    advance_loop to_time_ns (c1\<lparr>ck_queue := ck_queue c1 @ [next_event]\<rparr>)
                      (events @ [event]))
          else Some (c, events))"
  by pat_completeness auto

termination
  by (relation "measure (\<lambda>(to, c, events). queue_work to (ck_queue c))")
    (auto dest: queue_work_decreases)

declare advance_loop.simps [simp del]

text \<open>The clock's time is in static mode, so that advancing can always set it.\<close>

definition advance_time ::
    "nat \<Rightarrow> bool \<Rightarrow> 'c test_clock \<Rightarrow> ('c test_clock \<times> time_event list) option" where
  "advance_time to_time_ns set_it c =
     (if to_time_ns < clock_timestamp_ns c then None
      else do {
        c1 \<leftarrow> (if set_it
               then map_option (\<lambda>t. c\<lparr>ck_time := t\<rparr>) (set_time to_time_ns (ck_time c))
               else Some c);
        (c2, events) \<leftarrow> advance_loop to_time_ns c1 [];
        Some (compact_timer_queue_if_needed c2,
              sort_key (\<lambda>e. (te_ts_event e, te_name e)) events)})"

fun match_handlers :: "time_event list \<Rightarrow> 'c test_clock \<Rightarrow> 'c time_event_handler list option" where
  "match_handlers [] c = Some []"
| "match_handlers (e # events) c = do {
     h \<leftarrow> get_handler e (ck_callbacks c);
     hs \<leftarrow> match_handlers events c;
     Some (h # hs)}"

section \<open>Setting timers\<close>

datatype clock_error =
    InvalidArgument correctness_error
  | AlertInPast | NextEventInPast | StopBeforeStart | StopInPast

text \<open>
  Formatting a timestamp for an error message panics beyond the signed 64-bit range; the outer
  option of the two validations is that panic, or the panic of the addition.
\<close>

definition past_error :: "clock_error \<Rightarrow> nat list \<Rightarrow> (clock_error + 'r) option" where
  "past_error e formatted =
     (if list_all (\<lambda>t. nanos_as_i64 t \<noteq> None) formatted then Some (Inl e) else None)"

definition validate_and_prepare_time_alert ::
    "string \<Rightarrow> nat \<Rightarrow> bool option \<Rightarrow> nat \<Rightarrow> (clock_error + string \<times> nat) option" where
  "validate_and_prepare_time_alert name alert_time_ns allow_past ts_now =
     (case check_valid_string_utf8 name of
        Inl e \<Rightarrow> Some (Inl (InvalidArgument e))
      | Inr _ \<Rightarrow>
          let allow_past' = (case allow_past of None \<Rightarrow> True | Some b \<Rightarrow> b)
          in if alert_time_ns < ts_now
             then if allow_past' then Some (Inr (name, ts_now))
                  else past_error AlertInPast [alert_time_ns]
             else Some (Inr (name, alert_time_ns)))"

definition check_positive_u64 :: "nat \<Rightarrow> correctness_error + unit" where
  "check_positive_u64 value = (if value = 0 then Inl NotPositive else Inr ())"

definition validate_and_prepare_timer ::
    "string \<Rightarrow> nat \<Rightarrow> nat option \<Rightarrow> nat option \<Rightarrow> bool option \<Rightarrow> bool option \<Rightarrow> nat \<Rightarrow>
     (clock_error + string \<times> nat \<times> nat option \<times> bool \<times> bool) option" where
  "validate_and_prepare_timer name interval_ns start_time_ns stop_time_ns allow_past fire_immediately ts_now =
     (case check_valid_string_utf8 name of
        Inl e \<Rightarrow> Some (Inl (InvalidArgument e))
      | Inr _ \<Rightarrow>
      (case check_positive_u64 interval_ns of
        Inl e \<Rightarrow> Some (Inl (InvalidArgument e))
      | Inr _ \<Rightarrow>
        let allow_past' = (case allow_past of None \<Rightarrow> True | Some b \<Rightarrow> b);
            fire = (case fire_immediately of None \<Rightarrow> False | Some b \<Rightarrow> b);
            given = (case start_time_ns of None \<Rightarrow> 0 | Some t \<Rightarrow> t);
            start = (if given = 0 then ts_now else given);
            prepared =
              (case stop_time_ns of
                 Some stop \<Rightarrow>
                   if stop \<le> start then past_error StopBeforeStart [stop, start]
                   else if \<not> allow_past' \<and> stop \<le> ts_now then past_error StopInPast [stop]
                   else Some (Inr (name, start, stop_time_ns, allow_past', fire))
               | None \<Rightarrow> Some (Inr (name, start, stop_time_ns, allow_past', fire)))
        in if given \<noteq> 0 \<and> \<not> allow_past'
           then do {
             next_event_time \<leftarrow> (if fire then Some start else nanos_add start interval_ns);
             if next_event_time < ts_now then past_error NextEventInPast [next_event_time]
             else prepared}
           else prepared))"

definition register_given :: "string \<Rightarrow> 'c option \<Rightarrow> 'c test_clock \<Rightarrow> 'c test_clock" where
  "register_given name callback c =
     (case callback of
        None \<Rightarrow> c
      | Some cb \<Rightarrow> c\<lparr>ck_callbacks := register_callback name cb (ck_callbacks c)\<rparr>)"

definition set_time_alert_ns ::
    "string \<Rightarrow> nat \<Rightarrow> 'c option \<Rightarrow> bool option \<Rightarrow> 'c test_clock \<Rightarrow>
     ('c test_clock \<times> (clock_error + unit)) option" where
  "set_time_alert_ns name alert_time_ns callback allow_past c =
     (let ts_now = clock_timestamp_ns c
      in case validate_and_prepare_time_alert name alert_time_ns allow_past ts_now of
           None \<Rightarrow> None
         | Some (Inl e) \<Rightarrow> Some (c, Inl e)
         | Some (Inr (name, alert)) \<Rightarrow>
             let c1 = replace_existing_timer_if_needed name c
             in case check_predicate_true (callback \<noteq> None \<or> has_any_callback name (ck_callbacks c1)) of
                  Inl e \<Rightarrow> Some (c1, Inl (InvalidArgument e))
                | Inr _ \<Rightarrow> do {
                    let c2 = register_given name callback c1;
                    delta \<leftarrow> nanos_sub alert ts_now;
                    tm \<leftarrow> timer_new name (create_valid_interval delta) ts_now (Some alert) (alert = ts_now);
                    Some (insert_timer tm c2, Inr ())})"

definition set_timer_ns ::
    "string \<Rightarrow> nat \<Rightarrow> nat option \<Rightarrow> nat option \<Rightarrow> 'c option \<Rightarrow> bool option \<Rightarrow> bool option \<Rightarrow>
     'c test_clock \<Rightarrow> ('c test_clock \<times> (clock_error + unit)) option" where
  "set_timer_ns name interval_ns start_time_ns stop_time_ns callback allow_past fire_immediately c =
     (let ts_now = clock_timestamp_ns c
      in case validate_and_prepare_timer name interval_ns start_time_ns stop_time_ns allow_past
                fire_immediately ts_now of
           None \<Rightarrow> None
         | Some (Inl e) \<Rightarrow> Some (c, Inl e)
         | Some (Inr (name, start, stop, _, fire)) \<Rightarrow>
             (case check_predicate_true (callback \<noteq> None \<or> has_any_callback name (ck_callbacks c)) of
                Inl e \<Rightarrow> Some (c, Inl (InvalidArgument e))
              | Inr _ \<Rightarrow> do {
                  let c1 = register_given name callback (replace_existing_timer_if_needed name c);
                  tm \<leftarrow> timer_new name (create_valid_interval interval_ns) start stop fire;
                  Some (insert_timer tm c1, Inr ())}))"

definition clock_next_time_ns :: "string \<Rightarrow> 'c test_clock \<Rightarrow> nat option" where
  "clock_next_time_ns name c = map_option tm_next_time_ns (map_of (ck_timers c) name)"

definition timer_exists :: "string \<Rightarrow> 'c test_clock \<Rightarrow> bool" where
  "timer_exists name c \<longleftrightarrow> map_of (ck_timers c) name \<noteq> None"

definition timer_names :: "'c test_clock \<Rightarrow> string list" where
  "timer_names c = sort (map fst (filter (\<lambda>(_, tm). \<not> tm_is_expired tm) (ck_timers c)))"

definition timer_count :: "'c test_clock \<Rightarrow> nat" where
  "timer_count c = length (filter (\<lambda>(_, tm). \<not> tm_is_expired tm) (ck_timers c))"

definition cancel_timer :: "string \<Rightarrow> 'c test_clock \<Rightarrow> 'c test_clock" where
  "cancel_timer name c =
     compact_timer_queue_if_needed (c\<lparr>ck_timers := AList.delete name (ck_timers c)\<rparr>)"

definition cancel_timers :: "'c test_clock \<Rightarrow> 'c test_clock" where
  "cancel_timers c = c\<lparr>ck_timers := [], ck_queue := []\<rparr>"

definition clock_reset :: "'c test_clock \<Rightarrow> 'c test_clock" where
  "clock_reset c =
     c\<lparr>ck_time := atomic_new False 0, ck_timers := [], ck_queue := [],
       ck_callbacks := callbacks_clear (ck_callbacks c)\<rparr>"

end
