(* ===== verification/Clock_Properties.thy ===== *)
theory Clock_Properties
  imports Test_Clock "HOL-Library.Multiset"
begin

text \<open>
  What advancing the test clock fires. The events a timer is due to fire up to a time are written
  down in closed form, from its next time, its interval and its stop time; the queue of scheduled
  events, its stale entries and its compactions do not appear there. The theorems hold of every
  clock that a sequence of calls reaches.
\<close>

section \<open>What is due\<close>

definition ticks :: "nat \<Rightarrow> nat \<Rightarrow> nat \<Rightarrow> nat list" where
  "ticks to n iv = map (\<lambda>k. n + k * iv) [0..<(if n \<le> to then Suc ((to - n) div iv) else 0)]"

definition due_times :: "nat \<Rightarrow> test_timer \<Rightarrow> nat list" where
  "due_times to tm =
     filter (\<lambda>t. case tm_stop_time_ns tm of None \<Rightarrow> True | Some stop \<Rightarrow> t \<le> stop)
       (ticks to (tm_next_time_ns tm) (nz_get (tm_interval_ns tm)))"

text \<open>The timer that remains: gone, if one of its times up to then reached its stop time.\<close>

definition settled :: "nat \<Rightarrow> test_timer \<Rightarrow> test_timer option" where
  "settled to tm =
     (if tm_next_time_ns tm \<le> to
      then let iv = nz_get (tm_interval_ns tm);
               last_due = tm_next_time_ns tm + (to - tm_next_time_ns tm) div iv * iv
           in if (case tm_stop_time_ns tm of None \<Rightarrow> True | Some stop \<Rightarrow> last_due < stop)
              then Some (tm\<lparr>tm_next_time_ns := last_due + iv\<rparr>) else None
      else Some tm)"

definition due_events :: "nat \<Rightarrow> (string \<times> test_timer) list \<Rightarrow> (nat \<times> string) list" where
  "due_events to timers =
     sort (concat (map (\<lambda>(name, tm). map (\<lambda>t. (t, name)) (due_times to tm)) timers))"

definition event_key :: "time_event \<Rightarrow> nat \<times> string" where
  "event_key e = (te_ts_event e, te_name e)"

definition timer_queued :: "time_event list \<Rightarrow> string \<times> test_timer \<Rightarrow> bool" where
  "timer_queued q = (\<lambda>(name, tm). tm_name tm = name \<and> \<not> tm_is_expired tm \<and>
     (tm_next_time_ns tm, name) \<in> event_key ` set q)"

definition test_clock_inv :: "'c test_clock \<Rightarrow> bool" where
  "test_clock_inv c \<longleftrightarrow>
     \<not> at_realtime (ck_time c) \<and> distinct (map fst (ck_timers c)) \<and>
     list_all (timer_queued (ck_queue c)) (ck_timers c)"

definition timers_fit :: "nat \<Rightarrow> (string \<times> test_timer) list \<Rightarrow> bool" where
  "timers_fit to timers \<longleftrightarrow> list_all (\<lambda>(_, tm). to + nz_get (tm_interval_ns tm) \<le> u_max 64) timers"

section \<open>One timer\<close>

lemma nz_get_pos [simp]: "0 < nz_get n"
  by (cases n) simp

lemma not_due [simp]:
  assumes "to < tm_next_time_ns tm"
  shows "due_times to tm = []" and "settled to tm = Some tm"
  using assms by (simp_all add: due_times_def ticks_def settled_def)

lemma past_stop:
  assumes "tm_stop_time_ns tm = Some stop" and "stop < tm_next_time_ns tm" and "tm_next_time_ns tm \<le> to"
  shows "due_times to tm = []" and "settled to tm = None"
  using assms by (auto simp: due_times_def ticks_def settled_def Let_def filter_empty_conv)

lemma upt_Suc_shift: "[0..<Suc n] = 0 # map Suc [0..<n]"
  by (simp add: map_Suc_upt upt_conv_Cons del: upt_Suc)

lemma at_stop:
  assumes "tm_stop_time_ns tm = Some (tm_next_time_ns tm)" and "tm_next_time_ns tm \<le> to"
  shows "due_times to tm = [tm_next_time_ns tm]" and "settled to tm = None"
  using assms
  by (auto simp: due_times_def ticks_def settled_def Let_def upt_Suc_shift filter_empty_conv comp_def simp del: upt_Suc)

lemma ticks_rec:
  assumes "n \<le> to" and "0 < iv"
  shows "ticks to n iv = n # ticks to (n + iv) iv"
proof (cases "n + iv \<le> to")
  case True
  then have "(to - n) div iv = Suc ((to - (n + iv)) div iv)" using assms(2) by (simp add: le_div_geq)
  with True assms(1) show ?thesis
    by (simp add: ticks_def upt_Suc_shift comp_def add.assoc del: upt_Suc)
next
  case False
  with assms have "(to - n) div iv = 0" by simp
  with False assms(1) show ?thesis by (simp add: ticks_def)
qed

lemma last_tick_rec:
  assumes "n + iv \<le> to" and "0 < iv"
  shows "n + (to - n) div iv * iv = (n + iv) + (to - (n + iv)) div iv * (iv::nat)"
  using assms by (simp add: le_div_geq)

lemma before_stop:
  assumes "tm_next_time_ns tm \<le> to"
    and "case tm_stop_time_ns tm of None \<Rightarrow> True | Some stop \<Rightarrow> tm_next_time_ns tm < stop"
  defines "tm1 \<equiv> tm\<lparr>tm_next_time_ns := tm_next_time_ns tm + nz_get (tm_interval_ns tm)\<rparr>"
  shows "due_times to tm = tm_next_time_ns tm # due_times to tm1" and "settled to tm = settled to tm1"
proof -
  let ?iv = "nz_get (tm_interval_ns tm)"
  show "due_times to tm = tm_next_time_ns tm # due_times to tm1"
    using assms(2)
    by (simp add: due_times_def tm1_def ticks_rec [OF assms(1)] split: option.splits)
  show "settled to tm = settled to tm1"
  proof (cases "tm_next_time_ns tm + ?iv \<le> to")
    case True
    then show ?thesis using assms(1) by (simp add: settled_def tm1_def last_tick_rec Let_def split: option.split)
  next
    case False
    with assms(1) have "to - tm_next_time_ns tm < ?iv" by linarith
    then have "(to - tm_next_time_ns tm) div ?iv = 0" by (rule div_less)
    with False assms(1,2) show ?thesis by (simp add: settled_def tm1_def split: option.splits)
  qed
qed

lemma timer_next_total:
  "tm_next_time_ns tm \<le> to \<Longrightarrow> to + nz_get (tm_interval_ns tm) \<le> u_max 64 \<Longrightarrow> timer_next i tm \<noteq> None"
  by (simp add: timer_next_def nanos_add_def checked_add_u_def Let_def)

lemma timer_next_cases:
  assumes "\<not> tm_is_expired tm" and "tm_next_time_ns tm \<le> to"
    and "timer_next i tm \<noteq> None"
  obtains
    (gone) tm1 where "timer_next i tm = Some (tm1, None)" and "due_times to tm = []" and "settled to tm = None"
  | (last_event) tm1 event where "timer_next i tm = Some (tm1, Some event)" and "tm_is_expired tm1"
      and "event_key event = (tm_next_time_ns tm, tm_name tm)"
      and "due_times to tm = [tm_next_time_ns tm]" and "settled to tm = None"
  | (one_event) tm1 event where "timer_next i tm = Some (tm1, Some event)" and "\<not> tm_is_expired tm1"
      and "event_key event = (tm_next_time_ns tm, tm_name tm)"
      and "tm_name tm1 = tm_name tm" and "tm_interval_ns tm1 = tm_interval_ns tm"
      and "due_times to tm = tm_next_time_ns tm # due_times to tm1" and "settled to tm = settled to tm1"
proof -
  have fits: "nanos_add (tm_next_time_ns tm) (nz_get (tm_interval_ns tm)) =
      Some (tm_next_time_ns tm + nz_get (tm_interval_ns tm))"
    if "\<not> (case tm_stop_time_ns tm of None \<Rightarrow> False | Some stop \<Rightarrow> stop < tm_next_time_ns tm)"
    using that assms(1,3)
    by (auto simp: timer_next_def nanos_add_def checked_add_u_def Let_def split: if_splits)
  consider (past) stop where "tm_stop_time_ns tm = Some stop" "stop < tm_next_time_ns tm"
    | (at) "tm_stop_time_ns tm = Some (tm_next_time_ns tm)"
    | (before) "case tm_stop_time_ns tm of None \<Rightarrow> True | Some stop \<Rightarrow> tm_next_time_ns tm < stop"
    by (cases "tm_stop_time_ns tm") (auto intro: linorder_cases)
  then show thesis
  proof cases
    case past
    then show thesis
      using gone past_stop [OF past assms(2)] assms(1) by (simp add: timer_next_def)
  next
    case at
    then show thesis
      using last_event at_stop [OF at assms(2)] assms(1) fits
      by (simp add: timer_next_def event_key_def Let_def)
  next
    case before
    then have "tm_stop_time_ns tm \<noteq> Some (tm_next_time_ns tm)"
      and "\<not> (case tm_stop_time_ns tm of None \<Rightarrow> False | Some stop \<Rightarrow> stop < tm_next_time_ns tm)"
      by (auto split: option.splits)
    then show thesis
      using one_event before_stop [OF assms(2) before] assms(1) fits
      by (simp add: timer_next_def event_key_def Let_def)
  qed
qed

section \<open>The loop\<close>

definition due_mset :: "nat \<Rightarrow> (string \<times> test_timer) list \<Rightarrow> (nat \<times> string) multiset" where
  "due_mset to timers =
     mset (concat (map (\<lambda>(name, tm). map (\<lambda>t. (t, name)) (due_times to tm)) timers))"

definition settled_timers :: "nat \<Rightarrow> (string \<times> test_timer) list \<Rightarrow> string \<Rightarrow> test_timer option" where
  "settled_timers to timers = (\<lambda>name. Option.bind (map_of timers name) (settled to))"

lemma set_update_distinct:
  "distinct (map fst ts) \<Longrightarrow> set (AList.update k v ts) = insert (k, v) (set (AList.delete k ts))"
  by (induction ts) (auto simp: delete_idem)

lemma due_mset_delete:
  assumes "distinct (map fst ts)" and "map_of ts k = Some tm"
  shows "due_mset to ts = image_mset (\<lambda>t. (t, k)) (mset (due_times to tm)) + due_mset to (AList.delete k ts)"
  using assms unfolding due_mset_def
  by (induction ts) (auto simp: delete_idem split: if_splits)

lemma due_mset_update:
  assumes "distinct (map fst ts)"
  shows "due_mset to (AList.update k tm ts) =
    image_mset (\<lambda>t. (t, k)) (mset (due_times to tm)) + due_mset to (AList.delete k ts)"
  using assms unfolding due_mset_def
  by (induction ts) (auto simp: delete_idem split: if_splits)

lemma settled_timers_delete:
  "map_of ts k = Some tm \<Longrightarrow> settled to tm = None \<Longrightarrow>
     settled_timers to (AList.delete k ts) = settled_timers to ts"
  by (auto simp: settled_timers_def fun_eq_iff delete_conv)

lemma settled_timers_update:
  "map_of ts k = Some tm \<Longrightarrow> settled to tm = settled to tm1 \<Longrightarrow>
     settled_timers to (AList.update k tm1 ts) = settled_timers to ts"
  by (auto simp: settled_timers_def fun_eq_iff update_conv)

lemma timers_fit_delete: "timers_fit to ts \<Longrightarrow> timers_fit to (AList.delete k ts)"
  by (auto simp: timers_fit_def list_all_iff AList.delete_eq)

lemma timers_fit_update:
  "timers_fit to ts \<Longrightarrow> distinct (map fst ts) \<Longrightarrow> to + nz_get (tm_interval_ns tm) \<le> u_max 64 \<Longrightarrow>
     timers_fit to (AList.update k tm ts)"
  by (auto simp: timers_fit_def list_all_iff set_update_distinct AList.delete_eq)

lemma queued_mono:
  "list_all (timer_queued q) ts \<Longrightarrow> event_key ` set q \<subseteq> event_key ` set q' \<Longrightarrow> list_all (timer_queued q') ts"
  by (erule list.pred_mono_strong) (auto simp: timer_queued_def)

lemma pop_other:
  "(t, name) \<in> event_key ` set q \<Longrightarrow> (t, name) \<noteq> event_key entry \<Longrightarrow>
     (t, name) \<in> event_key ` set (remove1 entry q)"
  by (metis image_iff in_set_remove1)

lemma queued_pop_delete:
  assumes "list_all (timer_queued q) ts"
  shows "list_all (timer_queued (remove1 entry q)) (AList.delete (te_name entry) ts)"
  unfolding list_all_iff
proof
  fix p assume "p \<in> set (AList.delete (te_name entry) ts)"
  then obtain name tm where "p = (name, tm)" and "(name, tm) \<in> set ts" and "name \<noteq> te_name entry"
    by (simp add: AList.delete_eq) (auto split: prod.splits)
  with assms show "timer_queued (remove1 entry q) p"
    by (auto simp: list_all_iff timer_queued_def event_key_def intro!: pop_other [unfolded event_key_def])
qed

text \<open>What one entry of the queue contributes: the clock to go on with, and the events fired.\<close>

fun after_entry ::
    "'c test_clock \<times> (time_event \<times> time_event option) option \<Rightarrow> 'c test_clock \<times> time_event list" where
  "after_entry (c, None) = (c, [])"
| "after_entry (c, Some (event, None)) = (c, [event])"
| "after_entry (c, Some (event, Some later)) = (c\<lparr>ck_queue := ck_queue c @ [later]\<rparr>, [event])"

lemma advance_loop_step:
  assumes "heap_peek (ck_queue c) = Some entry" and "te_ts_event entry \<le> to"
    and "map_option after_entry (advance_timer_from_entry entry (c\<lparr>ck_queue := remove1 entry (ck_queue c)\<rparr>)) =
      Some (c', fired)"
  shows "advance_loop to c events = advance_loop to c' (events @ fired)"
proof -
  obtain r where "advance_timer_from_entry entry (c\<lparr>ck_queue := remove1 entry (ck_queue c)\<rparr>) = Some r"
    and "after_entry r = (c', fired)" using assms(3) by auto
  then show ?thesis
    using assms(1,2) by (subst advance_loop.simps) (cases r rule: after_entry.cases; auto)
qed

text \<open>The clock that goes on has as much to do as the clock before, less the events fired.\<close>

definition accounts :: "nat \<Rightarrow> 'c test_clock \<Rightarrow> 'c test_clock \<Rightarrow> time_event list \<Rightarrow> bool" where
  "accounts to c c' fired \<longleftrightarrow>
     test_clock_inv c' \<and> (timers_fit to (ck_timers c) \<longrightarrow> timers_fit to (ck_timers c')) \<and>
     due_mset to (ck_timers c) = mset (map event_key fired) + due_mset to (ck_timers c') \<and>
     settled_timers to (ck_timers c) = settled_timers to (ck_timers c') \<and>
     ck_time c' = ck_time c \<and> ck_callbacks c' = ck_callbacks c"

lemma stale_entry_accounts:
  assumes inv: "test_clock_inv c"
    and stale: "\<And>tm. map_of (ck_timers c) (te_name entry) = Some tm \<Longrightarrow> tm_next_time_ns tm \<noteq> te_ts_event entry"
  shows "accounts to c (c\<lparr>ck_queue := remove1 entry (ck_queue c)\<rparr>) []"
proof -
  have "timer_queued (remove1 entry (ck_queue c)) p" if "p \<in> set (ck_timers c)" for p
  proof (cases p)
    case (Pair name tm)
    have "distinct (map fst (ck_timers c))" using inv by (simp add: test_clock_inv_def)
    then have "map_of (ck_timers c) name = Some tm" using Pair that by simp
    then have "(tm_next_time_ns tm, name) \<noteq> event_key entry"
      using stale by (auto simp: event_key_def)
    moreover have "timer_queued (ck_queue c) p"
      using inv that by (simp add: test_clock_inv_def list_all_iff)
    ultimately show ?thesis by (simp add: Pair timer_queued_def pop_other)
  qed
  then show ?thesis
    using inv by (simp add: accounts_def test_clock_inv_def list_all_iff)
qed

lemma firing_entry_accounts:
  assumes inv: "test_clock_inv c" and due: "te_ts_event entry \<le> to"
    and some: "advance_timer_from_entry entry (c\<lparr>ck_queue := remove1 entry (ck_queue c)\<rparr>) \<noteq> None"
    and tm: "map_of (ck_timers c) (te_name entry) = Some tm"
    and now: "tm_next_time_ns tm = te_ts_event entry"
  obtains c' fired where
    "map_option after_entry (advance_timer_from_entry entry (c\<lparr>ck_queue := remove1 entry (ck_queue c)\<rparr>)) =
      Some (c', fired)" and "accounts to c c' fired"
proof -
  have d: "distinct (map fst (ck_timers c))" and q: "list_all (timer_queued (ck_queue c)) (ck_timers c)"
    and static: "\<not> at_realtime (ck_time c)"
    using inv by (simp_all add: test_clock_inv_def)
  have "timer_queued (ck_queue c) (te_name entry, tm)"
    using q map_of_SomeD [OF tm] by (simp add: list_all_iff)
  then have name: "tm_name tm = te_name entry" and live: "\<not> tm_is_expired tm"
    by (simp_all add: timer_queued_def)
  have next_some: "timer_next (ck_ids c 0) tm \<noteq> None"
    by (rule notI) (use some tm now in \<open>simp add: advance_timer_from_entry_def\<close>)
  note entry_simps = accounts_def test_clock_inv_def d static now name
    due_mset_delete [OF d tm] due_mset_update [OF d] distinct_delete distinct_update
    timers_fit_delete queued_pop_delete [OF q]
  from live due [folded now] next_some show thesis
  proof (cases rule: timer_next_cases)
    case (gone tm1)
    then show thesis
      by (intro that [of "c\<lparr>ck_queue := remove1 entry (ck_queue c),
            ck_timers := AList.delete (te_name entry) (ck_timers c)\<rparr>" "[]"])
        (simp_all add: advance_timer_from_entry_def tm entry_simps settled_timers_delete [OF tm])
  next
    case (last_event tm1 event)
    then show thesis
      by (intro that [of "c\<lparr>ck_queue := remove1 entry (ck_queue c),
            ck_timers := AList.delete (te_name entry) (ck_timers c),
            ck_ids := (\<lambda>i. ck_ids c (1 + i))\<rparr>" "[event]"])
        (simp_all add: advance_timer_from_entry_def tm entry_simps settled_timers_delete [OF tm])
  next
    case (one_event tm1 event)
    let ?q = "remove1 entry (ck_queue c) @ [scheduled_event (ck_ids c 1) tm1]"
    have "list_all (timer_queued ?q) (AList.delete (te_name entry) (ck_timers c))"
      by (rule queued_mono [OF queued_pop_delete [OF q]]) auto
    moreover have "timer_queued ?q (te_name entry, tm1)"
      using one_event name by (simp add: timer_queued_def scheduled_event_def event_key_def)
    ultimately have "list_all (timer_queued ?q) (AList.update (te_name entry) tm1 (ck_timers c))"
      by (simp add: list_all_iff set_update_distinct [OF d])
    moreover have "timers_fit to (AList.update (te_name entry) tm1 (ck_timers c))"
      if fit: "timers_fit to (ck_timers c)"
      using bspec [OF fit [unfolded timers_fit_def list_all_iff] map_of_SomeD [OF tm]] one_event
      by (simp add: timers_fit_update [OF fit d])
    ultimately show thesis using one_event
      by (intro that [of "c\<lparr>ck_queue := ?q, ck_timers := AList.update (te_name entry) tm1 (ck_timers c),
            ck_ids := (\<lambda>i. ck_ids c (2 + i))\<rparr>" "[event]"])
        (simp_all add: advance_timer_from_entry_def tm entry_simps settled_timers_update [OF tm])
  qed
qed

lemma entry_accounts:
  assumes inv: "test_clock_inv c" and due: "te_ts_event entry \<le> to"
    and some: "advance_timer_from_entry entry (c\<lparr>ck_queue := remove1 entry (ck_queue c)\<rparr>) \<noteq> None"
  obtains c' fired where
    "map_option after_entry (advance_timer_from_entry entry (c\<lparr>ck_queue := remove1 entry (ck_queue c)\<rparr>)) =
      Some (c', fired)" and "accounts to c c' fired"
proof (cases "\<exists>tm. map_of (ck_timers c) (te_name entry) = Some tm \<and> tm_next_time_ns tm = te_ts_event entry")
  case False
  then have "advance_timer_from_entry entry (c\<lparr>ck_queue := remove1 entry (ck_queue c)\<rparr>) =
      Some (c\<lparr>ck_queue := remove1 entry (ck_queue c)\<rparr>, None)"
    by (simp add: advance_timer_from_entry_def split: option.split)
  moreover from False have "accounts to c (c\<lparr>ck_queue := remove1 entry (ck_queue c)\<rparr>) []"
    by (intro stale_entry_accounts [OF inv]) auto
  ultimately show thesis using that by simp
next
  case True
  then obtain tm where "map_of (ck_timers c) (te_name entry) = Some tm"
    and "tm_next_time_ns tm = te_ts_event entry" by blast
  then show thesis by (rule firing_entry_accounts [OF inv due some]) (rule that)
qed

lemma accounts_trans:
  "accounts to c c1 fired \<Longrightarrow> accounts to c1 c2 fired' \<Longrightarrow> accounts to c c2 (fired @ fired')"
  by (simp add: accounts_def)

lemma accounts_refl: "test_clock_inv c \<Longrightarrow> accounts to c c []"
  by (simp add: accounts_def)

lemma after_entry_decreases:
  assumes "heap_peek (ck_queue c) = Some entry" and "te_ts_event entry \<le> to"
    and "map_option after_entry (advance_timer_from_entry entry (c\<lparr>ck_queue := remove1 entry (ck_queue c)\<rparr>)) =
      Some (c', fired)"
  shows "queue_work to (ck_queue c') < queue_work to (ck_queue c)"
proof -
  obtain r where r: "advance_timer_from_entry entry (c\<lparr>ck_queue := remove1 entry (ck_queue c)\<rparr>) = Some r"
    and "after_entry r = (c', fired)" using assms(3) by auto
  then show ?thesis
    using queue_work_decreases [OF assms(1,2)] by (cases r rule: after_entry.cases) auto
qed

lemma entry_total:
  assumes "test_clock_inv c" and "timers_fit to (ck_timers c)" and "te_ts_event entry \<le> to"
  shows "advance_timer_from_entry entry (c\<lparr>ck_queue := q\<rparr>) \<noteq> None"
proof (cases "map_of (ck_timers c) (te_name entry)")
  case None
  then show ?thesis by (simp add: advance_timer_from_entry_def)
next
  case (Some tm)
  then have "to + nz_get (tm_interval_ns tm) \<le> u_max 64"
    using assms(2) map_of_SomeD by (fastforce simp: timers_fit_def list_all_iff)
  then have "timer_next (ck_ids c 0) tm \<noteq> None" if "tm_next_time_ns tm = te_ts_event entry"
    using that assms(3) timer_next_total by simp
  with Some show ?thesis by (auto simp: advance_timer_from_entry_def split: option.split)
qed

lemma advance_loop_accounts:
  assumes "test_clock_inv c"
  shows "case advance_loop to c events of
      None \<Rightarrow> \<not> timers_fit to (ck_timers c)
    | Some (c', events') \<Rightarrow> \<exists>fired. events' = events @ fired \<and> accounts to c c' fired \<and>
        (\<forall>e \<in> set (ck_queue c'). to < te_ts_event e)"
  using assms
proof (induction "queue_work to (ck_queue c)" arbitrary: c events rule: less_induct)
  case less
  consider (idle) "\<nexists>entry. heap_peek (ck_queue c) = Some entry \<and> te_ts_event entry \<le> to"
    | (stuck) entry where "heap_peek (ck_queue c) = Some entry" "te_ts_event entry \<le> to"
        "advance_timer_from_entry entry (c\<lparr>ck_queue := remove1 entry (ck_queue c)\<rparr>) = None"
    | (step) entry where "heap_peek (ck_queue c) = Some entry" "te_ts_event entry \<le> to"
        "advance_timer_from_entry entry (c\<lparr>ck_queue := remove1 entry (ck_queue c)\<rparr>) \<noteq> None"
    by blast
  then show ?case
  proof cases
    case idle
    then have "advance_loop to c events = Some (c, events)"
      by (subst advance_loop.simps) (auto split: option.split)
    moreover have "\<forall>e \<in> set (ck_queue c). to < te_ts_event e"
      using idle heap_peek_Some [of "ck_queue c"] by (cases "heap_peek (ck_queue c)") force+
    ultimately show ?thesis using accounts_refl [OF less.prems] by simp
  next
    case stuck
    then have "advance_loop to c events = None" by (subst advance_loop.simps) simp
    moreover have "\<not> timers_fit to (ck_timers c)"
      using entry_total [OF less.prems _ stuck(2)] stuck(3) by blast
    ultimately show ?thesis by simp
  next
    case step
    from entry_accounts [OF less.prems step(2,3)] obtain c1 fired where
      s: "map_option after_entry
          (advance_timer_from_entry entry (c\<lparr>ck_queue := remove1 entry (ck_queue c)\<rparr>)) = Some (c1, fired)"
      and acc: "accounts to c c1 fired" .
    have "test_clock_inv c1" using acc by (simp add: accounts_def)
    from less.hyps [OF after_entry_decreases [OF step(1,2) s] this, of "events @ fired"]
    show ?thesis
      using accounts_trans [OF acc] acc
      by (auto simp: advance_loop_step [OF step(1,2) s] accounts_def [of _ c c1] split: option.splits)
  qed
qed

section \<open>Advancing\<close>

lemma nothing_due:
  assumes "test_clock_inv c" and "\<forall>e \<in> set (ck_queue c). to < te_ts_event e"
  shows "due_mset to (ck_timers c) = {#}" and "settled_timers to (ck_timers c) = map_of (ck_timers c)"
proof -
  have later: "to < tm_next_time_ns tm" if "(name, tm) \<in> set (ck_timers c)" for name tm
    using that assms by (auto simp: test_clock_inv_def list_all_iff timer_queued_def event_key_def)
  then show "due_mset to (ck_timers c) = {#}" by (auto simp: due_mset_def)
  show "settled_timers to (ck_timers c) = map_of (ck_timers c)"
  proof
    fix name
    show "settled_timers to (ck_timers c) name = map_of (ck_timers c) name"
      using later [OF map_of_SomeD]
      by (cases "map_of (ck_timers c) name") (auto simp: settled_timers_def)
  qed
qed

lemma compact_inv:
  assumes "test_clock_inv c"
  shows "test_clock_inv (compact_timer_queue_if_needed c)"
proof -
  have "timer_queued (map2 (\<lambda>i (_, tm). scheduled_event (ck_ids c i) tm) [0..<length (ck_timers c)] (ck_timers c)) p"
    if "p \<in> set (ck_timers c)" for p
  proof -
    obtain i where i: "i < length (ck_timers c)" "p = ck_timers c ! i" using \<open>p \<in> _\<close> by (auto simp: in_set_conv_nth)
    then have "scheduled_event (ck_ids c i) (snd p) \<in>
        set (map2 (\<lambda>i (_, tm). scheduled_event (ck_ids c i) tm) [0..<length (ck_timers c)] (ck_timers c))"
      by (auto simp: set_zip split_beta intro!: image_eqI [of _ _ "(i, p)"] exI [of _ i])
    moreover have "tm_name (snd p) = fst p" "\<not> tm_is_expired (snd p)"
      using assms that by (auto simp: test_clock_inv_def list_all_iff timer_queued_def)
    ultimately show ?thesis
      by (force simp: timer_queued_def event_key_def scheduled_event_def split: prod.splits)
  qed
  then show ?thesis
    using assms
    by (simp add: compact_timer_queue_if_needed_def compact_timer_queue_def test_clock_inv_def list_all_iff Let_def)
qed

lemma compact_frame [simp]:
  "ck_timers (compact_timer_queue_if_needed c) = ck_timers c"
  "ck_time (compact_timer_queue_if_needed c) = ck_time c"
  "ck_callbacks (compact_timer_queue_if_needed c) = ck_callbacks c"
  by (simp_all add: compact_timer_queue_if_needed_def compact_timer_queue_def Let_def)

lemma sort_mset_cong: "mset xs = mset ys \<Longrightarrow> sort xs = sort ys"
  by (rule properties_for_sort) simp_all

lemma map_sort_key: "map f (sort_key f xs) = sort (map f xs)"
  by (rule properties_for_sort [symmetric]) simp_all

lemma accounts_final:
  assumes "accounts to c c' fired" and "\<forall>e \<in> set (ck_queue c'). to < te_ts_event e"
  shows "mset (map event_key fired) = due_mset to (ck_timers c)"
    and "map_of (ck_timers c') = settled_timers to (ck_timers c)"
  using assms nothing_due [of c' to] by (simp_all add: accounts_def)

lemma advance_time_accounts:
  assumes inv: "test_clock_inv c" and "clock_timestamp_ns c \<le> to"
  shows "case advance_time to set_it c of
      None \<Rightarrow> \<not> timers_fit to (ck_timers c)
    | Some (c', events) \<Rightarrow>
        map event_key events = due_events to (ck_timers c) \<and>
        map_of (ck_timers c') = settled_timers to (ck_timers c) \<and>
        clock_timestamp_ns c' = (if set_it then to else clock_timestamp_ns c) \<and>
        ck_callbacks c' = ck_callbacks c \<and> test_clock_inv c'"
proof -
  define c1 where "c1 = (if set_it then c\<lparr>ck_time := (ck_time c)\<lparr>at_timestamp_ns := to\<rparr>\<rparr> else c)"
  have c1: "test_clock_inv c1" "ck_timers c1 = ck_timers c" "ck_callbacks c1 = ck_callbacks c"
    "clock_timestamp_ns c1 = (if set_it then to else clock_timestamp_ns c)"
    using inv by (simp_all add: c1_def test_clock_inv_def clock_timestamp_ns_def)
  have advance: "advance_time to set_it c =
      map_option (\<lambda>(c2, events). (compact_timer_queue_if_needed c2, sort_key event_key events))
        (advance_loop to c1 [])"
    using inv assms(2)
    by (cases set_it; cases "advance_loop to c1 []")
      (auto simp: advance_time_def c1_def set_time_def test_clock_inv_def event_key_def [abs_def])
  show ?thesis
  proof (cases "advance_loop to c1 []")
    case None
    then show ?thesis using advance_loop_accounts [OF c1(1), of to "[]"] by (simp add: advance c1)
  next
    case (Some r)
    then obtain c2 events where loop: "advance_loop to c1 [] = Some (c2, events)" by (cases r) auto
    have acc: "accounts to c1 c2 events" "\<forall>e \<in> set (ck_queue c2). to < te_ts_event e"
      using advance_loop_accounts [OF c1(1), of to "[]"] by (simp_all add: loop)
    have "sort (map event_key events) = due_events to (ck_timers c)"
      unfolding due_events_def by (rule sort_mset_cong) (use accounts_final(1) [OF acc] c1 in \<open>simp add: due_mset_def\<close>)
    moreover have "test_clock_inv c2" "ck_time c2 = ck_time c1" "ck_callbacks c2 = ck_callbacks c1"
      using acc(1) by (simp_all add: accounts_def)
    ultimately show ?thesis
      using accounts_final(2) [OF acc] c1
      by (simp add: advance loop map_sort_key compact_inv clock_timestamp_ns_def)
  qed
qed

section \<open>Every reachable clock\<close>

datatype 'c clock_call =
    Set_time_alert string nat "'c option" "bool option"
  | Set_timer string nat "nat option" "nat option" "'c option" "bool option" "bool option"
  | Cancel_timer string
  | Cancel_timers
  | Reset_clock
  | Default_handler 'c
  | Cancel_default_handler
  | Cancel_callbacks
  | Advance_time nat bool

fun clock_step_call :: "'c test_clock \<Rightarrow> 'c clock_call \<Rightarrow> 'c test_clock option" where
  "clock_step_call c (Set_time_alert name alert callback allow_past) =
     map_option fst (set_time_alert_ns name alert callback allow_past c)"
| "clock_step_call c (Set_timer name interval start stop callback allow_past fire) =
     map_option fst (set_timer_ns name interval start stop callback allow_past fire c)"
| "clock_step_call c (Cancel_timer name) = Some (cancel_timer name c)"
| "clock_step_call c Cancel_timers = Some (cancel_timers c)"
| "clock_step_call c Reset_clock = Some (clock_reset c)"
| "clock_step_call c (Default_handler callback) =
     Some (c\<lparr>ck_callbacks := register_default_handler callback (ck_callbacks c)\<rparr>)"
| "clock_step_call c Cancel_default_handler =
     Some (c\<lparr>ck_callbacks := cancel_default_handler (ck_callbacks c)\<rparr>)"
| "clock_step_call c Cancel_callbacks = Some (c\<lparr>ck_callbacks := callbacks_clear (ck_callbacks c)\<rparr>)"
| "clock_step_call c (Advance_time to set_it) = map_option fst (advance_time to set_it c)"

lemma set_delete_subset: "set (AList.delete k ts) \<subseteq> set ts"
  by (simp add: AList.delete_eq)

lemma delete_inv: "test_clock_inv c \<Longrightarrow> test_clock_inv (c\<lparr>ck_timers := AList.delete name (ck_timers c)\<rparr>)"
  using set_delete_subset [of name "ck_timers c"] by (auto simp: test_clock_inv_def distinct_delete list_all_iff)

lemma replace_timers: "ck_timers (replace_existing_timer_if_needed name c) = AList.delete name (ck_timers c)"
  by (auto simp: replace_existing_timer_if_needed_def replace_existing_timer_def map_of_eq_None_iff delete_idem
      split: option.split)

lemma replace_inv: "test_clock_inv c \<Longrightarrow> test_clock_inv (replace_existing_timer_if_needed name c)"
  unfolding replace_existing_timer_if_needed_def replace_existing_timer_def
  by (cases "map_of (ck_timers c) name") (simp_all add: compact_inv delete_inv)

lemma insert_timer_inv:
  assumes "test_clock_inv c" and "\<not> tm_is_expired tm"
  shows "test_clock_inv (insert_timer tm c)"
proof -
  let ?q = "ck_queue c @ [scheduled_event (ck_ids c 0) tm]"
  have d: "distinct (map fst (ck_timers c))" using assms(1) by (simp add: test_clock_inv_def)
  have "list_all (timer_queued ?q) (AList.delete (tm_name tm) (ck_timers c))"
    by (rule queued_mono [of "ck_queue c"])
      (use assms(1) in \<open>auto simp: test_clock_inv_def list_all_iff AList.delete_eq\<close>)
  moreover have "timer_queued ?q (tm_name tm, tm)"
    using assms(2) by (simp add: timer_queued_def event_key_def scheduled_event_def)
  ultimately have "list_all (timer_queued ?q) (AList.update (tm_name tm) tm (ck_timers c))"
    by (simp add: list_all_iff set_update_distinct [OF d])
  then show ?thesis
    unfolding insert_timer_def using assms(1)
    by (intro compact_inv) (simp add: test_clock_inv_def distinct_update)
qed

lemma insert_timer_timers [simp]: "ck_timers (insert_timer tm c) = AList.update (tm_name tm) tm (ck_timers c)"
  by (simp add: insert_timer_def)

lemma register_given_frame [simp]:
  "ck_timers (register_given name callback c) = ck_timers c"
  "test_clock_inv (register_given name callback c) = test_clock_inv c"
  by (simp_all add: register_given_def test_clock_inv_def split: option.split)

lemma timer_new_fields:
  assumes "timer_new name iv start stop fire = Some tm"
  shows "tm_name tm = name" and "\<not> tm_is_expired tm" and "tm_stop_time_ns tm = stop"
    and "tm_next_time_ns tm = (if fire then start else start + nz_get iv)" and "tm_interval_ns tm = iv"
  using assms
  by (auto simp: timer_new_def nanos_add_def checked_add_u_def bind_eq_Some_conv split: sum.splits if_splits)

text \<open>A successful alert leaves the timers with one more, due once.\<close>

lemma validated_alert:
  "validate_and_prepare_time_alert name alert allow_past ts_now = Some (Inr (name', alert')) \<Longrightarrow>
     name' = name \<and> alert' = max alert ts_now"
  by (auto simp: validate_and_prepare_time_alert_def past_error_def Let_def split: sum.splits if_splits)

lemma validated_timer:
  "validate_and_prepare_timer name interval start stop allow_past fire ts_now = Some (Inr (name', rest)) \<Longrightarrow>
     name' = name"
  by (auto simp: validate_and_prepare_timer_def past_error_def Let_def bind_eq_Some_conv
      split: sum.splits if_splits option.splits)

lemma set_time_alert_cases:
  assumes "set_time_alert_ns name alert callback allow_past c = Some (c', r)"
  obtains (unchanged) e where "c' = c" and "r = Inl e"
  | (replaced) e where "c' = replace_existing_timer_if_needed name c" and "r = Inl e"
  | (set) tm where "c' = insert_timer tm (register_given name callback (replace_existing_timer_if_needed name c))"
      and "r = Inr ()" and "tm_name tm = name" and "\<not> tm_is_expired tm"
      and "tm_next_time_ns tm = max alert (clock_timestamp_ns c)"
      and "tm_stop_time_ns tm = Some (max alert (clock_timestamp_ns c))"
proof (cases "validate_and_prepare_time_alert name alert allow_past (clock_timestamp_ns c)")
  case None
  with assms show thesis by (simp add: set_time_alert_ns_def)
next
  case (Some v)
  show thesis
  proof (cases v)
    case (Inl e)
    with Some assms show thesis by (intro unchanged [of e]) (simp_all add: set_time_alert_ns_def)
  next
    case (Inr p)
    obtain name' alert' where "p = (name', alert')" by (cases p)
    with Some Inr have v: "validate_and_prepare_time_alert name alert allow_past (clock_timestamp_ns c) =
        Some (Inr (name, alert'))" and alert': "alert' = max alert (clock_timestamp_ns c)"
      using validated_alert by auto
    show thesis
    proof (cases "check_predicate_true (callback \<noteq> None \<or>
        has_any_callback name (ck_callbacks (replace_existing_timer_if_needed name c)))")
      case (Inl e)
      with assms v show thesis by (intro replaced [of "InvalidArgument e"]) (simp_all add: set_time_alert_ns_def Let_def)
    next
      case (Inr _)
      with assms v obtain tm where tm: "timer_new name (create_valid_interval (alert' - clock_timestamp_ns c))
          (clock_timestamp_ns c) (Some alert') (alert' = clock_timestamp_ns c) = Some tm"
        and c': "c' = insert_timer tm (register_given name callback (replace_existing_timer_if_needed name c))"
          "r = Inr ()"
        by (auto simp: set_time_alert_ns_def Let_def nanos_sub_def checked_sub_u_def bind_eq_Some_conv alert'
            split: if_splits)
      show thesis
        by (rule set [OF c'])
          (use timer_new_fields [OF tm] in \<open>auto simp: alert' create_valid_interval_def nz_new_def\<close>)
    qed
  qed
qed

lemma set_timer_cases:
  assumes "set_timer_ns name interval start stop callback allow_past fire c = Some (c', r)"
  obtains (unchanged) e where "c' = c" and "r = Inl e"
  | (set) tm where "c' = insert_timer tm (register_given name callback (replace_existing_timer_if_needed name c))"
      and "r = Inr ()" and "tm_name tm = name" and "\<not> tm_is_expired tm"
proof (cases "validate_and_prepare_timer name interval start stop allow_past fire (clock_timestamp_ns c)")
  case None
  with assms show thesis by (simp add: set_timer_ns_def)
next
  case (Some v)
  show thesis
  proof (cases v)
    case (Inl e)
    with Some assms show thesis by (intro unchanged [of e]) (simp_all add: set_timer_ns_def)
  next
    case (Inr p)
    obtain name' start' stop' allow fire' where "p = (name', start', stop', allow, fire')" by (cases p)
    with Some Inr have v: "validate_and_prepare_timer name interval start stop allow_past fire
        (clock_timestamp_ns c) = Some (Inr (name, start', stop', allow, fire'))"
      using validated_timer by auto
    show thesis
    proof (cases "check_predicate_true (callback \<noteq> None \<or> has_any_callback name (ck_callbacks c))")
      case (Inl e)
      with assms v show thesis by (intro unchanged [of "InvalidArgument e"]) (simp_all add: set_timer_ns_def Let_def)
    next
      case (Inr _)
      with assms v obtain tm where "timer_new name (create_valid_interval interval) start' stop' fire' = Some tm"
        and "c' = insert_timer tm (register_given name callback (replace_existing_timer_if_needed name c))"
        and "r = Inr ()"
        by (auto simp: set_timer_ns_def Let_def bind_eq_Some_conv)
      then show thesis by (intro set) (auto dest: timer_new_fields)
    qed
  qed
qed

lemma clock_call_inv:
  assumes "test_clock_inv c" and "clock_step_call c call = Some c'"
  shows "test_clock_inv c'"
proof (cases call)
  case (Set_time_alert name alert callback allow_past)
  with assms obtain r where "set_time_alert_ns name alert callback allow_past c = Some (c', r)" by auto
  then show ?thesis
    by (cases rule: set_time_alert_cases) (use assms(1) in \<open>simp_all add: replace_inv insert_timer_inv\<close>)
next
  case (Set_timer name interval start stop callback allow_past fire)
  with assms obtain r where "set_timer_ns name interval start stop callback allow_past fire c = Some (c', r)" by auto
  then show ?thesis
    by (cases rule: set_timer_cases) (use assms(1) in \<open>simp_all add: replace_inv insert_timer_inv\<close>)
next
  case (Advance_time to set_it)
  with assms obtain events where adv: "advance_time to set_it c = Some (c', events)" by auto
  then have "clock_timestamp_ns c \<le> to" by (simp add: advance_time_def split: if_splits)
  from advance_time_accounts [OF assms(1) this, of set_it] show ?thesis by (simp add: adv)
next
  case (Cancel_timer name)
  then show ?thesis using assms by (auto simp: cancel_timer_def compact_inv delete_inv)
qed (use assms in \<open>auto simp: cancel_timers_def clock_reset_def test_clock_inv_def atomic_new_def\<close>)

interpretation test_clock: machine clock_step_call test_clock_inv "\<lambda>_. True"
  by unfold_locales (rule clock_call_inv)

lemma clock_new_inv: "test_clock_inv (clock_new ids)"
  by (simp add: clock_new_def test_clock_inv_def atomic_new_def)

lemma reachable_clock_inv: "run_steps clock_step_call (clock_new ids) calls = Some c \<Longrightarrow> test_clock_inv c"
  using test_clock.run_inv [OF clock_new_inv] by (simp add: list_all_iff)

text \<open>
  (C9) Advancing a clock that any sequence of calls has reached fires exactly the events that are
  due. If no timer's interval overflows the 64-bit range beyond the target time, the call returns;
  the events it returns are, in order of their time and then of their name, each timer's times
  from its next time on in steps of its interval, up to the target time and to its stop time,
  none missing and none twice, whatever stale entries the queue holds. Each timer remains with
  its first time after the target, or is gone if it has stopped, and the clock's time is the
  target if it was to be set.
\<close>

theorem clock_fires_due_events:
  assumes "run_steps clock_step_call (clock_new ids) calls = Some c"
    and "clock_timestamp_ns c \<le> to" and "timers_fit to (ck_timers c)"
  shows "\<exists>c' events. advance_time to set_it c = Some (c', events) \<and>
    map event_key events = due_events to (ck_timers c) \<and>
    map_of (ck_timers c') = settled_timers to (ck_timers c) \<and>
    clock_timestamp_ns c' = (if set_it then to else clock_timestamp_ns c)"
  using advance_time_accounts [OF reachable_clock_inv [OF assms(1)] assms(2), of set_it] assms(3)
  by (auto split: option.splits)

definition example_calls :: "unit clock_call list" where
  "example_calls =
     [Default_handler (), Set_timer ''b'' 2 None (Some 7) None None None,
      Set_time_alert ''a'' 4 None None, Set_timer ''b'' 3 None None None None None,
      Set_timer ''b'' 2 None (Some 7) None None None]"

lemmas clock_eval =
  clock_new_def set_time_alert_ns_def set_timer_ns_def validate_and_prepare_time_alert_def
  validate_and_prepare_timer_def check_positive_u64_def check_valid_string_utf8_def
  clock_timestamp_ns_def atomic_new_def check_predicate_true_def has_any_callback_def callbacks_new_def
  register_default_handler_def register_given_def replace_existing_timer_if_needed_def
  replace_existing_timer_def compact_timer_queue_if_needed_def compact_timer_queue_def insert_timer_def
  scheduled_event_def timer_new_def create_valid_interval_def nz_new_def nanos_add_def nanos_sub_def
  checked_add_u_def checked_sub_u_def u_max_def Let_def

definition example_timers :: "(string \<times> test_timer) list" where
  "example_timers =
     [(''a'', \<lparr>tm_name = ''a'', tm_interval_ns = NonZero 3, tm_start_time_ns = 0, tm_stop_time_ns = Some 4,
         tm_fire_immediately = False, tm_next_time_ns = 4, tm_is_expired = False\<rparr>),
      (''b'', \<lparr>tm_name = ''b'', tm_interval_ns = NonZero 1, tm_start_time_ns = 0, tm_stop_time_ns = Some 7,
         tm_fire_immediately = False, tm_next_time_ns = 2, tm_is_expired = False\<rparr>)]"

lemma example_clock:
  "\<exists>c. run_steps clock_step_call (clock_new (\<lambda>_. ''id'')) example_calls = Some c \<and>
     clock_timestamp_ns c = 0 \<and> ck_timers c = example_timers"
  by (simp add: example_calls_def example_timers_def clock_eval all_whitespace.simps byte_def)

lemma example_timers_fit: "timers_fit 6 example_timers"
  by (simp add: timers_fit_def example_timers_def u_max_def)

lemma example_due: "due_events 6 example_timers = [(2, ''b''), (4, ''a''), (4, ''b''), (6, ''b'')]"
  by code_simp

theorem clock_fires_due_events_witness:
  "\<exists>c c' events. run_steps clock_step_call (clock_new (\<lambda>_. ''id'')) example_calls = Some c \<and>
     advance_time 6 True c = Some (c', events) \<and>
     map event_key events = [(2, ''b''), (4, ''a''), (4, ''b''), (6, ''b'')] \<and> clock_timestamp_ns c' = 6"
proof -
  obtain c where c: "run_steps clock_step_call (clock_new (\<lambda>_. ''id'')) example_calls = Some c"
    and "clock_timestamp_ns c = 0" and timers: "ck_timers c = example_timers"
    using example_clock by blast
  then have "clock_timestamp_ns c \<le> 6" by simp
  from clock_fires_due_events [OF c this, of True] c timers show ?thesis
    by (auto simp: example_timers_fit example_due)
qed

lemma filter_due_name:
  assumes "distinct (map fst ts)" and "map_of ts name = Some tm"
  shows "filter (\<lambda>p. snd p = name)
      (concat (map (\<lambda>(name, tm). map (\<lambda>t. (t, name)) (due_times to tm)) ts)) =
    map (\<lambda>t. (t, name)) (due_times to tm)"
  using assms
proof (induction ts)
  case (Cons p ts)
  have none: "filter (\<lambda>p. snd p = name)
      (concat (map (\<lambda>(name, tm). map (\<lambda>t. (t, name)) (due_times to tm)) ts)) = []"
    if "name \<notin> fst ` set ts" for ts
    using that by (auto simp: filter_empty_conv image_iff)
  show ?case
    using Cons none by (cases p) (auto simp: filter_map comp_def split: if_splits)
qed simp

text \<open>
  (C22) A time alert fires once. If setting an alert on a reachable clock succeeds, then advancing
  the clock yields exactly one event of that name, at the alert time or, for an alert in the past,
  at the time it was set, if that is reached, and none otherwise; the timer exists afterwards
  exactly if it has not fired. Timers of the same name that the alert replaces, and the entries
  they left in the queue, have no effect.
\<close>

theorem time_alert_fires_once:
  assumes "run_steps clock_step_call (clock_new ids) calls = Some c"
    and "set_time_alert_ns name alert callback allow_past c = Some (c1, Inr ())"
    and "clock_timestamp_ns c1 \<le> to" and "timers_fit to (ck_timers c1)"
  shows "\<exists>c2 events. advance_time to set_it c1 = Some (c2, events) \<and>
    map te_ts_event (filter (\<lambda>e. te_name e = name) events) =
      (if max alert (clock_timestamp_ns c) \<le> to then [max alert (clock_timestamp_ns c)] else []) \<and>
    (timer_exists name c2 \<longleftrightarrow> to < max alert (clock_timestamp_ns c))"
proof -
  let ?at = "max alert (clock_timestamp_ns c)"
  have "clock_step_call c (Set_time_alert name alert callback allow_past) = Some c1"
    using assms(2) by simp
  then have inv: "test_clock_inv c1" by (rule clock_call_inv [OF reachable_clock_inv [OF assms(1)]])
  from assms(2) obtain tm where tm: "map_of (ck_timers c1) name = Some tm"
    and at: "tm_next_time_ns tm = ?at" "tm_stop_time_ns tm = Some ?at"
    by (cases rule: set_time_alert_cases) (auto simp: update_conv')
  have due: "due_times to tm = (if ?at \<le> to then [?at] else [])"
    "settled to tm = (if ?at \<le> to then None else Some tm)"
    using at_stop [of tm to] at by auto
  from advance_time_accounts [OF inv assms(3), of set_it] assms(4) obtain c2 events where
    adv: "advance_time to set_it c1 = Some (c2, events)" "map event_key events = due_events to (ck_timers c1)"
      "map_of (ck_timers c2) = settled_timers to (ck_timers c1)"
    by (auto split: option.splits)
  have "map te_ts_event (filter (\<lambda>e. te_name e = name) events) =
      map fst (filter (\<lambda>p. snd p = name) (map event_key events))"
    by (simp add: filter_map comp_def event_key_def)
  also have "\<dots> = map fst (sort (map (\<lambda>t. (t, name)) (due_times to tm)))"
    using inv tm by (simp add: adv(2) due_events_def filter_sort filter_due_name test_clock_inv_def)
  also have "\<dots> = (if ?at \<le> to then [?at] else [])" by (simp add: due)
  finally show ?thesis
    using adv due tm by (auto simp: timer_exists_def settled_timers_def)
qed

lemma example_alert:
  "\<exists>c c1. run_steps clock_step_call (clock_new (\<lambda>_. ''id'')) example_calls = Some c \<and>
     set_time_alert_ns ''b'' 5 None None c = Some (c1, Inr ()) \<and> clock_timestamp_ns c = 0 \<and>
     clock_timestamp_ns c1 \<le> 6 \<and> timers_fit 6 (ck_timers c1)"
  by (simp add: example_calls_def clock_eval all_whitespace.simps byte_def timers_fit_def)

theorem time_alert_fires_once_witness:
  "\<exists>c1 c2 events. advance_time 6 True c1 = Some (c2, events) \<and>
     map te_ts_event (filter (\<lambda>e. te_name e = ''b'') events) = [5] \<and> \<not> timer_exists ''b'' (c2 :: unit test_clock)"
proof -
  obtain c c1 where c: "run_steps clock_step_call (clock_new (\<lambda>_. ''id'')) example_calls = Some c"
    "set_time_alert_ns ''b'' 5 None None c = Some (c1, Inr ())"
    and now: "clock_timestamp_ns c = 0"
    and c1: "clock_timestamp_ns c1 \<le> 6" "timers_fit 6 (ck_timers c1)"
    using example_alert by blast
  from time_alert_fires_once [OF c c1, of True] obtain c2 events where
    "advance_time 6 True c1 = Some (c2, events)" and "\<not> timer_exists ''b'' c2"
    and "map te_ts_event (filter (\<lambda>e. te_name e = ''b'') events) = [5]" by (auto simp: now)
  then show ?thesis by (intro exI conjI)
qed

end
