(* ===== verification/Throttler.thy ===== *)
theory Throttler
  imports Clock_Properties
begin

text \<open>
  The throttler (\<^verbatim>\<open>crates/common/src/throttler.rs\<close>), on top of the test clock: its timers are
  alerts of the clock's model, with the drain handler and the resume function as the two callbacks.
  What the two output callbacks were given is part of the state, in order. A deque is a list with
  its front first. The counters are unbounded. The registries the callbacks go through are left
  out: a throttler is registered, and is the only user of its clock.
\<close>

section \<open>Rate limits\<close>

record rate_limit =
  rl_limit :: non_zero
  rl_interval_ns :: non_zero

datatype rate_error = ZeroLimit | ZeroInterval

definition rate_limit_new_checked :: "nat \<Rightarrow> nat \<Rightarrow> rate_error + rate_limit" where
  "rate_limit_new_checked limit interval_ns =
     (case nz_new limit of
        None \<Rightarrow> Inl ZeroLimit
      | Some l \<Rightarrow>
          (case nz_new interval_ns of
             None \<Rightarrow> Inl ZeroInterval
           | Some i \<Rightarrow> Inr \<lparr>rl_limit = l, rl_interval_ns = i\<rparr>))"

definition rate_limit_new :: "nat \<Rightarrow> nat \<Rightarrow> rate_limit option" where
  "rate_limit_new limit interval_ns =
     (case rate_limit_new_checked limit interval_ns of Inl _ \<Rightarrow> None | Inr r \<Rightarrow> Some r)"

section \<open>The throttler\<close>

definition MAX_INITIAL_TIMESTAMPS_CAPACITY :: nat where
  "MAX_INITIAL_TIMESTAMPS_CAPACITY = 1024"

datatype throttler_callback = ProcessBuffer | ResumeSending

record 'm throttler =
  th_timer_name :: string
  th_limit :: non_zero
  th_interval_ns :: non_zero
  th_large_limit :: bool
  th_buffer :: "'m list"
  th_timestamps :: "nat list"
  th_is_limiting :: bool
  th_recv_count :: nat
  th_sent_count :: nat
  th_drops :: bool
  th_output :: "'m list"
  th_dropped :: "'m list"

type_synonym throttler_clock = "throttler_callback test_clock"

definition throttler_new :: "rate_limit \<Rightarrow> string \<Rightarrow> bool \<Rightarrow> string \<Rightarrow> 'm throttler" where
  "throttler_new r timer_name drops actor_id =
     \<lparr>th_timer_name = timer_name @ ''-'' @ actor_id, th_limit = rl_limit r,
      th_interval_ns = rl_interval_ns r,
      th_large_limit = (nz_get (rl_limit r) > MAX_INITIAL_TIMESTAMPS_CAPACITY),
      th_buffer = [], th_timestamps = [], th_is_limiting = False, th_recv_count = 0,
      th_sent_count = 0, th_drops = drops, th_output = [], th_dropped = []\<rparr>"

definition set_alarm :: "string \<Rightarrow> nat \<Rightarrow> 'c \<Rightarrow> 'c test_clock \<Rightarrow> 'c test_clock option" where
  "set_alarm name delta callback c = do {
     let c1 = (if timer_exists name c then cancel_timer name c else c);
     alert_ts \<leftarrow> nanos_add (clock_timestamp_ns c1) delta;
     (c2, r) \<leftarrow> set_time_alert_ns name alert_ts (Some callback) (Some True) c1;
     (case r of Inl _ \<Rightarrow> None | Inr _ \<Rightarrow> Some c2)}"

definition set_timer_after ::
    "nat \<Rightarrow> throttler_callback \<Rightarrow> 'm throttler \<Rightarrow> throttler_clock \<Rightarrow> throttler_clock option" where
  "set_timer_after delta callback th c = set_alarm (th_timer_name th) delta callback c"

definition delta_next_at :: "nat \<Rightarrow> 'm throttler \<Rightarrow> nat" where
  "delta_next_at now th =
     (let i = nz_get (th_limit th) - 1
      in if i < length (th_timestamps th)
         then saturating_sub_u (nz_get (th_interval_ns th)) (saturating_sub_u now (th_timestamps th ! i))
         else 0)"

definition delta_next :: "'m throttler \<Rightarrow> throttler_clock \<Rightarrow> nat" where
  "delta_next th c = delta_next_at (clock_timestamp_ns c) th"

definition throttler_set_timer ::
    "throttler_callback \<Rightarrow> 'm throttler \<Rightarrow> throttler_clock \<Rightarrow> throttler_clock option" where
  "throttler_set_timer callback th c = set_timer_after (delta_next th c) callback th c"

definition throttler_reset :: "'m throttler \<Rightarrow> throttler_clock \<Rightarrow> 'm throttler \<times> throttler_clock" where
  "throttler_reset th c =
     (th\<lparr>th_buffer := [], th_recv_count := 0, th_sent_count := 0, th_is_limiting := False,
         th_timestamps := []\<rparr>,
      cancel_timer (th_timer_name th) c)"

fun take_window :: "int \<Rightarrow> nat list \<Rightarrow> nat option" where
  "take_window start [] = Some 0"
| "take_window start (t # ts) = do {
     t' \<leftarrow> nanos_as_i64 t;
     if t' > start then map_option Suc (take_window start ts) else Some 0}"

definition count_in_window :: "nat \<Rightarrow> 'm throttler \<Rightarrow> nat option" where
  "count_in_window now th = do {
     now' \<leftarrow> nanos_as_i64 now;
     let start = wrap_i 64 (now' - wrap_i 64 (int (nz_get (th_interval_ns th))));
     (case th_timestamps th of
        [] \<Rightarrow> Some 0
      | newest # _ \<Rightarrow> do {
          oldest' \<leftarrow> nanos_as_i64 (last (th_timestamps th));
          if oldest' > start then Some (length (th_timestamps th))
          else do {
            newest' \<leftarrow> nanos_as_i64 newest;
            if newest' > start then take_window start (th_timestamps th) else Some 0}})}"

definition push_timestamp :: "nat \<Rightarrow> 'm throttler \<Rightarrow> 'm throttler" where
  "push_timestamp now th =
     th\<lparr>th_timestamps :=
       now # (if length (th_timestamps th) \<ge> nz_get (th_limit th)
              then butlast (th_timestamps th) else th_timestamps th)\<rparr>"

definition send_msg :: "'m \<Rightarrow> 'm throttler \<Rightarrow> throttler_clock \<Rightarrow> 'm throttler" where
  "send_msg msg th c =
     (let th1 = push_timestamp (clock_timestamp_ns c) th
      in th1\<lparr>th_sent_count := th_sent_count th1 + 1, th_output := th_output th1 @ [msg]\<rparr>)"

definition try_reserve ::
    "nat \<Rightarrow> 'm throttler \<Rightarrow> throttler_clock \<Rightarrow> ('m throttler \<times> throttler_clock \<times> bool) option" where
  "try_reserve num th c =
     (let th = th\<lparr>th_recv_count := th_recv_count th + num\<rparr>
      in if num = 0 then Some (th, c, True)
         else
           let now = clock_timestamp_ns c;
               delta = delta_next_at now th;
               th = (if th_is_limiting th \<and> delta = 0 \<and> th_buffer th = []
                     then th\<lparr>th_is_limiting := False\<rparr> else th)
           in if th_is_limiting th then Some (th, c, False)
              else do {
                used \<leftarrow> count_in_window now th;
                if saturating_sub_u (nz_get (th_limit th)) used < num
                then do {
                  let th = th\<lparr>th_is_limiting := True\<rparr>;
                  c1 \<leftarrow> (if delta > 0 then set_timer_after delta ResumeSending th c else Some c);
                  Some (th, c1, False)}
                else
                  let th = (push_timestamp now ^^ num) th
                  in Some (th\<lparr>th_sent_count := th_sent_count th + num\<rparr>, c, True)})"

definition limit_msg ::
    "'m \<Rightarrow> 'm throttler \<Rightarrow> throttler_clock \<Rightarrow> ('m throttler \<times> throttler_clock) option" where
  "limit_msg msg th c =
     (if \<not> th_drops th
      then
        let th = th\<lparr>th_buffer := msg # th_buffer th\<rparr>
        in if \<not> th_is_limiting th
           then do {
             c1 \<leftarrow> set_timer_after (delta_next th c) ProcessBuffer th c;
             Some (th\<lparr>th_is_limiting := True\<rparr>, c1)}
           else Some (th, c)
      else
        let th = th\<lparr>th_dropped := th_dropped th @ [msg]\<rparr>
        in if \<not> th_is_limiting th
           then do {
             c1 \<leftarrow> set_timer_after (delta_next th c) ResumeSending th c;
             Some (th\<lparr>th_is_limiting := True\<rparr>, c1)}
           else Some (th, c))"

definition throttler_send ::
    "'m \<Rightarrow> 'm throttler \<Rightarrow> throttler_clock \<Rightarrow> ('m throttler \<times> throttler_clock) option" where
  "throttler_send msg th c =
     (let th = th\<lparr>th_recv_count := th_recv_count th + 1\<rparr>
      in if th_large_limit th \<and> length (th_timestamps th) < nz_get (th_limit th) \<and> \<not> th_is_limiting th
         then Some (send_msg msg th c, c)
         else
           let delta = (if th_is_limiting th \<and> th_buffer th \<noteq> [] then 0 else delta_next th c);
               th = (if th_is_limiting th \<and> delta = 0 \<and> th_buffer th = []
                     then th\<lparr>th_is_limiting := False\<rparr> else th)
           in if th_is_limiting th \<or> delta > 0 then limit_msg msg th c
              else Some (send_msg msg th c, c))"

text \<open>The drain handler. Each message it sends leaves the buffer shorter.\<close>

function process_handle ::
    "'m throttler \<Rightarrow> throttler_clock \<Rightarrow> ('m throttler \<times> throttler_clock) option" where
  "process_handle th c =
     (if th_buffer th = [] then Some (th\<lparr>th_is_limiting := False\<rparr>, c)
      else
        let th1 = send_msg (last (th_buffer th)) (th\<lparr>th_buffer := butlast (th_buffer th)\<rparr>) c
        in if th_buffer th1 \<noteq> [] \<and> delta_next th1 c > 0
           then do {
             let th2 = th1\<lparr>th_is_limiting := True\<rparr>;
             c1 \<leftarrow> throttler_set_timer ProcessBuffer th2 c;
             Some (th2, c1)}
           else process_handle th1 c)"
  by pat_completeness auto

termination
  by (relation "measure (\<lambda>(th, c). length (th_buffer th))")
    (auto simp: send_msg_def push_timestamp_def Let_def)

declare process_handle.simps [simp del]

definition throttler_resume :: "'m throttler \<Rightarrow> 'm throttler" where
  "throttler_resume th = th\<lparr>th_is_limiting := False\<rparr>"

section \<open>The throttler on its clock\<close>

definition run_callback ::
    "throttler_callback \<Rightarrow> 'm throttler \<times> throttler_clock \<Rightarrow> ('m throttler \<times> throttler_clock) option" where
  "run_callback callback = (\<lambda>(th, c).
     case callback of
       ProcessBuffer \<Rightarrow> process_handle th c
     | ResumeSending \<Rightarrow> Some (throttler_resume th, c))"

fun run_callbacks ::
    "throttler_callback list \<Rightarrow> 'm throttler \<times> throttler_clock \<Rightarrow> ('m throttler \<times> throttler_clock) option" where
  "run_callbacks [] s = Some s"
| "run_callbacks (cb # cbs) s = do { s1 \<leftarrow> run_callback cb s; run_callbacks cbs s1 }"

text \<open>The alarms that ring when the clock is advanced: the callbacks of the events it returns.\<close>

definition ring_until :: "nat \<Rightarrow> 'c test_clock \<Rightarrow> ('c test_clock \<times> 'c list) option" where
  "ring_until to c = do {
     (c1, events) \<leftarrow> advance_time to True c;
     handlers \<leftarrow> match_handlers events c1;
     Some (c1, map eh_callback handlers)}"

definition throttler_advance ::
    "nat \<Rightarrow> 'm throttler \<times> throttler_clock \<Rightarrow> ('m throttler \<times> throttler_clock) option" where
  "throttler_advance to = (\<lambda>(th, c). do {
     (c1, callbacks) \<leftarrow> ring_until to c;
     run_callbacks callbacks (th, c1)})"

end
