(* ===== verification/Throttler_Properties.thy ===== *)
theory Throttler_Properties
  imports Throttler
begin

text \<open>
  What the throttler guarantees. The clock is used through an interface, a single alarm that is
  set, cancelled and rung, which the test clock implements for one timer name. The rate limit is
  a property of the times at which slots were taken; the order of the messages is a property of
  what was handed to the output.
\<close>

section \<open>A clock with one alarm\<close>

locale alarm_clock =
  fixes armed :: "(nat \<times> 'c) option \<Rightarrow> 'k \<Rightarrow> bool"
    and now :: "'k \<Rightarrow> nat"
    and set_alarm_in :: "nat \<Rightarrow> 'c \<Rightarrow> 'k \<Rightarrow> 'k option"
    and cancel_alarm :: "'k \<Rightarrow> 'k"
    and ring :: "nat \<Rightarrow> 'k \<Rightarrow> ('k \<times> 'c list) option"
    and longest :: nat
  assumes set_alarm_armed:
      "armed a k \<Longrightarrow> delta \<le> longest \<Longrightarrow> set_alarm_in delta cb k = Some k' \<Longrightarrow>
         armed (Some (now k + delta, cb)) k' \<and> now k' = now k"
    and set_alarm_total:
      "armed a k \<Longrightarrow> delta \<le> longest \<Longrightarrow> now k + delta \<le> u_max 64 \<Longrightarrow> set_alarm_in delta cb k \<noteq> None"
    and cancel_alarm_armed: "armed a k \<Longrightarrow> armed None (cancel_alarm k) \<and> now (cancel_alarm k) = now k"
    and ring_now: "armed a k \<Longrightarrow> ring to k = Some (k', cbs) \<Longrightarrow> now k \<le> to \<and> now k' = to"
    and ring_armed:
      "armed a k \<Longrightarrow> ring to k = Some (k', cbs) \<Longrightarrow>
         (case a of
            Some (at, cb) \<Rightarrow>
              if at \<le> to then cbs = [cb] \<and> armed None k' else cbs = [] \<and> armed a k'
          | None \<Rightarrow> cbs = [] \<and> armed None k')"
    and ring_total: "armed a k \<Longrightarrow> now k \<le> to \<Longrightarrow> to + longest \<le> u_max 64 \<Longrightarrow> ring to k \<noteq> None"
begin

lemma alarm_rings:
  assumes "armed a k" and "delta \<le> longest" and "set_alarm_in delta cb k = Some k1"
    and "now k + delta \<le> to" and "to + longest \<le> u_max 64"
  shows "\<exists>k2. ring to k1 = Some (k2, [cb]) \<and> armed None k2 \<and> now k2 = to"
proof -
  have k1: "armed (Some (now k + delta, cb)) k1" "now k1 = now k"
    using set_alarm_armed [OF assms(1-3)] by simp_all
  then obtain k2 cbs where r: "ring to k1 = Some (k2, cbs)"
    using ring_total [OF k1(1)] assms(4,5) by fastforce
  with ring_armed [OF k1(1) r] ring_now [OF k1(1) r] assms(4) show ?thesis by simp
qed

end

definition armed :: "string \<Rightarrow> nat \<Rightarrow> (nat \<times> 'c) option \<Rightarrow> 'c test_clock \<Rightarrow> bool" where
  "armed name longest a c \<longleftrightarrow>
     test_clock_inv c \<and> check_valid_string_utf8 name = Inr () \<and> 0 < longest \<and>
     (case a of
        None \<Rightarrow> ck_timers c = []
      | Some (at, cb) \<Rightarrow>
          (\<exists>tm. ck_timers c = [(name, tm)] \<and> tm_next_time_ns tm = at \<and> tm_stop_time_ns tm = Some at \<and>
             nz_get (tm_interval_ns tm) \<le> longest) \<and>
          cb_callbacks (ck_callbacks c) name = Some cb)"

lemma armed_timers: "armed name longest a c \<Longrightarrow> AList.delete name (ck_timers c) = []"
  by (auto simp: armed_def split: option.splits)

lemma armed_unique: "armed name longest a c \<Longrightarrow> armed name longest a' c \<Longrightarrow> a = a'"
  by (auto simp: armed_def split: option.splits)

lemma cancel_armed:
  assumes "armed name longest a c"
  shows "armed name longest None (cancel_timer name c)"
    and "clock_timestamp_ns (cancel_timer name c) = clock_timestamp_ns c"
  using assms armed_timers [OF assms]
  by (simp_all add: armed_def cancel_timer_def clock_timestamp_ns_def compact_inv test_clock_inv_def)

text \<open>Setting the alarm on a clock without timers.\<close>

lemma insert_timer_callbacks [simp]: "ck_callbacks (insert_timer tm c) = ck_callbacks c"
  and insert_timer_time [simp]: "ck_time (insert_timer tm c) = ck_time c"
  by (simp_all add: insert_timer_def)

lemma set_alert_unarmed:
  assumes "armed name longest None c" and "delta \<le> longest" and "clock_timestamp_ns c + delta \<le> u_max 64"
  shows "\<exists>c'. set_time_alert_ns name (clock_timestamp_ns c + delta) (Some cb) (Some True) c = Some (c', Inr ()) \<and>
    armed name longest (Some (clock_timestamp_ns c + delta, cb)) c' \<and>
    clock_timestamp_ns c' = clock_timestamp_ns c"
proof -
  let ?now = "clock_timestamp_ns c" and ?c = "replace_existing_timer_if_needed name c"
  have valid: "check_valid_string_utf8 name = Inr ()" and inv: "test_clock_inv c"
    and none: "ck_timers c = []" and pos: "0 < longest"
    using assms(1) by (simp_all add: armed_def)
  define tm where "tm = \<lparr>tm_name = name, tm_interval_ns = create_valid_interval delta, tm_start_time_ns = ?now,
    tm_stop_time_ns = Some (?now + delta), tm_fire_immediately = (delta = 0),
    tm_next_time_ns = ?now + delta, tm_is_expired = False\<rparr>"
  have iv: "nz_get (create_valid_interval delta) = max 1 delta"
    by (auto simp: create_valid_interval_def nz_new_def)
  have tm: "timer_new name (create_valid_interval delta) ?now (Some (?now + delta)) (delta = 0) = Some tm"
    using assms(3) valid
    by (auto simp: timer_new_def tm_def nanos_add_def checked_add_u_def create_valid_interval_def nz_new_def)
  let ?c' = "insert_timer tm (register_given name (Some cb) ?c)"
  have "set_time_alert_ns name (?now + delta) (Some cb) (Some True) c = Some (?c', Inr ())"
    using valid tm
    by (simp add: set_time_alert_ns_def validate_and_prepare_time_alert_def Let_def check_predicate_true_def
        nanos_sub_def checked_sub_u_def)
  moreover have "test_clock_inv ?c'"
    using inv by (simp add: insert_timer_inv replace_inv tm_def)
  moreover have "ck_timers ?c' = [(name, tm)]"
    by (simp add: replace_timers none tm_def)
  moreover have "clock_timestamp_ns ?c' = ?now" "cb_callbacks (ck_callbacks ?c') name = Some cb"
    by (simp_all add: clock_timestamp_ns_def register_given_def register_callback_def
        replace_existing_timer_if_needed_def)
  ultimately show ?thesis
    using assms(2) pos valid iv by (simp add: armed_def tm_def)
qed

lemma set_alarm_spec:
  assumes "armed name longest a c" and "delta \<le> longest"
  shows "case set_alarm name delta cb c of
      None \<Rightarrow> \<not> clock_timestamp_ns c + delta \<le> u_max 64
    | Some c' \<Rightarrow> armed name longest (Some (clock_timestamp_ns c + delta, cb)) c' \<and>
        clock_timestamp_ns c' = clock_timestamp_ns c"
proof -
  let ?c = "if timer_exists name c then cancel_timer name c else c"
  have c: "armed name longest None ?c" "clock_timestamp_ns ?c = clock_timestamp_ns c"
    using cancel_armed [OF assms(1)] assms(1)
    by (auto simp: timer_exists_def armed_def split: option.splits if_splits)
  show ?thesis
  proof (cases "clock_timestamp_ns c + delta \<le> u_max 64")
    case True
    with set_alert_unarmed [OF c(1) assms(2), of cb] c(2) show ?thesis
      by (auto simp: set_alarm_def nanos_add_def checked_add_u_def Let_def)
  next
    case False
    then show ?thesis using c(2) by (simp add: set_alarm_def nanos_add_def checked_add_u_def Let_def)
  qed
qed

lemma single_alist:
  assumes "distinct (map fst ts)" and "map_of ts = [k \<mapsto> v]"
  shows "ts = [(k, v)]"
proof -
  have "set ts = {(k, v)}"
    using assms by (auto simp: map_of_eq_Some_iff [symmetric] split: if_splits)
  moreover have "distinct ts" using assms(1) by (simp add: distinct_map)
  ultimately have "length ts = 1" using distinct_card [of ts] by simp
  with \<open>set ts = {(k, v)}\<close> show ?thesis by (cases ts) auto
qed

lemma advance_unarmed:
  assumes "armed name longest None c" and "advance_time to True c = Some (c', events)"
    and "clock_timestamp_ns c \<le> to"
  shows "events = [] \<and> armed name longest None c'"
proof -
  have c: "test_clock_inv c" "ck_timers c = []" using assms(1) by (simp_all add: armed_def)
  from advance_time_accounts [OF c(1) assms(3), of True] c(2)
  have "map event_key events = []" "map_of (ck_timers c') = Map.empty" "test_clock_inv c'"
    by (simp_all add: assms(2) due_events_def settled_timers_def)
  then show ?thesis using assms(1) by (simp add: armed_def)
qed

lemma advance_armed:
  assumes "armed name longest (Some (at, cb)) c" and "advance_time to True c = Some (c', events)"
    and "clock_timestamp_ns c \<le> to"
  shows "if at \<le> to then map te_name events = [name] \<and> armed name longest None c'
    else events = [] \<and> armed name longest (Some (at, cb)) c'"
    and "cb_callbacks (ck_callbacks c') name = Some cb"
proof -
  obtain tm where tm: "ck_timers c = [(name, tm)]" "tm_next_time_ns tm = at" "tm_stop_time_ns tm = Some at"
    "nz_get (tm_interval_ns tm) \<le> longest"
    and inv: "test_clock_inv c"
    and rest: "check_valid_string_utf8 name = Inr ()" "0 < longest" "cb_callbacks (ck_callbacks c) name = Some cb"
    using assms(1) by (auto simp: armed_def)
  from advance_time_accounts [OF inv assms(3), of True] tm(1) have
    keys: "map event_key events = sort (map (\<lambda>t. (t, name)) (due_times to tm))"
    and timers: "map_of (ck_timers c') = settled_timers to [(name, tm)]"
    and c': "ck_callbacks c' = ck_callbacks c" "test_clock_inv c'"
    by (simp_all add: assms(2) due_events_def)
  show "cb_callbacks (ck_callbacks c') name = Some cb" using c' rest by simp
  show "if at \<le> to then map te_name events = [name] \<and> armed name longest None c'
    else events = [] \<and> armed name longest (Some (at, cb)) c'"
  proof (cases "at \<le> to")
    case True
    with at_stop [of tm to] tm have due: "due_times to tm = [at]" "settled to tm = None" by simp_all
    then have "map_of (ck_timers c') = Map.empty" using timers by (auto simp: settled_timers_def)
    moreover have "map te_name events = map snd (map event_key events)" by (simp add: event_key_def)
    ultimately show ?thesis using True c' rest due keys by (simp add: armed_def)
  next
    case False
    then have due: "due_times to tm = []" "settled to tm = Some tm" using tm(2) by simp_all
    then have "map_of (ck_timers c') = [name \<mapsto> tm]" using timers by (auto simp: settled_timers_def)
    then have "ck_timers c' = [(name, tm)]"
      by (rule single_alist [rotated]) (use c'(2) in \<open>simp add: test_clock_inv_def\<close>)
    then show ?thesis using False c' rest tm due keys by (simp add: armed_def)
  qed
qed

lemma ring_spec:
  assumes "armed name longest a c"
  shows "case ring_until to c of
      None \<Rightarrow> \<not> (clock_timestamp_ns c \<le> to \<and> to + longest \<le> u_max 64)
    | Some (c', cbs) \<Rightarrow> clock_timestamp_ns c \<le> to \<and> clock_timestamp_ns c' = to \<and>
        (case a of
            Some (at, cb) \<Rightarrow>
              if at \<le> to then cbs = [cb] \<and> armed name longest None c'
              else cbs = [] \<and> armed name longest a c'
          | None \<Rightarrow> cbs = [] \<and> armed name longest None c')"
proof (cases "clock_timestamp_ns c \<le> to")
  case False
  then show ?thesis by (simp add: ring_until_def advance_time_def)
next
  case now: True
  have inv: "test_clock_inv c" using assms by (simp add: armed_def)
  note accounts = advance_time_accounts [OF inv now, of True]
  show ?thesis
  proof (cases "advance_time to True c")
    case None
    with accounts have "\<not> timers_fit to (ck_timers c)" by simp
    then have "\<not> to + longest \<le> u_max 64"
      using assms by (auto simp: timers_fit_def armed_def split: option.splits)
    with None show ?thesis by (simp add: ring_until_def)
  next
    case (Some r)
    then obtain c' events where adv: "advance_time to True c = Some (c', events)" by (cases r) auto
    then have to: "clock_timestamp_ns c' = to" using accounts by simp
    show ?thesis
    proof (cases a)
      case None
      then show ?thesis
        using advance_unarmed [OF _ adv now, of name longest] assms now to by (simp add: ring_until_def adv)
    next
      case (Some p)
      obtain at cb where p: "p = (at, cb)" by (cases p)
      have "armed name longest (Some (at, cb)) c" using assms Some p by simp
      then show ?thesis
        using advance_armed [OF _ adv now, of name longest at cb] now to Some p
        by (auto simp: ring_until_def adv get_handler_def get_callback_def split: if_splits)
    qed
  qed
qed

interpretation test_alarm: alarm_clock "armed name longest" clock_timestamp_ns "set_alarm name"
  "cancel_timer name" ring_until longest for name longest
proof
  fix a k delta cb k' to cbs
  show "armed name longest a k \<Longrightarrow> armed name longest None (cancel_timer name k) \<and>
      clock_timestamp_ns (cancel_timer name k) = clock_timestamp_ns k"
    using cancel_armed by blast
  show "armed name longest a k \<Longrightarrow> delta \<le> longest \<Longrightarrow> set_alarm name delta cb k = Some k' \<Longrightarrow>
      armed name longest (Some (clock_timestamp_ns k + delta, cb)) k' \<and>
      clock_timestamp_ns k' = clock_timestamp_ns k"
    using set_alarm_spec [of name longest a k delta cb] by simp
  show "armed name longest a k \<Longrightarrow> ring_until to k = Some (k', cbs) \<Longrightarrow>
      clock_timestamp_ns k \<le> to \<and> clock_timestamp_ns k' = to"
    using ring_spec [of name longest a k to] by simp
  show "armed name longest a k \<Longrightarrow> ring_until to k = Some (k', cbs) \<Longrightarrow>
      (case a of
         Some (at, cb) \<Rightarrow>
           if at \<le> to then cbs = [cb] \<and> armed name longest None k'
           else cbs = [] \<and> armed name longest a k'
       | None \<Rightarrow> cbs = [] \<and> armed name longest None k')"
    using ring_spec [of name longest a k to] by (simp split: option.splits)
  show "armed name longest a k \<Longrightarrow> clock_timestamp_ns k \<le> to \<Longrightarrow> to + longest \<le> u_max 64 \<Longrightarrow>
      ring_until to k \<noteq> None"
    using ring_spec [of name longest a k to] by (auto split: option.splits)
  show "armed name longest a k \<Longrightarrow> delta \<le> longest \<Longrightarrow> clock_timestamp_ns k + delta \<le> u_max 64 \<Longrightarrow>
      set_alarm name delta cb k \<noteq> None"
    using set_alarm_spec [of name longest a k delta cb] by (auto split: option.splits)
qed

section \<open>The window\<close>

text \<open>
  The times at which slots were taken, latest first, and the part of them that the throttler
  keeps. They are spaced when any two that are a whole limit apart are an interval apart.
\<close>

definition spaced :: "nat \<Rightarrow> nat \<Rightarrow> nat list \<Rightarrow> bool" where
  "spaced limit interval log \<longleftrightarrow>
     (\<forall>k. k + limit < length log \<longrightarrow> log ! (k + limit) + interval \<le> log ! k)"

definition window_open :: "nat \<Rightarrow> nat \<Rightarrow> nat \<Rightarrow> nat list \<Rightarrow> bool" where
  "window_open limit interval now log \<longleftrightarrow>
     (limit \<le> length log \<longrightarrow> log ! (limit - 1) + interval \<le> now)"

definition window_inv :: "nat \<Rightarrow> 'm throttler \<Rightarrow> nat list \<Rightarrow> bool" where
  "window_inv now th log \<longleftrightarrow>
     th_timestamps th = take (nz_get (th_limit th)) log \<and> sorted (rev log) \<and> (\<forall>t \<in> set log. t \<le> now) \<and>
     spaced (nz_get (th_limit th)) (nz_get (th_interval_ns th)) log"

abbreviation may_send :: "nat \<Rightarrow> 'm throttler \<Rightarrow> nat list \<Rightarrow> bool" where
  "may_send now th log \<equiv> window_open (nz_get (th_limit th)) (nz_get (th_interval_ns th)) now log"

lemma spaced_Cons:
  assumes "0 < limit"
  shows "spaced limit interval (t # log) \<longleftrightarrow> spaced limit interval log \<and> window_open limit interval t log"
proof -
  have all: "(\<forall>k. P k) \<longleftrightarrow> P 0 \<and> (\<forall>k. P (Suc k))" for P :: "nat \<Rightarrow> bool" by (metis not0_implies_Suc)
  have "(\<forall>k. k + limit < length (t # log) \<longrightarrow> (t # log) ! (k + limit) + interval \<le> (t # log) ! k) \<longleftrightarrow>
      (limit < length (t # log) \<longrightarrow> (t # log) ! limit + interval \<le> t) \<and> spaced limit interval log"
    unfolding spaced_def by (subst all) auto
  moreover have "(t # log) ! limit = log ! (limit - 1)" using assms by (cases limit) simp_all
  ultimately show ?thesis using assms by (auto simp: spaced_def [of _ _ "t # log"] window_open_def)
qed

lemma delta_zero_iff:
  assumes "window_inv now th log"
  shows "delta_next_at now th = 0 \<longleftrightarrow> may_send now th log"
    and "may_send (now + delta_next_at now th) th log"
    and "delta_next_at now th \<le> nz_get (th_interval_ns th)"
proof -
  let ?l = "nz_get (th_limit th)" and ?iv = "nz_get (th_interval_ns th)"
  have ts: "th_timestamps th = take ?l log" and le: "\<forall>t \<in> set log. t \<le> now"
    using assms by (simp_all add: window_inv_def)
  have l: "0 < ?l" and iv: "0 < ?iv" by simp_all
  have delta: "delta_next_at now th = (if ?l \<le> length log then ?iv - (now - log ! (?l - 1)) else 0)"
    using l by (cases "th_limit th") (auto simp: delta_next_at_def ts Let_def saturating_sub_u_eq)
  have "?l \<le> length log \<Longrightarrow> log ! (?l - 1) \<le> now" using le by (cases "th_limit th") auto
  then show "delta_next_at now th = 0 \<longleftrightarrow> may_send now th log"
    and "may_send (now + delta_next_at now th) th log"
    and "delta_next_at now th \<le> nz_get (th_interval_ns th)"
    using iv unfolding delta window_open_def by auto
qed

lemma push_window:
  assumes "window_inv now th log" and "may_send now th log"
  shows "window_inv now (push_timestamp now th) (now # log)"
proof -
  obtain l where l: "nz_get (th_limit th) = Suc l" by (cases "th_limit th") simp
  have "now # (if length (take (Suc l) log) \<ge> Suc l then butlast (take (Suc l) log) else take (Suc l) log) =
      take (Suc l) (now # log)"
    by (auto simp: butlast_take)
  then show ?thesis
    using assms l by (simp add: window_inv_def push_timestamp_def spaced_Cons sorted_append butlast_take)
qed

lemma window_open_mono: "window_open limit interval t log \<Longrightarrow> t \<le> t' \<Longrightarrow> window_open limit interval t' log"
  by (auto simp: window_open_def)

lemma window_inv_later: "window_inv now th log \<Longrightarrow> now \<le> later \<Longrightarrow> window_inv later th log"
  by (auto simp: window_inv_def intro: order_trans)

text \<open>What the window's count is, when the times fit the signed range.\<close>

lemma take_window_eq:
  "\<forall>t \<in> set ts. int t \<le> i_max 64 \<Longrightarrow> take_window start ts = Some (length (takeWhile (\<lambda>t. int t > start) ts))"
  by (induction ts) (simp_all add: nanos_as_i64_def)

lemma last_least: "sorted (rev ts) \<Longrightarrow> t \<in> set ts \<Longrightarrow> last ts \<le> (t :: nat)"
  by (induction ts rule: rev_induct) auto

lemma count_in_window_eq:
  assumes "window_inv now th log" and "int (nz_get (th_interval_ns th)) \<le> i_max 64"
    and "count_in_window now th = Some used"
  shows "used = length (takeWhile (\<lambda>t. int t > int now - int (nz_get (th_interval_ns th))) (th_timestamps th))"
proof -
  let ?ts = "th_timestamps th" and ?iv = "int (nz_get (th_interval_ns th))"
  have fits: "int now \<le> i_max 64" using assms(3) by (auto simp: count_in_window_def nanos_as_i64_def split: if_splits)
  have ts: "\<forall>t \<in> set ?ts. t \<le> now" and sorted: "sorted (rev ?ts)"
    using assms(1) by (auto simp: window_inv_def rev_take sorted_wrt_drop dest: in_set_takeD)
  then have small: "\<forall>t \<in> set ?ts. int t \<le> i_max 64" using fits by fastforce
  have start: "wrap_i 64 (int now - wrap_i 64 ?iv) = int now - ?iv"
    using fits assms(2) by (subst (2) wrap_i_id; (subst wrap_i_id)?) (auto simp: in_i_def i_min_64 i_max_64)
  show ?thesis
  proof (cases ?ts)
    case Nil
    with assms(3) fits show ?thesis by (simp add: count_in_window_def nanos_as_i64_def)
  next
    case (Cons newest rest)
    have oldest: "last ?ts \<in> set ?ts" "newest \<in> set ?ts" using Cons by simp_all
    have all: "length (takeWhile (\<lambda>t. int t > int now - ?iv) ?ts) = length ?ts"
      if "int (last ?ts) > int now - ?iv"
      using that last_least [OF sorted] by (intro arg_cong [where f = length]) (fastforce simp: takeWhile_eq_all_conv)
    have as_i64: "nanos_as_i64 t = Some (int t)" if "t \<in> set ?ts" for t
      using that small by (simp add: nanos_as_i64_def)
    have "count_in_window now th =
        (if int (last ?ts) > int now - ?iv then Some (length ?ts)
         else if int newest > int now - ?iv then take_window (int now - ?iv) ?ts else Some 0)"
      unfolding count_in_window_def
      using fits as_i64 [OF oldest(1)] as_i64 [OF oldest(2)] start Cons
      by (simp add: nanos_as_i64_def [of now] Let_def del: take_window.simps)
    moreover have "takeWhile (\<lambda>t. int t > int now - ?iv) ?ts = []" if "\<not> int newest > int now - ?iv"
      using that Cons by simp
    ultimately show ?thesis
      using assms(3) all take_window_eq [OF small] by (simp split: if_splits)
  qed
qed

lemma beyond_takeWhile:
  assumes "sorted (rev ts)" and "length (takeWhile (\<lambda>t. int t > start) ts) \<le> j" and "j < length ts"
  shows "int (ts ! j) \<le> start"
  using assms
proof (induction ts arbitrary: j)
  case (Cons t ts)
  show ?case
  proof (cases "int t > start")
    case True
    with Cons.prems obtain i where "j = Suc i" by (cases j) auto
    with Cons True show ?thesis by (simp add: sorted_append)
  next
    case False
    have "(t # ts) ! j \<le> t" using Cons.prems(1,3) by (cases j) (auto simp: sorted_append)
    with False show ?thesis by linarith
  qed
qed simp

lemma reserve_window:
  assumes inv: "window_inv now th log"
    and used: "length (takeWhile (\<lambda>t. int t > int now - int (nz_get (th_interval_ns th))) (th_timestamps th)) + num
      \<le> nz_get (th_limit th)"
  shows "window_inv now ((push_timestamp now ^^ num) th) (replicate num now @ log)"
  using used
proof (induction num)
  case 0
  then show ?case using inv by simp
next
  case (Suc n)
  let ?th = "(push_timestamp now ^^ n) th" and ?l = "nz_get (th_limit th)"
  have same: "th_limit ?th = th_limit th" "th_interval_ns ?th = th_interval_ns th"
    by (induction n) (simp_all add: push_timestamp_def)
  have ts: "th_timestamps th = take ?l log" and sorted: "sorted (rev (take ?l log))"
    using inv by (auto simp: window_inv_def rev_take sorted_wrt_drop)
  have "may_send now ?th (replicate n now @ log)"
    unfolding window_open_def same
  proof
    assume len: "?l \<le> length (replicate n now @ log)"
    let ?j = "?l - 1 - n"
    have j: "?j < length (take ?l log)" "n \<le> ?l - 1" using len Suc.prems by auto
    have "int (take ?l log ! ?j) \<le> int now - int (nz_get (th_interval_ns th))"
      by (rule beyond_takeWhile [OF sorted _ j(1)]) (use Suc.prems ts in simp)
    then show "(replicate n now @ log) ! (?l - 1) + nz_get (th_interval_ns th) \<le> now"
      using j by (simp add: nth_append)
  qed
  with push_window [OF Suc.IH] Suc.prems show ?case by simp
qed

section \<open>The throttler as a machine\<close>

datatype 'm throttler_op = SendMessage 'm | Reserve nat | AdvanceClock nat | ResetThrottler

record 'm throttle_system =
  sy_throttler :: "'m throttler"
  sy_clock :: throttler_clock
  sy_log :: "nat list"

text \<open>The slots a step takes, all at the time the clock then has.\<close>

definition next_system ::
    "'m throttle_system \<Rightarrow> 'm throttler \<times> throttler_clock \<Rightarrow> 'm throttle_system" where
  "next_system s = (\<lambda>(th, c).
     \<lparr>sy_throttler = th, sy_clock = c,
      sy_log = replicate (th_sent_count th - th_sent_count (sy_throttler s)) (clock_timestamp_ns c) @ sy_log s\<rparr>)"

fun throttle_step :: "'m throttle_system \<Rightarrow> 'm throttler_op \<Rightarrow> 'm throttle_system option" where
  "throttle_step s (SendMessage m) =
     map_option (next_system s) (throttler_send m (sy_throttler s) (sy_clock s))"
| "throttle_step s (Reserve num) =
     map_option (\<lambda>(th, c, _). next_system s (th, c)) (try_reserve num (sy_throttler s) (sy_clock s))"
| "throttle_step s (AdvanceClock to) =
     map_option (next_system s) (throttler_advance to (sy_throttler s, sy_clock s))"
| "throttle_step s ResetThrottler =
     Some (case throttler_reset (sy_throttler s) (sy_clock s) of
       (th, c) \<Rightarrow> \<lparr>sy_throttler = th, sy_clock = c, sy_log = []\<rparr>)"

definition throttle_start :: "rate_limit \<Rightarrow> string \<Rightarrow> bool \<Rightarrow> string \<Rightarrow> (nat \<Rightarrow> string) \<Rightarrow> 'm throttle_system" where
  "throttle_start r timer_name drops actor_id ids =
     \<lparr>sy_throttler = throttler_new r timer_name drops actor_id, sy_clock = clock_new ids, sy_log = []\<rparr>"

text \<open>The drain alarm is set only for a time at which the window is open again.\<close>

definition alarm_inv :: "'m throttler \<Rightarrow> throttler_clock \<Rightarrow> nat list \<Rightarrow> bool" where
  "alarm_inv th c log \<longleftrightarrow>
     (\<exists>a. armed (th_timer_name th) (nz_get (th_interval_ns th)) a c \<and>
        (\<forall>at. a = Some (at, ProcessBuffer) \<longrightarrow>
           th_is_limiting th \<and> th_buffer th \<noteq> [] \<and> may_send at th log))"

definition same_config :: "'m throttler \<Rightarrow> 'm throttler \<Rightarrow> bool" where
  "same_config th th' \<longleftrightarrow>
     th_timer_name th' = th_timer_name th \<and> th_limit th' = th_limit th \<and>
     th_interval_ns th' = th_interval_ns th \<and> th_drops th' = th_drops th"

lemma same_config_trans: "same_config th th1 \<Longrightarrow> same_config th1 th2 \<Longrightarrow> same_config th th2"
  by (simp add: same_config_def)

lemma delta_next_at_frame [simp]:
  "delta_next_at now (th\<lparr>th_is_limiting := l\<rparr>) = delta_next_at now th"
  "delta_next_at now (th\<lparr>th_buffer := b\<rparr>) = delta_next_at now th"
  "delta_next_at now (th\<lparr>th_dropped := d\<rparr>) = delta_next_at now th"
  "delta_next_at now (th\<lparr>th_recv_count := n\<rparr>) = delta_next_at now th"
  by (simp_all add: delta_next_at_def Let_def)

lemma window_inv_cong:
  "th_timestamps th' = th_timestamps th \<Longrightarrow> th_limit th' = th_limit th \<Longrightarrow>
     th_interval_ns th' = th_interval_ns th \<Longrightarrow> window_inv now th' log = window_inv now th log"
  by (simp add: window_inv_def)

lemma push_timestamp_frame [simp]:
  "th_limit (push_timestamp now th) = th_limit th" "th_interval_ns (push_timestamp now th) = th_interval_ns th"
  "th_timer_name (push_timestamp now th) = th_timer_name th" "th_buffer (push_timestamp now th) = th_buffer th"
  "th_is_limiting (push_timestamp now th) = th_is_limiting th" "th_drops (push_timestamp now th) = th_drops th"
  "th_sent_count (push_timestamp now th) = th_sent_count th" "th_output (push_timestamp now th) = th_output th"
  "th_recv_count (push_timestamp now th) = th_recv_count th"
  by (simp_all add: push_timestamp_def)

lemma send_msg_frame [simp]:
  "th_limit (send_msg m th c) = th_limit th" "th_interval_ns (send_msg m th c) = th_interval_ns th"
  "th_timer_name (send_msg m th c) = th_timer_name th" "th_buffer (send_msg m th c) = th_buffer th"
  "th_is_limiting (send_msg m th c) = th_is_limiting th" "th_drops (send_msg m th c) = th_drops th"
  "th_sent_count (send_msg m th c) = Suc (th_sent_count th)" "th_output (send_msg m th c) = th_output th @ [m]"
  "th_recv_count (send_msg m th c) = th_recv_count th"
  by (simp_all add: send_msg_def Let_def)

lemma send_window:
  assumes "window_inv (clock_timestamp_ns c) th log" and "may_send (clock_timestamp_ns c) th log"
  shows "window_inv (clock_timestamp_ns c) (send_msg m th c) (clock_timestamp_ns c # log)"
  using push_window [OF assms] by (simp add: send_msg_def Let_def window_inv_def)

text \<open>What the drain handler leaves behind after it has sent a number of messages.\<close>

definition drained :: "'m throttler \<Rightarrow> nat list \<Rightarrow> nat \<Rightarrow> 'm throttler \<Rightarrow> throttler_clock \<Rightarrow> bool" where
  "drained th log k th' c' \<longleftrightarrow>
     (let now = clock_timestamp_ns c'; log' = replicate k now @ log
      in same_config th th' \<and> window_inv now th' log' \<and>
         th_sent_count th' = th_sent_count th + k \<and> th_recv_count th' = th_recv_count th \<and>
         k \<le> length (th_buffer th) \<and>
         th_output th' = th_output th @ take k (rev (th_buffer th)) \<and>
         rev (th_buffer th') = drop k (rev (th_buffer th)) \<and>
         (if th_buffer th' = []
          then \<not> th_is_limiting th' \<and> armed (th_timer_name th) (nz_get (th_interval_ns th)) None c'
          else th_is_limiting th' \<and> \<not> may_send now th' log' \<and>
            armed (th_timer_name th) (nz_get (th_interval_ns th))
              (Some (now + delta_next_at now th', ProcessBuffer)) c'))"

lemma drained_Suc:
  assumes "drained (send_msg (last (th_buffer th)) (th\<lparr>th_buffer := butlast (th_buffer th)\<rparr>) c)
      (clock_timestamp_ns c' # log) k th' c'"
    and "th_buffer th \<noteq> []"
  shows "drained th log (Suc k) th' c'"
proof -
  obtain b m where "th_buffer th = b @ [m]" using assms(2) by (cases "th_buffer th" rule: rev_cases) auto
  with assms(1) show ?thesis
    unfolding drained_def Let_def by (auto simp: same_config_def replicate_app_Cons_same split: if_splits)
qed

lemma process_handle_rearms:
  fixes th :: "'m throttler" and c :: throttler_clock
  defines "now \<equiv> clock_timestamp_ns c" and "iv \<equiv> nz_get (th_interval_ns th)"
    and "th1 \<equiv> send_msg (last (th_buffer th)) (th\<lparr>th_buffer := butlast (th_buffer th)\<rparr>) c"
  assumes w: "window_inv now th1 (now # log)" and buf: "th_buffer th \<noteq> []"
    and more: "th_buffer th1 \<noteq> [] \<and> delta_next th1 c > 0"
    and armed: "armed (th_timer_name th) iv None c"
  shows "case process_handle th c of
      None \<Rightarrow> \<not> now + iv \<le> u_max 64
    | Some (th', c') \<Rightarrow> clock_timestamp_ns c' = now \<and> drained th log 1 th' c'"
proof -
  let ?th2 = "th1\<lparr>th_is_limiting := True\<rparr>"
  note delta = delta_zero_iff [OF w]
  have config: "th_timer_name th1 = th_timer_name th" "th_interval_ns th1 = th_interval_ns th"
    by (simp_all add: th1_def)
  have step: "process_handle th c =
      map_option (\<lambda>c1. (?th2, c1)) (set_alarm (th_timer_name th) (delta_next_at now th1) ProcessBuffer c)"
    using buf more config unfolding th1_def now_def
    by (subst process_handle.simps)
      (simp add: Let_def throttler_set_timer_def set_timer_after_def delta_next_def map_conv_bind_option comp_def)
  have "drained th log 1 ?th2 c1"
    if c1: "armed (th_timer_name th) iv (Some (now + delta_next_at now th1, ProcessBuffer)) c1"
      and same: "clock_timestamp_ns c1 = now" for c1
  proof -
    have "drained th1 (now # log) 0 ?th2 c1"
      using c1 same more w delta(1) config
      by (simp add: drained_def same_config_def window_inv_def delta_next_def now_def iv_def)
    then show ?thesis
      using drained_Suc [of th c c1 log 0] same buf by (simp add: th1_def now_def)
  qed
  with set_alarm_spec [OF armed, of "delta_next_at now th1" ProcessBuffer] delta(3) config show ?thesis
    unfolding step now_def iv_def by (auto split: option.splits)
qed

lemma process_handle_drains:
  assumes "window_inv (clock_timestamp_ns c) th log"
    and "th_buffer th \<noteq> [] \<longrightarrow> may_send (clock_timestamp_ns c) th log"
    and "armed (th_timer_name th) (nz_get (th_interval_ns th)) None c"
  shows "case process_handle th c of
      None \<Rightarrow> \<not> clock_timestamp_ns c + nz_get (th_interval_ns th) \<le> u_max 64
    | Some (th', c') \<Rightarrow> clock_timestamp_ns c' = clock_timestamp_ns c \<and> (\<exists>k. drained th log k th' c')"
  using assms
proof (induction th c arbitrary: log rule: process_handle.induct)
  case (1 th c)
  let ?now = "clock_timestamp_ns c" and ?iv = "nz_get (th_interval_ns th)"
  let ?th1 = "send_msg (last (th_buffer th)) (th\<lparr>th_buffer := butlast (th_buffer th)\<rparr>) c"
  show ?case
  proof (cases "th_buffer th = []")
    case True
    then have "drained th log 0 (th\<lparr>th_is_limiting := False\<rparr>) c"
      using 1(2,4) by (simp add: drained_def same_config_def window_inv_def)
    then show ?thesis using True by (subst process_handle.simps) auto
  next
    case False
    have w: "window_inv ?now ?th1 (?now # log)"
      by (rule send_window) (use 1(2,3) False in \<open>simp_all add: window_inv_def\<close>)
    note delta = delta_zero_iff [OF w]
    show ?thesis
    proof (cases "th_buffer ?th1 \<noteq> [] \<and> delta_next ?th1 c > 0")
      case True
      from process_handle_rearms [OF w False True 1(4)] show ?thesis
        by (auto split: option.splits)
    next
      case stop: False
      have step: "process_handle th c = process_handle ?th1 c"
        using False stop by (subst process_handle.simps) (auto simp: Let_def)
      have IH: "case process_handle ?th1 c of
          None \<Rightarrow> \<not> clock_timestamp_ns c + nz_get (th_interval_ns ?th1) \<le> u_max 64
        | Some (th', c') \<Rightarrow> clock_timestamp_ns c' = ?now \<and> (\<exists>k. drained ?th1 (?now # log) k th' c')"
        by (rule 1(1) [OF False refl stop w]) (use stop delta(1) 1(4) in \<open>auto simp: delta_next_def\<close>)
      show ?thesis
      proof (cases "process_handle ?th1 c")
        case None
        then show ?thesis using IH step by simp
      next
        case (Some r)
        obtain th' c' where r: "r = (th', c')" by (cases r)
        with IH Some obtain k where c': "clock_timestamp_ns c' = ?now" and "drained ?th1 (?now # log) k th' c'"
          by auto
        then have "drained th log (Suc k) th' c'" using drained_Suc [of th c c' log k th'] False by simp
        then show ?thesis using Some r c' step by auto
      qed
    qed
  qed
qed

text \<open>What every operation does to the window and the alarm, with the slots it takes.\<close>

definition progress ::
    "'m throttler \<Rightarrow> nat list \<Rightarrow> 'm throttler \<Rightarrow> throttler_clock \<Rightarrow> bool" where
  "progress th log th' c' \<longleftrightarrow>
     (\<exists>k. let log' = replicate k (clock_timestamp_ns c') @ log
         in window_inv (clock_timestamp_ns c') th' log' \<and> alarm_inv th' c' log' \<and>
            th_sent_count th' = th_sent_count th + k \<and> same_config th th')"

lemma progressI:
  assumes "window_inv (clock_timestamp_ns c') th' (replicate k (clock_timestamp_ns c') @ log)"
    and "alarm_inv th' c' (replicate k (clock_timestamp_ns c') @ log)"
    and "th_sent_count th' = th_sent_count th + k" and "same_config th th'"
  shows "progress th log th' c'"
  using assms unfolding progress_def Let_def by blast

lemma drained_progress:
  assumes "drained th log k th' c'"
  shows "progress th log th' c'"
proof (rule progressI [of c' th' k])
  let ?now = "clock_timestamp_ns c'" and ?log = "replicate k (clock_timestamp_ns c') @ log"
  show w: "window_inv ?now th' ?log" and "th_sent_count th' = th_sent_count th + k"
    and config: "same_config th th'"
    using assms by (simp_all add: drained_def Let_def)
  show "alarm_inv th' c' ?log"
    using assms config delta_zero_iff(2) [OF w]
    by (auto simp: drained_def Let_def alarm_inv_def same_config_def split: if_splits)
qed

lemma set_timer_alarm:
  assumes w: "window_inv (clock_timestamp_ns c) th log" and alarm: "alarm_inv th c log"
    and set: "set_timer_after (delta_next th c) cb th c = Some c'"
    and buffer: "cb = ProcessBuffer \<longrightarrow> th_buffer th \<noteq> []"
  shows "alarm_inv (th\<lparr>th_is_limiting := True\<rparr>) c' log" and "clock_timestamp_ns c' = clock_timestamp_ns c"
proof -
  let ?now = "clock_timestamp_ns c" and ?iv = "nz_get (th_interval_ns th)"
  obtain a where a: "armed (th_timer_name th) ?iv a c" using alarm by (auto simp: alarm_inv_def)
  have delta: "delta_next th c \<le> ?iv" "may_send (?now + delta_next th c) th log"
    using delta_zero_iff [OF w] by (simp_all add: delta_next_def)
  have c': "armed (th_timer_name th) ?iv (Some (?now + delta_next th c, cb)) c'" "clock_timestamp_ns c' = ?now"
    using test_alarm.set_alarm_armed [OF a delta(1)] set by (simp_all add: set_timer_after_def)
  then show "alarm_inv (th\<lparr>th_is_limiting := True\<rparr>) c' log" "clock_timestamp_ns c' = ?now"
    using delta(2) buffer by (auto simp: alarm_inv_def)
qed

lemma limit_msg_progress:
  assumes w: "window_inv (clock_timestamp_ns c) th log" and alarm: "alarm_inv th c log"
    and limit: "limit_msg m th c = Some (th', c')"
  shows "progress th log th' c' \<and> clock_timestamp_ns c' = clock_timestamp_ns c"
proof -
  define th1 cb where "th1 = (if th_drops th then th\<lparr>th_dropped := th_dropped th @ [m]\<rparr>
      else th\<lparr>th_buffer := m # th_buffer th\<rparr>)"
    and "cb = (if th_drops th then ResumeSending else ProcessBuffer)"
  have eq: "limit_msg m th c =
      (if th_is_limiting th then Some (th1, c)
       else map_option (\<lambda>c1. (th1\<lparr>th_is_limiting := True\<rparr>, c1)) (set_timer_after (delta_next th1 c) cb th1 c))"
    by (auto simp: limit_msg_def th1_def cb_def Let_def map_conv_bind_option comp_def)
  have th1: "window_inv (clock_timestamp_ns c) th1 log" "alarm_inv th1 c log" "same_config th th1"
    "th_sent_count th1 = th_sent_count th" "cb = ProcessBuffer \<longrightarrow> th_buffer th1 \<noteq> []"
    using w alarm by (auto simp: th1_def cb_def window_inv_def alarm_inv_def same_config_def)
  show ?thesis
  proof (cases "th_is_limiting th")
    case True
    then show ?thesis
      using limit th1 eq by (auto intro!: progressI [where k = 0])
  next
    case False
    then obtain c1 where set: "set_timer_after (delta_next th1 c) cb th1 c = Some c1"
      and "th' = th1\<lparr>th_is_limiting := True\<rparr>" "c' = c1"
      using limit eq by auto
    then show ?thesis
      using set_timer_alarm [OF th1(1,2) set th1(5)] th1
      by (auto intro!: progressI [where k = 0] simp: window_inv_def same_config_def)
  qed
qed

lemma send_msg_progress:
  assumes w: "window_inv (clock_timestamp_ns c) th log" and alarm: "alarm_inv th c log"
    and open_: "may_send (clock_timestamp_ns c) th log" and "th_is_limiting th \<longrightarrow> th_buffer th = []"
    and "th' = (send_msg m th c)\<lparr>th_is_limiting := l\<rparr>"
  shows "progress th log th' c"
proof (rule progressI [where k = 1])
  show "window_inv (clock_timestamp_ns c) th' (replicate 1 (clock_timestamp_ns c) @ log)"
    using send_window [OF w open_, of m] assms(5) by (simp add: window_inv_def)
  show "alarm_inv th' c (replicate 1 (clock_timestamp_ns c) @ log)"
    using alarm assms(4,5) by (auto simp: alarm_inv_def)
qed (use assms(5) in \<open>simp_all add: same_config_def\<close>)

lemma send_eq:
  fixes th :: "'m throttler" and m :: 'm and c :: throttler_clock
  defines "th0 \<equiv> th\<lparr>th_recv_count := th_recv_count th + 1\<rparr>"
  shows "throttler_send m th c =
    (if th_large_limit th \<and> length (th_timestamps th) < nz_get (th_limit th) \<and> \<not> th_is_limiting th
     then Some (send_msg m th0 c, c)
     else if th_is_limiting th \<and> th_buffer th \<noteq> [] \<or> delta_next th0 c > 0 then limit_msg m th0 c
     else Some ((send_msg m th0 c)\<lparr>th_is_limiting := False\<rparr>, c))"
proof -
  have clear: "send_msg m (th0\<lparr>th_is_limiting := False\<rparr>) c = (send_msg m th0 c)\<lparr>th_is_limiting := False\<rparr>"
    by (simp add: send_msg_def push_timestamp_def Let_def)
  have same: "(send_msg m th0 c)\<lparr>th_is_limiting := False\<rparr> = send_msg m th0 c" if "\<not> th_is_limiting th"
    using that by (simp add: send_msg_def push_timestamp_def Let_def th0_def)
  have frame: "th_is_limiting th0 = th_is_limiting th" "th_buffer th0 = th_buffer th"
    "th_large_limit th0 = th_large_limit th" "th_timestamps th0 = th_timestamps th" "th_limit th0 = th_limit th"
    by (simp_all add: th0_def)
  show ?thesis
    unfolding throttler_send_def Let_def th0_def [symmetric] frame
    by (cases "th_is_limiting th"; cases "th_buffer th = []"; cases "delta_next th0 c = 0")
      (simp_all add: frame clear same)
qed

lemma send_cases:
  assumes "throttler_send m th c = Some (th', c')" and w: "window_inv (clock_timestamp_ns c) th log"
  defines "th0 \<equiv> th\<lparr>th_recv_count := th_recv_count th + 1\<rparr>"
  obtains
    (sent) "th' = (send_msg m th0 c)\<lparr>th_is_limiting := False\<rparr>" and "c' = c"
      and "may_send (clock_timestamp_ns c) th log" and "th_is_limiting th \<longrightarrow> th_buffer th = []"
  | (limited) "limit_msg m th0 c = Some (th', c')"
      and "th_is_limiting th \<or> \<not> may_send (clock_timestamp_ns c) th log"
proof -
  have few: "may_send (clock_timestamp_ns c) th log" if "length (th_timestamps th) < nz_get (th_limit th)"
    using that w by (simp add: window_inv_def window_open_def)
  have delta: "delta_next th0 c = 0 \<longleftrightarrow> may_send (clock_timestamp_ns c) th log"
    using delta_zero_iff(1) [OF w] by (simp add: delta_next_def th0_def)
  have same: "(send_msg m th0 c)\<lparr>th_is_limiting := False\<rparr> = send_msg m th0 c" if "\<not> th_is_limiting th"
    using that by (simp add: send_msg_def push_timestamp_def Let_def th0_def)
  note eq = send_eq [of m th c, folded th0_def]
  consider (large) "th_large_limit th \<and> length (th_timestamps th) < nz_get (th_limit th) \<and> \<not> th_is_limiting th"
    | (limit) "throttler_send m th c = limit_msg m th0 c"
        "th_is_limiting th \<and> th_buffer th \<noteq> [] \<or> delta_next th0 c > 0"
    | (free) "throttler_send m th c = Some ((send_msg m th0 c)\<lparr>th_is_limiting := False\<rparr>, c)"
        "\<not> (th_is_limiting th \<and> th_buffer th \<noteq> [])" "delta_next th0 c = 0"
    unfolding eq by (meson not_gr_zero)
  then show thesis
  proof cases
    case large
    then have "throttler_send m th c = Some (send_msg m th0 c, c)" by (simp add: eq)
    then show thesis using sent assms(1) large few same by simp
  next
    case limit
    then show thesis using limited assms(1) delta by auto
  next
    case free
    then show thesis using sent assms(1) delta by auto
  qed
qed

lemma recv_frame:
  "window_inv now (th\<lparr>th_recv_count := n\<rparr>) log = window_inv now th log"
  "alarm_inv (th\<lparr>th_recv_count := n\<rparr>) c log = alarm_inv th c log"
  "progress (th\<lparr>th_recv_count := n\<rparr>) log th' c' = progress th log th' c'"
  by (simp_all add: window_inv_def alarm_inv_def progress_def same_config_def)

lemma send_progress:
  assumes "window_inv (clock_timestamp_ns c) th log" and "alarm_inv th c log"
    and "throttler_send m th c = Some (th', c')"
  shows "progress th log th' c' \<and> clock_timestamp_ns c' = clock_timestamp_ns c"
  using assms(3,1)
proof (cases rule: send_cases)
  case sent
  then show ?thesis
    using send_msg_progress [where th = "th\<lparr>th_recv_count := th_recv_count th + 1\<rparr>" and c = c and log = log
        and th' = th' and m = m and l = False] assms
    by (simp add: recv_frame)
next
  case limited
  then show ?thesis
    using limit_msg_progress [OF _ _ limited(1), of log] assms by (simp add: recv_frame)
qed

lemma pushes_frame [simp]:
  "th_limit ((push_timestamp now ^^ n) th) = th_limit th"
  "th_interval_ns ((push_timestamp now ^^ n) th) = th_interval_ns th"
  "th_timer_name ((push_timestamp now ^^ n) th) = th_timer_name th"
  "th_buffer ((push_timestamp now ^^ n) th) = th_buffer th"
  "th_is_limiting ((push_timestamp now ^^ n) th) = th_is_limiting th"
  "th_drops ((push_timestamp now ^^ n) th) = th_drops th"
  "th_sent_count ((push_timestamp now ^^ n) th) = th_sent_count th"
  by (induction n) simp_all

text \<open>The throttler as a reservation finds it, after the automatic reset.\<close>

definition reserving :: "nat \<Rightarrow> 'm throttler \<Rightarrow> throttler_clock \<Rightarrow> 'm throttler" where
  "reserving num th c =
     (let th0 = th\<lparr>th_recv_count := th_recv_count th + num\<rparr>
      in if num \<noteq> 0 \<and> th_is_limiting th0 \<and> delta_next th0 c = 0 \<and> th_buffer th0 = []
         then th0\<lparr>th_is_limiting := False\<rparr> else th0)"

lemma reserve_eq:
  fixes num :: nat and th :: "'m throttler" and c :: throttler_clock
  defines "th1 \<equiv> reserving num th c" and "now \<equiv> clock_timestamp_ns c"
  shows "try_reserve num th c =
    (if num = 0 then Some (th1, c, True)
     else if th_is_limiting th1 then Some (th1, c, False)
     else do {
       used \<leftarrow> count_in_window now th1;
       if saturating_sub_u (nz_get (th_limit th1)) used < num
       then do {
         c1 \<leftarrow> (if delta_next th1 c > 0
               then set_timer_after (delta_next th1 c) ResumeSending (th1\<lparr>th_is_limiting := True\<rparr>) c else Some c);
         Some (th1\<lparr>th_is_limiting := True\<rparr>, c1, False)}
       else Some (((push_timestamp now ^^ num) th1)\<lparr>th_sent_count :=
         th_sent_count ((push_timestamp now ^^ num) th1) + num\<rparr>, c, True)})"
proof (cases "num = 0")
  case True
  then show ?thesis by (simp add: try_reserve_def th1_def reserving_def Let_def)
next
  case False
  define th0 where "th0 = th\<lparr>th_recv_count := th_recv_count th + num\<rparr>"
  have th1: "(if th_is_limiting th0 \<and> delta_next_at (clock_timestamp_ns c) th0 = 0 \<and> th_buffer th0 = []
      then th0\<lparr>th_is_limiting := False\<rparr> else th0) = th1"
    using False unfolding th1_def reserving_def th0_def delta_next_def Let_def by simp
  have delta: "delta_next_at (clock_timestamp_ns c) th0 = delta_next th1 c"
    by (simp add: th1 [symmetric] delta_next_def)
  show ?thesis
    unfolding try_reserve_def Let_def th0_def [symmetric] unfolding th1 unfolding delta now_def
    using False by simp
qed

lemma reserve_cases:
  assumes reserve: "try_reserve num th c = Some (th', c', ok)"
  defines "th1 \<equiv> reserving num th c" and "now \<equiv> clock_timestamp_ns c"
  obtains (kept) "th' = th1" and "c' = c"
  | (limited) "th' = th1\<lparr>th_is_limiting := True\<rparr>"
      and "(if delta_next th1 c > 0 then set_timer_after (delta_next th1 c) ResumeSending th1 c else Some c) = Some c'"
  | (reserved) used where "count_in_window now th1 = Some used" and "used + num \<le> nz_get (th_limit th1)"
      and "th' = ((push_timestamp now ^^ num) th1)\<lparr>th_sent_count := th_sent_count th1 + num\<rparr>"
      and "c' = c" and "\<not> th_is_limiting th1"
proof (cases "num = 0 \<or> th_is_limiting th1")
  case True
  then have "try_reserve num th c = Some (th1, c, num = 0)"
    unfolding reserve_eq th1_def by (cases "num = 0") simp_all
  then show thesis using reserve kept by simp
next
  case False
  note eq = reserve_eq [of num th c, folded th1_def now_def] saturating_sub_u_eq
  obtain used where used: "count_in_window now th1 = Some used"
    using reserve False unfolding eq by (cases "count_in_window now th1") simp_all
  show thesis
  proof (cases "nz_get (th_limit th1) - used < num")
    case True
    with False used reserve show thesis
      by (intro limited) (simp_all add: eq bind_eq_Some_conv set_timer_after_def split: if_splits)
  next
    case fits: False
    with False have "used + num \<le> nz_get (th_limit th1)" by linarith
    with fits False used reserve show thesis by (intro reserved [OF used]) (simp_all add: eq)
  qed
qed

lemma reserve_progress:
  assumes w: "window_inv (clock_timestamp_ns c) th log" and alarm: "alarm_inv th c log"
    and fits: "int (nz_get (th_interval_ns th)) \<le> i_max 64"
    and reserve: "try_reserve num th c = Some (th', c', ok)"
  shows "progress th log th' c' \<and> clock_timestamp_ns c' = clock_timestamp_ns c"
proof -
  let ?now = "clock_timestamp_ns c"
  define th1 where "th1 = reserving num th c"
  have th1: "window_inv ?now th1 log" "alarm_inv th1 c log" "same_config th th1" "th_sent_count th1 = th_sent_count th"
    using w alarm by (auto simp: th1_def reserving_def window_inv_def alarm_inv_def same_config_def Let_def)
  from reserve show ?thesis
  proof (cases rule: reserve_cases)
    case kept
    then show ?thesis using th1 by (auto simp: th1_def intro!: progressI [where k = 0])
  next
    case limited
    then have "alarm_inv th' c' log \<and> clock_timestamp_ns c' = ?now"
      using set_timer_alarm [OF th1(1,2), of ResumeSending c'] th1(2)
      by (auto simp: th1_def [symmetric] alarm_inv_def split: if_splits)
    then show ?thesis
      using limited(1) th1
      by (auto simp: th1_def [symmetric] window_inv_def same_config_def intro!: progressI [where k = 0])
  next
    case (reserved used)
    note reserved = reserved [folded th1_def]
    have "used = length (takeWhile (\<lambda>t. int t > int ?now - int (nz_get (th_interval_ns th1))) (th_timestamps th1))"
      by (rule count_in_window_eq [OF th1(1) _ reserved(1)]) (use fits th1(3) in \<open>simp add: same_config_def\<close>)
    then have "window_inv ?now ((push_timestamp ?now ^^ num) th1) (replicate num ?now @ log)"
      using reserve_window [OF th1(1)] reserved(2) by simp
    then have "window_inv ?now th' (replicate num ?now @ log)"
      using reserved(3) by (simp add: window_inv_def)
    moreover have "alarm_inv th' c (replicate num ?now @ log)"
      using th1(2) reserved(3,5) by (auto simp: alarm_inv_def)
    ultimately show ?thesis
      using reserved(3,4) th1 by (auto simp: same_config_def intro!: progressI [where k = num])
  qed
qed

lemma advance_progress:
  assumes w: "window_inv (clock_timestamp_ns c) th log" and alarm: "alarm_inv th c log"
    and adv: "throttler_advance to (th, c) = Some (th', c')"
  shows "progress th log th' c' \<and> clock_timestamp_ns c \<le> to \<and> clock_timestamp_ns c' = to"
proof -
  obtain c1 cbs where ring: "ring_until to c = Some (c1, cbs)" and run: "run_callbacks cbs (th, c1) = Some (th', c')"
    using adv by (auto simp: throttler_advance_def bind_eq_Some_conv)
  obtain a where a: "armed (th_timer_name th) (nz_get (th_interval_ns th)) a c"
    and drain: "\<And>at. a = Some (at, ProcessBuffer) \<Longrightarrow> th_is_limiting th \<and> th_buffer th \<noteq> [] \<and> may_send at th log"
    using alarm by (auto simp: alarm_inv_def)
  have to: "clock_timestamp_ns c \<le> to" "clock_timestamp_ns c1 = to"
    using test_alarm.ring_now [OF a ring] by simp_all
  note w1 = window_inv_later [OF w to(1)]
  note rang = test_alarm.ring_armed [OF a ring]
  have opened: "may_send to th log" if "a = Some (at, ProcessBuffer)" "at \<le> to" for at
    using drain [OF that(1)] that(2) by (auto intro: window_open_mono)
  consider (quiet) "cbs = []" "armed (th_timer_name th) (nz_get (th_interval_ns th)) a c1"
    | (resume) "cbs = [ResumeSending]" "armed (th_timer_name th) (nz_get (th_interval_ns th)) None c1"
    | (drain) "cbs = [ProcessBuffer]" "armed (th_timer_name th) (nz_get (th_interval_ns th)) None c1"
        "may_send to th log"
    using rang opened by (cases a; cases "snd (the a)") (auto split: if_splits)
  then show ?thesis
  proof cases
    case quiet
    then have "progress th log th c1"
      using w1 to drain by (intro progressI [where k = 0]) (auto simp: alarm_inv_def same_config_def)
    then show ?thesis using quiet run to by simp
  next
    case resume
    then have "progress th log (throttler_resume th) c1"
      using w1 to
      by (intro progressI [where k = 0])
        (auto simp: alarm_inv_def same_config_def throttler_resume_def window_inv_def)
    then show ?thesis using resume run to by (auto simp: run_callback_def)
  next
    case drain
    have "process_handle th c1 = Some (th', c')" using run drain(1) by (simp add: run_callback_def bind_eq_Some_conv)
    with process_handle_drains [of c1 th log] w1 drain to show ?thesis
      by (auto dest: drained_progress)
  qed
qed

definition throttle_inv :: "rate_limit \<Rightarrow> 'm throttle_system \<Rightarrow> bool" where
  "throttle_inv r s \<longleftrightarrow>
     th_limit (sy_throttler s) = rl_limit r \<and> th_interval_ns (sy_throttler s) = rl_interval_ns r \<and>
     int (nz_get (rl_interval_ns r)) \<le> i_max 64 \<and>
     window_inv (clock_timestamp_ns (sy_clock s)) (sy_throttler s) (sy_log s) \<and>
     alarm_inv (sy_throttler s) (sy_clock s) (sy_log s) \<and>
     length (sy_log s) = th_sent_count (sy_throttler s)"

lemma progress_inv:
  assumes "throttle_inv r s" and "progress (sy_throttler s) (sy_log s) th' c'"
  shows "throttle_inv r (next_system s (th', c'))"
  using assms by (auto simp: throttle_inv_def progress_def next_system_def Let_def same_config_def)

lemma throttle_step_inv:
  assumes inv: "throttle_inv r s" and step: "throttle_step s op = Some s'"
  shows "throttle_inv r s'"
proof -
  let ?th = "sy_throttler s" and ?c = "sy_clock s"
  have w: "window_inv (clock_timestamp_ns ?c) ?th (sy_log s)" and alarm: "alarm_inv ?th ?c (sy_log s)"
    and fits: "int (nz_get (th_interval_ns ?th)) \<le> i_max 64"
    using inv by (simp_all add: throttle_inv_def)
  show ?thesis
  proof (cases op)
    case (SendMessage m)
    with step obtain th' c' where "throttler_send m ?th ?c = Some (th', c')" "s' = next_system s (th', c')" by auto
    then show ?thesis using progress_inv [OF inv] send_progress [OF w alarm] by blast
  next
    case (Reserve num)
    with step obtain th' c' ok where "try_reserve num ?th ?c = Some (th', c', ok)" "s' = next_system s (th', c')"
      by auto
    then show ?thesis using progress_inv [OF inv] reserve_progress [OF w alarm fits] by blast
  next
    case (AdvanceClock to)
    with step obtain th' c' where "throttler_advance to (?th, ?c) = Some (th', c')" "s' = next_system s (th', c')"
      by auto
    then show ?thesis using progress_inv [OF inv] advance_progress [OF w alarm] by blast
  next
    case ResetThrottler
    obtain a where a: "armed (th_timer_name ?th) (nz_get (th_interval_ns ?th)) a ?c"
      using alarm by (auto simp: alarm_inv_def)
    show ?thesis
      using step inv ResetThrottler test_alarm.cancel_alarm_armed [OF a]
      by (auto simp: throttler_reset_def throttle_inv_def window_inv_def alarm_inv_def spaced_def)
  qed
qed

interpretation throttle: machine throttle_step "throttle_inv r" "\<lambda>_. True" for r
  by unfold_locales (rule throttle_step_inv)

lemma throttle_start_inv:
  assumes "check_valid_string_utf8 (timer_name @ ''-'' @ actor_id) = Inr ()"
    and "int (nz_get (rl_interval_ns r)) \<le> i_max 64"
  shows "throttle_inv r (throttle_start r timer_name drops actor_id ids)"
proof -
  have "armed (timer_name @ ''-'' @ actor_id) (nz_get (rl_interval_ns r)) None (clock_new ids)"
    using assms(1) clock_new_inv [of ids] by (simp add: armed_def clock_new_def)
  then show ?thesis
    using assms(2)
    by (auto simp: throttle_inv_def throttle_start_def throttler_new_def window_inv_def alarm_inv_def spaced_def)
qed


section \<open>Buffering\<close>

fun sent_messages :: "'m throttler_op list \<Rightarrow> 'm list" where
  "sent_messages [] = []"
| "sent_messages (SendMessage m # ops) = m # sent_messages ops"
| "sent_messages (_ # ops) = sent_messages ops"

fun advance_times :: "'m throttler_op list \<Rightarrow> nat list" where
  "advance_times [] = []"
| "advance_times (AdvanceClock t # ops) = t # advance_times ops"
| "advance_times (_ # ops) = advance_times ops"

fun plain_op :: "'m throttler_op \<Rightarrow> bool" where
  "plain_op (SendMessage m) = True"
| "plain_op (AdvanceClock t) = True"
| "plain_op _ = False"

text \<open>While messages are buffered the drain alarm is set, at most an interval ahead.\<close>

definition buffer_inv :: "rate_limit \<Rightarrow> 'm list \<Rightarrow> 'm throttle_system \<Rightarrow> bool" where
  "buffer_inv r msgs s \<longleftrightarrow>
     throttle_inv r s \<and> \<not> th_drops (sy_throttler s) \<and>
     th_output (sy_throttler s) @ rev (th_buffer (sy_throttler s)) = msgs \<and>
     th_recv_count (sy_throttler s) = length msgs \<and>
     (th_is_limiting (sy_throttler s) \<longleftrightarrow> th_buffer (sy_throttler s) \<noteq> []) \<and>
     (\<exists>at \<le> clock_timestamp_ns (sy_clock s) + nz_get (rl_interval_ns r).
        armed (th_timer_name (sy_throttler s)) (nz_get (rl_interval_ns r))
          (if th_buffer (sy_throttler s) = [] then None else Some (at, ProcessBuffer)) (sy_clock s))"

lemma limit_msg_buffers:
  assumes w: "window_inv (clock_timestamp_ns c) th log" and drops: "\<not> th_drops th"
    and limiting: "th_is_limiting th \<longleftrightarrow> th_buffer th \<noteq> []"
    and a: "armed (th_timer_name th) (nz_get (th_interval_ns th))
      (if th_buffer th = [] then None else Some (at, ProcessBuffer)) c"
    and at: "at \<le> clock_timestamp_ns c + nz_get (th_interval_ns th)"
  shows "case limit_msg m th c of
      None \<Rightarrow> \<not> clock_timestamp_ns c + nz_get (th_interval_ns th) \<le> u_max 64
    | Some (th', c') \<Rightarrow> th' = th\<lparr>th_buffer := m # th_buffer th, th_is_limiting := True\<rparr> \<and>
        (\<exists>at \<le> clock_timestamp_ns c + nz_get (th_interval_ns th).
           armed (th_timer_name th) (nz_get (th_interval_ns th)) (Some (at, ProcessBuffer)) c')"
proof (cases "th_is_limiting th")
  case True
  with limiting a at drops show ?thesis by (auto simp: limit_msg_def Let_def)
next
  case False
  let ?delta = "delta_next_at (clock_timestamp_ns c) th"
  have delta: "?delta \<le> nz_get (th_interval_ns th)" using delta_zero_iff(3) [OF w] .
  have "limit_msg m th c =
      map_option (\<lambda>c1. (th\<lparr>th_buffer := m # th_buffer th, th_is_limiting := True\<rparr>, c1))
        (set_alarm (th_timer_name th) ?delta ProcessBuffer c)"
    using False drops
    by (simp add: limit_msg_def Let_def set_timer_after_def delta_next_def map_conv_bind_option comp_def)
  with set_alarm_spec [OF a delta, of ProcessBuffer] delta show ?thesis
    by (auto split: option.splits intro!: exI [of _ "clock_timestamp_ns c + ?delta"])
qed

lemma send_buffers:
  assumes inv: "buffer_inv r msgs s"
    and fits: "clock_timestamp_ns (sy_clock s) + nz_get (rl_interval_ns r) \<le> u_max 64"
  shows "\<exists>s'. throttle_step s (SendMessage m) = Some s' \<and> buffer_inv r (msgs @ [m]) s' \<and>
    clock_timestamp_ns (sy_clock s') = clock_timestamp_ns (sy_clock s)"
proof -
  let ?th = "sy_throttler s" and ?c = "sy_clock s" and ?iv = "nz_get (rl_interval_ns r)"
  have tinv: "throttle_inv r s" and drops: "\<not> th_drops ?th"
    and limiting: "th_is_limiting ?th \<longleftrightarrow> th_buffer ?th \<noteq> []"
    using inv by (simp_all add: buffer_inv_def)
  then have w: "window_inv (clock_timestamp_ns ?c) ?th (sy_log s)" and alarm: "alarm_inv ?th ?c (sy_log s)"
    and iv: "th_interval_ns ?th = rl_interval_ns r"
    by (simp_all add: throttle_inv_def)
  obtain at where at: "at \<le> clock_timestamp_ns ?c + ?iv"
    and a: "armed (th_timer_name ?th) ?iv (if th_buffer ?th = [] then None else Some (at, ProcessBuffer)) ?c"
    using inv by (auto simp: buffer_inv_def)
  let ?counted = "?th\<lparr>th_recv_count := th_recv_count ?th + 1\<rparr>"
  have limit: "case limit_msg m ?counted ?c of
      None \<Rightarrow> False
    | Some (th', c') \<Rightarrow> th' = ?counted\<lparr>th_buffer := m # th_buffer ?th, th_is_limiting := True\<rparr> \<and>
        (\<exists>at \<le> clock_timestamp_ns ?c + ?iv. armed (th_timer_name ?th) ?iv (Some (at, ProcessBuffer)) c')"
    using limit_msg_buffers [of ?c ?counted "sy_log s" at m] w drops limiting a at fits
    by (simp add: iv recv_frame split: option.splits prod.splits)
  have "throttler_send m ?th ?c \<noteq> None"
    using limit by (simp add: send_eq [of m ?th ?c] split: option.splits)
  then obtain th' c' where send: "throttler_send m ?th ?c = Some (th', c')" by auto
  then have step: "throttle_step s (SendMessage m) = Some (next_system s (th', c'))" by simp
  have now: "clock_timestamp_ns c' = clock_timestamp_ns ?c"
    using send_progress [OF w alarm send] by simp
  from send w have "\<not> th_drops th' \<and> th_output th' @ rev (th_buffer th') = msgs @ [m] \<and>
      th_recv_count th' = length (msgs @ [m]) \<and> (th_is_limiting th' \<longleftrightarrow> th_buffer th' \<noteq> []) \<and>
      (\<exists>at \<le> clock_timestamp_ns ?c + ?iv. armed (th_timer_name th') ?iv
        (if th_buffer th' = [] then None else Some (at, ProcessBuffer)) c')"
  proof (cases rule: send_cases)
    case sent
    then show ?thesis using inv limiting a by (auto simp: buffer_inv_def)
  next
    case limited
    then show ?thesis using inv limit by (auto simp: buffer_inv_def)
  qed
  then show ?thesis
    using step throttle_step_inv [OF tinv step] now by (simp add: buffer_inv_def next_system_def)
qed

text \<open>A drain after a whole interval sends as many messages as the limit allows.\<close>

lemma drained_amount:
  assumes "drained th log k th' c'" and "\<forall>t \<in> set log. t + nz_get (th_interval_ns th) \<le> clock_timestamp_ns c'"
  shows "k = min (nz_get (th_limit th)) (length (th_buffer th))"
proof -
  let ?now = "clock_timestamp_ns c'" and ?l = "nz_get (th_limit th)" and ?iv = "nz_get (th_interval_ns th)"
  have config: "th_limit th' = th_limit th" "th_interval_ns th' = th_interval_ns th"
    and le: "k \<le> length (th_buffer th)" and spaced: "spaced ?l ?iv (replicate k ?now @ log)"
    and rest: "rev (th_buffer th') = drop k (rev (th_buffer th))"
    using assms(1) by (auto simp: drained_def Let_def same_config_def window_inv_def)
  have "k \<le> ?l"
  proof (rule ccontr)
    assume "\<not> k \<le> ?l"
    then have "(replicate k ?now @ log) ! (0 + ?l) + ?iv \<le> (replicate k ?now @ log) ! 0"
      using spaced unfolding spaced_def by (auto dest: spec [of _ 0])
    with \<open>\<not> k \<le> ?l\<close> show False using nz_get_pos [of "th_interval_ns th"] by (simp add: nth_append)
  qed
  moreover have "?l \<le> k" if "k \<noteq> length (th_buffer th)"
  proof (rule ccontr)
    assume "\<not> ?l \<le> k"
    have "th_buffer th' \<noteq> []" using that le rest by (metis drop_eq_Nil length_rev le_antisym rev.simps(1))
    then have "\<not> window_open ?l ?iv ?now (replicate k ?now @ log)"
      using assms(1) config by (simp add: drained_def Let_def)
    with \<open>\<not> ?l \<le> k\<close> assms(2) show False
      by (cases "th_limit th") (auto simp: window_open_def nth_append)
  qed
  ultimately show ?thesis using le by linarith
qed

lemma drained_buffers:
  assumes "buffer_inv r msgs s" and "drained (sy_throttler s) (sy_log s) k th' c'"
    and "throttle_inv r (next_system s (th', c'))"
  shows "buffer_inv r msgs (next_system s (th', c'))"
proof -
  let ?th = "sy_throttler s"
  have "th_output th' @ rev (th_buffer th') = th_output ?th @ rev (th_buffer ?th)"
    and config: "same_config ?th th'" and w: "window_inv (clock_timestamp_ns c') th' (replicate k (clock_timestamp_ns c') @ sy_log s)"
    and "th_recv_count th' = th_recv_count ?th"
    using assms(2) by (simp_all add: drained_def Let_def)
  moreover have iv: "th_interval_ns ?th = rl_interval_ns r" using assms(1) by (simp add: buffer_inv_def throttle_inv_def)
  ultimately show ?thesis
    using assms delta_zero_iff(3) [OF w]
    by (auto simp: buffer_inv_def next_system_def drained_def Let_def same_config_def
        intro!: exI [of _ "clock_timestamp_ns c' + delta_next_at (clock_timestamp_ns c') th'"] split: if_splits)
qed

lemma advance_buffers:
  assumes inv: "buffer_inv r msgs s" and to: "clock_timestamp_ns (sy_clock s) \<le> to"
    and fits: "to + nz_get (rl_interval_ns r) \<le> u_max 64"
  shows "\<exists>s'. throttle_step s (AdvanceClock to) = Some s' \<and> buffer_inv r msgs s' \<and>
    clock_timestamp_ns (sy_clock s') = to \<and>
    (clock_timestamp_ns (sy_clock s) + nz_get (rl_interval_ns r) \<le> to \<longrightarrow>
      length (th_buffer (sy_throttler s')) = length (th_buffer (sy_throttler s)) - nz_get (rl_limit r))"
proof -
  let ?th = "sy_throttler s" and ?c = "sy_clock s" and ?iv = "nz_get (rl_interval_ns r)"
  have tinv: "throttle_inv r s" using inv by (simp add: buffer_inv_def)
  then have w: "window_inv (clock_timestamp_ns ?c) ?th (sy_log s)" and alarm: "alarm_inv ?th ?c (sy_log s)"
    and cfg: "th_interval_ns ?th = rl_interval_ns r" "th_limit ?th = rl_limit r"
    by (simp_all add: throttle_inv_def)
  obtain at where at: "at \<le> clock_timestamp_ns ?c + ?iv"
    and a: "armed (th_timer_name ?th) ?iv (if th_buffer ?th = [] then None else Some (at, ProcessBuffer)) ?c"
    using inv by (auto simp: buffer_inv_def)
  obtain c1 cbs where ring: "ring_until to ?c = Some (c1, cbs)"
    using test_alarm.ring_total [OF a to fits] by auto
  have now1: "clock_timestamp_ns c1 = to" using test_alarm.ring_now [OF a ring] by simp
  note rang = test_alarm.ring_armed [OF a ring]
  show ?thesis
  proof (cases "th_buffer ?th \<noteq> [] \<and> at \<le> to")
    case False
    then have "cbs = []" and a1: "armed (th_timer_name ?th) ?iv
        (if th_buffer ?th = [] then None else Some (at, ProcessBuffer)) c1"
      using rang by (auto split: if_splits)
    then have step: "throttle_step s (AdvanceClock to) = Some (next_system s (?th, c1))"
      using ring by (simp add: throttler_advance_def)
    have "buffer_inv r msgs (next_system s (?th, c1))"
      using inv throttle_step_inv [OF tinv step] a1 at to now1
      by (auto simp: buffer_inv_def next_system_def intro!: exI [of _ at])
    then show ?thesis using step now1 False at by (auto simp: next_system_def)
  next
    case True
    have a1: "armed (th_timer_name ?th) ?iv None c1" and cbs: "cbs = [ProcessBuffer]" using rang True by simp_all
    have "may_send at ?th (sy_log s)"
      using alarm armed_unique [OF a] True by (auto simp: alarm_inv_def cfg)
    then have "may_send to ?th (sy_log s)" using True by (auto intro: window_open_mono)
    then obtain th' c' k where handled: "process_handle ?th c1 = Some (th', c')"
      and now': "clock_timestamp_ns c' = to" and d: "drained ?th (sy_log s) k th' c'"
      using process_handle_drains [of c1 ?th "sy_log s"] window_inv_later [OF w to] a1 now1 fits cfg
      by (auto split: option.splits)
    have step: "throttle_step s (AdvanceClock to) = Some (next_system s (th', c'))"
      using ring cbs handled by (simp add: throttler_advance_def run_callback_def)
    note inv' = drained_buffers [OF inv d throttle_step_inv [OF tinv step]]
    have "length (th_buffer th') = length (th_buffer ?th) - k"
      using d by (simp add: drained_def Let_def) (metis length_drop length_rev)
    moreover have "k = min (nz_get (rl_limit r)) (length (th_buffer ?th))"
      if "clock_timestamp_ns ?c + ?iv \<le> to"
      using drained_amount [OF d] that w now' cfg by (fastforce simp: window_inv_def)
    ultimately show ?thesis using step inv' now' by (auto simp: next_system_def)
  qed
qed

lemma buffer_run:
  assumes "buffer_inv r msgs s" and "list_all plain_op ops"
    and "sorted (clock_timestamp_ns (sy_clock s) # advance_times ops)"
    and "\<forall>t \<in> set (clock_timestamp_ns (sy_clock s) # advance_times ops). t + nz_get (rl_interval_ns r) \<le> u_max 64"
  shows "\<exists>s'. run_steps throttle_step s ops = Some s' \<and> buffer_inv r (msgs @ sent_messages ops) s' \<and>
    clock_timestamp_ns (sy_clock s') = last (clock_timestamp_ns (sy_clock s) # advance_times ops)"
  using assms
proof (induction ops arbitrary: msgs s)
  case (Cons op ops)
  show ?case
  proof (cases op)
    case (SendMessage m)
    have "clock_timestamp_ns (sy_clock s) + nz_get (rl_interval_ns r) \<le> u_max 64" using Cons.prems(4) by simp
    from send_buffers [OF Cons.prems(1) this, of m] obtain s1 where
      s1: "throttle_step s op = Some s1" "buffer_inv r (msgs @ [m]) s1"
        "clock_timestamp_ns (sy_clock s1) = clock_timestamp_ns (sy_clock s)"
      unfolding SendMessage by blast
    from Cons.IH [OF s1(2)] Cons.prems(2-4) s1(1,3) SendMessage show ?thesis
      by (simp del: throttle_step.simps)
  next
    case (AdvanceClock t)
    have "clock_timestamp_ns (sy_clock s) \<le> t" "t + nz_get (rl_interval_ns r) \<le> u_max 64"
      using Cons.prems(3,4) AdvanceClock by simp_all
    from advance_buffers [OF Cons.prems(1) this] obtain s1 where
      s1: "throttle_step s op = Some s1" "buffer_inv r msgs s1" "clock_timestamp_ns (sy_clock s1) = t"
      unfolding AdvanceClock by blast
    from Cons.IH [OF s1(2)] Cons.prems(2-4) s1(1,3) AdvanceClock show ?thesis
      by (simp del: throttle_step.simps)
  qed (use Cons.prems in simp_all)
qed simp

lemma buffer_start:
  assumes "check_valid_string_utf8 (timer_name @ ''-'' @ actor_id) = Inr ()"
    and "int (nz_get (rl_interval_ns r)) \<le> i_max 64"
  shows "buffer_inv r [] (throttle_start r timer_name False actor_id ids)"
proof -
  have "armed (timer_name @ ''-'' @ actor_id) (nz_get (rl_interval_ns r)) None (clock_new ids)"
    using assms(1) clock_new_inv [of ids] by (simp add: armed_def clock_new_def)
  then show ?thesis
    using throttle_start_inv [OF assms, of False ids]
    by (auto simp: buffer_inv_def throttle_start_def throttler_new_def)
qed

lemma buffer_reachable:
  fixes ops :: "'m throttler_op list"
  assumes "check_valid_string_utf8 (timer_name @ ''-'' @ actor_id) = Inr ()"
    and "int (nz_get (rl_interval_ns r)) \<le> i_max 64" and "list_all plain_op ops"
    and "sorted (advance_times ops)" and "\<forall>t \<in> set (advance_times ops). t + nz_get (rl_interval_ns r) \<le> u_max 64"
  obtains s where "run_steps throttle_step (throttle_start r timer_name False actor_id ids) ops = Some s"
    and "buffer_inv r (sent_messages ops) s"
proof -
  let ?start = "throttle_start r timer_name False actor_id ids :: 'm throttle_system"
  have start: "clock_timestamp_ns (sy_clock ?start) = 0"
    by (simp add: throttle_start_def clock_new_def clock_timestamp_ns_def atomic_new_def)
  have "nz_get (rl_interval_ns r) \<le> u_max 64" using assms(2) by (simp add: i_max_64 u_max_64)
  then have "sorted (0 # advance_times ops)"
    and "\<forall>t \<in> set (0 # advance_times ops). t + nz_get (rl_interval_ns r) \<le> u_max 64"
    using assms(4,5) by simp_all
  then show thesis
    using buffer_run [OF buffer_start [OF assms(1,2), of ids] assms(3)] that unfolding start by auto
qed

text \<open>
  (C8) A buffering throttler loses nothing and keeps the order. For any sequence of messages and
  clock advances that do not go backwards and stay an interval below the end of the 64-bit range,
  no step panics, and what has been handed to the output, followed by what is still buffered, is
  the sequence of messages received.
\<close>

theorem throttler_delivers_in_order:
  assumes "check_valid_string_utf8 (timer_name @ ''-'' @ actor_id) = Inr ()"
    and "int (nz_get (rl_interval_ns r)) \<le> i_max 64" and "list_all plain_op ops"
    and "sorted (advance_times ops)" and "\<forall>t \<in> set (advance_times ops). t + nz_get (rl_interval_ns r) \<le> u_max 64"
  shows "\<exists>s. run_steps throttle_step (throttle_start r timer_name False actor_id ids) ops = Some s \<and>
    th_output (sy_throttler s) @ rev (th_buffer (sy_throttler s)) = sent_messages ops \<and>
    th_recv_count (sy_throttler s) = length (sent_messages ops)"
proof -
  from assms obtain s where "run_steps throttle_step (throttle_start r timer_name False actor_id ids) ops = Some s"
    and "buffer_inv r (sent_messages ops) s" by (rule buffer_reachable)
  then show ?thesis by (auto simp: buffer_inv_def)
qed

lemma drain_run:
  assumes "buffer_inv r msgs s"
    and "clock_timestamp_ns (sy_clock s) + Suc k * nz_get (rl_interval_ns r) \<le> u_max 64"
  shows "\<exists>s'. run_steps throttle_step s
      (map (\<lambda>i. AdvanceClock (clock_timestamp_ns (sy_clock s) + Suc i * nz_get (rl_interval_ns r))) [0..<k]) = Some s' \<and>
    buffer_inv r msgs s' \<and>
    clock_timestamp_ns (sy_clock s') = clock_timestamp_ns (sy_clock s) + k * nz_get (rl_interval_ns r) \<and>
    length (th_buffer (sy_throttler s')) = length (th_buffer (sy_throttler s)) - k * nz_get (rl_limit r)"
  using assms(2)
proof (induction k)
  case 0
  then show ?case using assms(1) by simp
next
  case (Suc k)
  let ?now = "clock_timestamp_ns (sy_clock s)" and ?iv = "nz_get (rl_interval_ns r)"
  from Suc obtain s1 where s1: "run_steps throttle_step s (map (\<lambda>i. AdvanceClock (?now + Suc i * ?iv)) [0..<k]) = Some s1"
    "buffer_inv r msgs s1" "clock_timestamp_ns (sy_clock s1) = ?now + k * ?iv"
    "length (th_buffer (sy_throttler s1)) = length (th_buffer (sy_throttler s)) - k * nz_get (rl_limit r)"
    by auto
  have "clock_timestamp_ns (sy_clock s1) \<le> ?now + Suc k * ?iv" "?now + Suc k * ?iv + ?iv \<le> u_max 64"
    using s1(3) Suc.prems by simp_all
  from advance_buffers [OF s1(2) this] obtain s2 where
    "throttle_step s1 (AdvanceClock (?now + Suc k * ?iv)) = Some s2" "buffer_inv r msgs s2"
    "clock_timestamp_ns (sy_clock s2) = ?now + Suc k * ?iv"
    "clock_timestamp_ns (sy_clock s1) + ?iv \<le> ?now + Suc k * ?iv \<longrightarrow>
      length (th_buffer (sy_throttler s2)) = length (th_buffer (sy_throttler s1)) - nz_get (rl_limit r)"
    by blast
  then show ?case
    using s1 by (simp add: run_steps_append del: throttle_step.simps)
qed


section \<open>Examples\<close>

definition example_rate :: rate_limit where
  "example_rate = \<lparr>rl_limit = NonZero 1, rl_interval_ns = NonZero 9\<rparr>"

lemmas throttler_eval =
  example_rate_def throttle_start_def throttler_new_def MAX_INITIAL_TIMESTAMPS_CAPACITY_def next_system_def
  throttler_send_def send_msg_def push_timestamp_def delta_next_def delta_next_at_def saturating_sub_u_eq
  limit_msg_def set_timer_after_def set_alarm_def timer_exists_def cancel_timer_def try_reserve_def
  count_in_window_def nanos_as_i64_def i_max_64 wrap_i_def throttler_advance_def ring_until_def
  advance_time_def set_time_def advance_loop.simps advance_timer_from_entry_def timer_next_def
  get_handler_def get_callback_def register_callback_def run_callback_def throttler_resume_def
  process_handle.simps throttler_set_timer_def

lemma example_valid: "check_valid_string_utf8 (''t'' @ ''-'' @ ''a'') = Inr ()"
  by (simp add: check_valid_string_utf8_def all_whitespace.simps byte_def)

lemma example_run:
  "\<exists>s. run_steps throttle_step (throttle_start example_rate ''t'' False ''a'' (\<lambda>_. ''id''))
     [SendMessage a, SendMessage b, SendMessage x, AdvanceClock 10] = Some s \<and> sy_log s = [10, 0, 0]"
  by (simp add: throttler_eval clock_eval all_whitespace.simps byte_def)

lemma example_stranded:
  "\<exists>s. run_steps throttle_step (throttle_start example_rate ''t'' False ''a'' (\<lambda>_. ''id''))
     [SendMessage a, SendMessage b, Reserve 1, SendMessage x, AdvanceClock 10, SendMessage y] = Some s \<and>
     th_output (sy_throttler s) = [a, b, y] \<and> th_buffer (sy_throttler s) = [x] \<and> ck_timers (sy_clock s) = []"
  by (simp add: throttler_eval clock_eval all_whitespace.simps byte_def)


lemma plain_example: "list_all plain_op [SendMessage a, SendMessage b, SendMessage x, AdvanceClock 10]"
  "sorted (advance_times [SendMessage a, SendMessage b, SendMessage x, AdvanceClock 10])"
  "\<forall>t \<in> set (advance_times [SendMessage a, SendMessage b, SendMessage x, AdvanceClock 10]).
     t + nz_get (rl_interval_ns example_rate) \<le> u_max 64"
  "int (nz_get (rl_interval_ns example_rate)) \<le> i_max 64"
  by (simp_all add: example_rate_def u_max_64 i_max_64)

theorem throttler_delivers_in_order_witness:
  "\<exists>s. run_steps throttle_step (throttle_start example_rate ''t'' False ''a'' (\<lambda>_. ''id''))
     [SendMessage (1::nat), SendMessage 2, SendMessage 3, AdvanceClock 10] = Some s \<and>
     th_output (sy_throttler s) @ rev (th_buffer (sy_throttler s)) = [1, 2, 3]"
proof -
  note throttler_delivers_in_order [OF example_valid plain_example(4,1,2,3), of "\<lambda>_. ''id''" "1::nat" 2 3]
  then obtain s where "run_steps throttle_step (throttle_start example_rate ''t'' False ''a'' (\<lambda>_. ''id''))
      [SendMessage (1::nat), SendMessage 2, SendMessage 3, AdvanceClock 10] = Some s"
    and "th_output (sy_throttler s) @ rev (th_buffer (sy_throttler s)) = [1, 2, 3]"
    by (auto simp del: run_steps.simps)
  then show ?thesis by (intro exI conjI)
qed


text \<open>Without an alarm, advancing the clock changes nothing but the time.\<close>

lemma advance_without_alarm:
  assumes "throttle_inv r s" and "ck_timers (sy_clock s) = []"
    and "throttle_step s (AdvanceClock to) = Some s'"
  shows "sy_throttler s' = sy_throttler s \<and> ck_timers (sy_clock s') = []"
proof -
  let ?th = "sy_throttler s"
  have none: "armed (th_timer_name ?th) (nz_get (th_interval_ns ?th)) None (sy_clock s)"
    using assms(1,2) by (auto simp: throttle_inv_def alarm_inv_def armed_def split: option.splits)
  obtain c1 cbs where ring: "ring_until to (sy_clock s) = Some (c1, cbs)"
    and s': "map_option (next_system s) (run_callbacks cbs (?th, c1)) = Some s'"
    using assms(3) by (auto simp: throttler_advance_def bind_eq_Some_conv)
  with test_alarm.ring_armed [OF none ring] show ?thesis
    by (auto simp: next_system_def armed_def)
qed

lemma advances_without_alarm:
  assumes "throttle_inv r s" and "ck_timers (sy_clock s) = []"
    and "run_steps throttle_step s (map AdvanceClock ts) = Some s'"
  shows "sy_throttler s' = sy_throttler s"
  using assms
proof (induction ts arbitrary: s)
  case (Cons t ts)
  then obtain s1 where s1: "throttle_step s (AdvanceClock t) = Some s1"
    "run_steps throttle_step s1 (map AdvanceClock ts) = Some s'"
    by (auto split: option.splits simp del: throttle_step.simps)
  with Cons.IH [OF throttle_step_inv [OF Cons.prems(1) s1(1)]] advance_without_alarm [OF Cons.prems(1,2) s1(1)]
  show ?case by simp
qed simp


end
