(* ===== verification/Matching_Core.thy ===== *)
theory Matching_Core
  imports Ordered_Map Order_Types
begin

text \<open>
  The matching core of the simulated venues and the order emulator
  (\<^verbatim>\<open>crates/execution/src/matching_core/mod.rs\<close>): resting orders in four price-keyed books
  (limits and stops of each side), a pending bucket per side for orders without a price, and an
  index from client order id to location. The books are ordered maps ranked by the raw price,
  whose buckets keep arrival order. \<^verbatim>\<open>delete_order\<close> returns \<^term>\<open>None\<close> where the
  code panics on a corrupt index.
\<close>

datatype book_kind = LimitBook | StopBook

datatype match_action = FillLimit string | TriggerStop string

record resting_order =
  ro_client_order_id :: string
  ro_order_side :: order_side_specified
  ro_order_type :: order_type
  ro_trigger_price :: "price option"
  ro_limit_price :: "price option"
  ro_is_activated :: bool

definition resting_is_stop :: "resting_order \<Rightarrow> bool" where
  "resting_is_stop ord \<longleftrightarrow> ro_trigger_price ord \<noteq> None"

definition resting_is_limit :: "resting_order \<Rightarrow> bool" where
  "resting_is_limit ord \<longleftrightarrow> ro_limit_price ord \<noteq> None \<and> ro_trigger_price ord = None"

definition resting_from_passive :: "'f passive_order_any \<Rightarrow> resting_order option" where
  "resting_from_passive ord =
     (case ord of
        PassLimit limit \<Rightarrow> do {
          side \<leftarrow> as_specified (oc_side (any_core (any_from_limit limit)));
          px \<leftarrow> limit_px limit;
          Some \<lparr>ro_client_order_id = oc_client_order_id (any_core (any_from_limit limit)),
                ro_order_side = side, ro_order_type = oc_order_type (any_core (any_from_limit limit)),
                ro_trigger_price = None, ro_limit_price = Some px, ro_is_activated = True\<rparr>
        }
      | PassStop stop \<Rightarrow>
          let limit_price =
            (case stop of
               StLimitIfTouched x \<Rightarrow> Some (lit_price x)
             | StStopLimit x \<Rightarrow> Some (sl_price x)
             | StTrailingStopLimit x \<Rightarrow> Some (tsl_price x)
             | _ \<Rightarrow> None);
            activated =
            (case stop of
               StTrailingStopMarket x \<Rightarrow> tsm_is_activated x
             | StTrailingStopLimit x \<Rightarrow> tsl_is_activated x
             | _ \<Rightarrow> True)
          in do {
            side \<leftarrow> as_specified (oc_side (any_core (any_from_stop stop)));
            Some \<lparr>ro_client_order_id = oc_client_order_id (any_core (any_from_stop stop)),
                  ro_order_side = side, ro_order_type = oc_order_type (any_core (any_from_stop stop)),
                  ro_trigger_price = Some (stop_px stop), ro_limit_price = limit_price,
                  ro_is_activated = activated\<rparr>
          })"

type_synonym price_book = "(price \<times> resting_order list) list"

record matching_core =
  mc_instrument_id :: string
  mc_price_increment :: price
  mc_bid :: "price option"
  mc_ask :: "price option"
  mc_last :: "price option"
  mc_fill_limit_inside_spread :: bool
  mc_bid_limits :: price_book
  mc_ask_limits :: price_book
  mc_bid_stops :: price_book
  mc_ask_stops :: price_book
  mc_pending_bid :: "resting_order list"
  mc_pending_ask :: "resting_order list"
  mc_order_index :: "string \<rightharpoonup> order_side_specified \<times> (book_kind \<times> price) option"

definition matching_core_new :: "string \<Rightarrow> price \<Rightarrow> matching_core" where
  "matching_core_new instrument_id price_increment =
     \<lparr>mc_instrument_id = instrument_id, mc_price_increment = price_increment, mc_bid = None,
      mc_ask = None, mc_last = None, mc_fill_limit_inside_spread = False, mc_bid_limits = [],
      mc_ask_limits = [], mc_bid_stops = [], mc_ask_stops = [], mc_pending_bid = [],
      mc_pending_ask = [], mc_order_index = Map.empty\<rparr>"

fun book_for :: "order_side_specified \<Rightarrow> book_kind \<Rightarrow> matching_core \<Rightarrow> price_book" where
  "book_for BuySide LimitBook c = mc_bid_limits c"
| "book_for BuySide StopBook c = mc_bid_stops c"
| "book_for SellSide LimitBook c = mc_ask_limits c"
| "book_for SellSide StopBook c = mc_ask_stops c"

fun set_book :: "order_side_specified \<Rightarrow> book_kind \<Rightarrow> price_book \<Rightarrow> matching_core \<Rightarrow> matching_core" where
  "set_book BuySide LimitBook b c = c\<lparr>mc_bid_limits := b\<rparr>"
| "set_book BuySide StopBook b c = c\<lparr>mc_bid_stops := b\<rparr>"
| "set_book SellSide LimitBook b c = c\<lparr>mc_ask_limits := b\<rparr>"
| "set_book SellSide StopBook b c = c\<lparr>mc_ask_stops := b\<rparr>"

fun pending_for :: "order_side_specified \<Rightarrow> matching_core \<Rightarrow> resting_order list" where
  "pending_for BuySide c = mc_pending_bid c"
| "pending_for SellSide c = mc_pending_ask c"

fun set_pending :: "order_side_specified \<Rightarrow> resting_order list \<Rightarrow> matching_core \<Rightarrow> matching_core" where
  "set_pending BuySide os c = c\<lparr>mc_pending_bid := os\<rparr>"
| "set_pending SellSide os c = c\<lparr>mc_pending_ask := os\<rparr>"

definition get_order :: "string \<Rightarrow> matching_core \<Rightarrow> resting_order option" where
  "get_order client_order_id c =
     (case mc_order_index c client_order_id of
        None \<Rightarrow> None
      | Some (side, Some (kind, price)) \<Rightarrow> do {
          bucket \<leftarrow> bt_get p_raw price (book_for side kind c);
          find (\<lambda>ord. ro_client_order_id ord = client_order_id) bucket
        }
      | Some (side, None) \<Rightarrow>
          find (\<lambda>ord. ro_client_order_id ord = client_order_id) (pending_for side c))"

definition iter_bid_orders :: "matching_core \<Rightarrow> resting_order list" where
  "iter_bid_orders c =
     concat (map snd (rev (mc_bid_limits c))) @ concat (map snd (mc_bid_stops c)) @ mc_pending_bid c"

definition iter_ask_orders :: "matching_core \<Rightarrow> resting_order list" where
  "iter_ask_orders c =
     concat (map snd (mc_ask_limits c)) @ concat (map snd (rev (mc_ask_stops c))) @ mc_pending_ask c"

definition iter_orders :: "matching_core \<Rightarrow> resting_order list" where
  "iter_orders c = iter_bid_orders c @ iter_ask_orders c"

definition order_exists :: "string \<Rightarrow> matching_core \<Rightarrow> bool" where
  "order_exists client_order_id c \<longleftrightarrow> mc_order_index c client_order_id \<noteq> None"

definition set_last_raw :: "price \<Rightarrow> matching_core \<Rightarrow> matching_core" where
  "set_last_raw last_price c = c\<lparr>mc_last := Some last_price\<rparr>"

definition set_bid_raw :: "price \<Rightarrow> matching_core \<Rightarrow> matching_core" where
  "set_bid_raw bid c = c\<lparr>mc_bid := Some bid\<rparr>"

definition set_ask_raw :: "price \<Rightarrow> matching_core \<Rightarrow> matching_core" where
  "set_ask_raw ask c = c\<lparr>mc_ask := Some ask\<rparr>"

definition update_price_increment :: "price \<Rightarrow> matching_core \<Rightarrow> matching_core" where
  "update_price_increment price_increment c = c\<lparr>mc_price_increment := price_increment\<rparr>"

definition matching_core_reset :: "matching_core \<Rightarrow> matching_core" where
  "matching_core_reset c =
     c\<lparr>mc_bid := None, mc_ask := None, mc_last := None, mc_bid_limits := [], mc_ask_limits := [],
       mc_bid_stops := [], mc_ask_stops := [], mc_pending_bid := [], mc_pending_ask := [],
       mc_order_index := Map.empty\<rparr>"

definition locate :: "resting_order \<Rightarrow> (book_kind \<times> price) option" where
  "locate ord =
     (case ro_trigger_price ord of
        Some p \<Rightarrow> Some (StopBook, p)
      | None \<Rightarrow> map_option (Pair LimitBook) (ro_limit_price ord))"

definition add_order :: "resting_order \<Rightarrow> matching_core \<Rightarrow> matching_core" where
  "add_order ord c =
     (let side = ro_order_side ord;
          location = locate ord;
          c' = (case location of
                  Some (kind, price) \<Rightarrow>
                    let book = book_for side kind c;
                        bucket = (case bt_get p_raw price book of None \<Rightarrow> [] | Some b \<Rightarrow> b)
                    in set_book side kind (bt_insert p_raw price (bucket @ [ord]) book) c
                | None \<Rightarrow> set_pending side (pending_for side c @ [ord]) c)
      in c'\<lparr>mc_order_index := (mc_order_index c')(ro_client_order_id ord \<mapsto> (side, location))\<rparr>)"

text \<open>The position scan of a bucket and its removal there; no position is the panic.\<close>

fun remove_slot :: "string \<Rightarrow> resting_order list \<Rightarrow> resting_order list option" where
  "remove_slot client_order_id [] = None"
| "remove_slot client_order_id (ord # os) =
     (if ro_client_order_id ord = client_order_id then Some os
      else map_option (Cons ord) (remove_slot client_order_id os))"

definition delete_order :: "string \<Rightarrow> matching_core \<Rightarrow> ((order_error + unit) \<times> matching_core) option" where
  "delete_order client_order_id c =
     (case mc_order_index c client_order_id of
        None \<Rightarrow> Some (Inl (NotFound client_order_id), c)
      | Some (side, location) \<Rightarrow>
          let c = c\<lparr>mc_order_index := (mc_order_index c)(client_order_id := None)\<rparr> in
          (case location of
             Some (kind, price) \<Rightarrow> do {
               bucket \<leftarrow> bt_get p_raw price (book_for side kind c);
               bucket \<leftarrow> remove_slot client_order_id bucket;
               Some (Inr (), set_book side kind
                 (if bucket = [] then bt_remove p_raw price (book_for side kind c)
                  else bt_insert p_raw price bucket (book_for side kind c)) c)
             }
           | None \<Rightarrow> do {
               os \<leftarrow> remove_slot client_order_id (pending_for side c);
               Some (Inr (), set_pending side os c)
             }))"

definition is_limit_matched :: "order_side_specified \<Rightarrow> price \<Rightarrow> matching_core \<Rightarrow> bool" where
  "is_limit_matched side price c =
     (case side of
        BuySide \<Rightarrow> (case mc_ask c of None \<Rightarrow> False | Some a \<Rightarrow> price_le a price)
      | SellSide \<Rightarrow> (case mc_bid c of None \<Rightarrow> False | Some b \<Rightarrow> price_le price b))"

definition is_stop_matched :: "order_side_specified \<Rightarrow> price \<Rightarrow> matching_core \<Rightarrow> bool" where
  "is_stop_matched side price c =
     (case side of
        BuySide \<Rightarrow> (case mc_ask c of None \<Rightarrow> False | Some a \<Rightarrow> price_le price a)
      | SellSide \<Rightarrow> (case mc_bid c of None \<Rightarrow> False | Some b \<Rightarrow> price_le b price))"

definition is_touch_triggered :: "order_side_specified \<Rightarrow> price \<Rightarrow> matching_core \<Rightarrow> bool" where
  "is_touch_triggered side trigger_price c =
     (case side of
        BuySide \<Rightarrow> (case mc_ask c of None \<Rightarrow> False | Some a \<Rightarrow> price_le a trigger_price)
      | SellSide \<Rightarrow> (case mc_bid c of None \<Rightarrow> False | Some b \<Rightarrow> price_le trigger_price b))"

definition set_fill_limit_inside_spread :: "bool \<Rightarrow> matching_core \<Rightarrow> matching_core" where
  "set_fill_limit_inside_spread b c = c\<lparr>mc_fill_limit_inside_spread := b\<rparr>"

definition is_limit_fillable :: "order_side_specified \<Rightarrow> price \<Rightarrow> matching_core \<Rightarrow> bool" where
  "is_limit_fillable side price c =
     (if is_limit_matched side price c then True
      else if \<not> mc_fill_limit_inside_spread c then False
      else case (mc_bid c, mc_ask c) of
             (Some bid, Some ask) \<Rightarrow>
               (case side of BuySide \<Rightarrow> price_le bid price | SellSide \<Rightarrow> price_le price ask)
           | _ \<Rightarrow> False)"

definition match_limit_order :: "matching_core \<Rightarrow> resting_order \<Rightarrow> match_action option" where
  "match_limit_order c ord =
     (case ro_limit_price ord of
        Some p \<Rightarrow>
          if is_limit_fillable (ro_order_side ord) p c then Some (FillLimit (ro_client_order_id ord))
          else None
      | None \<Rightarrow> None)"

definition match_stop_order :: "matching_core \<Rightarrow> resting_order \<Rightarrow> match_action option" where
  "match_stop_order c ord =
     (if \<not> ro_is_activated ord then None
      else case ro_trigger_price ord of
             Some p \<Rightarrow>
               if is_stop_matched (ro_order_side ord) p c then Some (TriggerStop (ro_client_order_id ord))
               else None
           | None \<Rightarrow> None)"

definition match_order :: "matching_core \<Rightarrow> resting_order \<Rightarrow> match_action option" where
  "match_order c ord =
     (if resting_is_stop ord then match_stop_order c ord
      else if resting_is_limit ord then match_limit_order c ord
      else None)"

definition iterate_bids :: "matching_core \<Rightarrow> match_action list" where
  "iterate_bids c =
     List.map_filter (match_order c)
       (concat (map snd (rev (mc_bid_limits c))) @ concat (map snd (mc_bid_stops c)))"

definition iterate_asks :: "matching_core \<Rightarrow> match_action list" where
  "iterate_asks c =
     List.map_filter (match_order c)
       (concat (map snd (mc_ask_limits c)) @ concat (map snd (rev (mc_ask_stops c))))"

definition iterate :: "matching_core \<Rightarrow> match_action list" where
  "iterate c = iterate_bids c @ iterate_asks c"

section \<open>Frame facts of the books\<close>

lemma book_for_set_book [simp]:
  "book_for s k (set_book s' k' b c) = (if s = s' \<and> k = k' then b else book_for s k c)"
  by (cases s; cases k; cases s'; cases k') auto

lemma set_book_frame [simp]:
  "pending_for s (set_book s' k b c) = pending_for s c"
  "mc_order_index (set_book s' k b c) = mc_order_index c"
  by (cases s; cases s'; cases k; simp)+

lemma pending_for_set_pending [simp]:
  "pending_for s (set_pending s' os c) = (if s = s' then os else pending_for s c)"
  by (cases s; cases s') auto

lemma set_pending_frame [simp]:
  "book_for s k (set_pending s' os c) = book_for s k c"
  "mc_order_index (set_pending s' os c) = mc_order_index c"
  by (cases s; cases s'; cases k; simp)+

lemma index_update_frame [simp]:
  "book_for s k (c\<lparr>mc_order_index := i\<rparr>) = book_for s k c"
  "pending_for s (c\<lparr>mc_order_index := i\<rparr>) = pending_for s c"
  by (cases s; cases k; simp)+

end
