(* ===== verification/Matching_Properties.thy ===== *)
theory Matching_Properties
  imports Matching_Core Order_Properties "HOL-Library.Multiset"
begin

text \<open>
  Correctness of the matching core. Its specification is the list of live orders in arrival
  order; the core refines it, and what the core iterates is that list, stably sorted by price on
  each side. The contract of \<^verbatim>\<open>add_order\<close>, that an id is added only while it is not live, is the
  guard of the specification's step.
\<close>

section \<open>Simulation by a relation\<close>

locale forward_simulation =
  fixes step :: "'s \<Rightarrow> 'e \<Rightarrow> 's option"
    and spec_step :: "'a \<Rightarrow> 'e \<Rightarrow> 'a option"
    and related :: "'s \<Rightarrow> 'a \<Rightarrow> bool"
  assumes step_related:
    "related s a \<Longrightarrow> spec_step a e = Some a' \<Longrightarrow> \<exists>s'. step s e = Some s' \<and> related s' a'"
begin

lemma run_related:
  "related s a \<Longrightarrow> run_steps spec_step a es = Some a' \<Longrightarrow>
     \<exists>s'. run_steps step s es = Some s' \<and> related s' a'"
proof (induction es arbitrary: s a)
  case Nil
  then show ?case by simp
next
  case (Cons e es)
  from Cons.prems(2) obtain b where b: "spec_step a e = Some b" "run_steps spec_step b es = Some a'"
    by (auto split: option.splits)
  from step_related [OF Cons.prems(1) b(1)] obtain s1 where "step s e = Some s1" "related s1 b"
    by blast
  with Cons.IH [OF _ b(2)] show ?case by simp
qed

end

section \<open>Operations and their specification\<close>

datatype matching_op =
    AddResting resting_order
  | DeleteResting string
  | SetBid price
  | SetAsk price
  | SetLast price
  | SetIncrement price
  | SetInsideSpread bool
  | ResetCore

fun matching_step :: "matching_core \<Rightarrow> matching_op \<Rightarrow> matching_core option" where
  "matching_step c (AddResting ord) = Some (add_order ord c)"
| "matching_step c (DeleteResting i) = map_option snd (delete_order i c)"
| "matching_step c (SetBid p) = Some (set_bid_raw p c)"
| "matching_step c (SetAsk p) = Some (set_ask_raw p c)"
| "matching_step c (SetLast p) = Some (set_last_raw p c)"
| "matching_step c (SetIncrement p) = Some (update_price_increment p c)"
| "matching_step c (SetInsideSpread b) = Some (set_fill_limit_inside_spread b c)"
| "matching_step c ResetCore = Some (matching_core_reset c)"

fun live_step :: "resting_order list \<Rightarrow> matching_op \<Rightarrow> resting_order list option" where
  "live_step live (AddResting ord) =
     (if ro_client_order_id ord \<in> ro_client_order_id ` set live then None else Some (live @ [ord]))"
| "live_step live (DeleteResting i) = Some (filter (\<lambda>ord. ro_client_order_id ord \<noteq> i) live)"
| "live_step live ResetCore = Some []"
| "live_step live _ = Some live"

definition order_key :: "resting_order \<Rightarrow> int" where
  "order_key ord = (case locate ord of Some (_, p) \<Rightarrow> p_raw p | None \<Rightarrow> 0)"

definition resting_in ::
    "order_side_specified \<Rightarrow> book_kind option \<Rightarrow> resting_order list \<Rightarrow> resting_order list" where
  "resting_in side kind live =
     filter (\<lambda>ord. ro_order_side ord = side \<and> map_option fst (locate ord) = kind) live"

definition bid_priority :: "resting_order list \<Rightarrow> resting_order list" where
  "bid_priority live =
     sort_key (\<lambda>ord. - order_key ord) (resting_in BuySide (Some LimitBook) live) @
     sort_key order_key (resting_in BuySide (Some StopBook) live)"

definition ask_priority :: "resting_order list \<Rightarrow> resting_order list" where
  "ask_priority live =
     sort_key order_key (resting_in SellSide (Some LimitBook) live) @
     sort_key (\<lambda>ord. - order_key ord) (resting_in SellSide (Some StopBook) live)"

definition book_holds :: "price_book \<Rightarrow> resting_order list \<Rightarrow> bool" where
  "book_holds book os \<longleftrightarrow> bt_sorted p_raw book \<and>
     (\<forall>k. bt_get p_raw k book =
        (let bucket = filter (\<lambda>ord. order_key ord = p_raw k) os
         in if bucket = [] then None else Some bucket))"

definition core_holds :: "matching_core \<Rightarrow> resting_order list \<Rightarrow> bool" where
  "core_holds c live \<longleftrightarrow>
     distinct (map ro_client_order_id live) \<and>
     (\<forall>s k. book_holds (book_for s k c) (resting_in s (Some k) live)) \<and>
     (\<forall>s. pending_for s c = resting_in s None live) \<and>
     (\<forall>i. mc_order_index c i =
        map_option (\<lambda>ord. (ro_order_side ord, locate ord))
          (find (\<lambda>ord. ro_client_order_id ord = i) live))"

definition example_resting :: "string \<Rightarrow> order_side_specified \<Rightarrow> int \<Rightarrow> resting_order" where
  "example_resting i side raw =
     \<lparr>ro_client_order_id = i, ro_order_side = side, ro_order_type = Limit, ro_trigger_price = None,
      ro_limit_price = Some \<lparr>p_raw = raw, p_precision = 0\<rparr>, ro_is_activated = True\<rparr>"

definition example_touch :: "unit market_if_touched_order" where
  "example_touch =
     \<lparr>mit_core = sample_core\<lparr>oc_order_type := MarketIfTouched\<rparr>,
      mit_trigger_price = \<lparr>p_raw = 5, p_precision = 0\<rparr>, mit_trigger_type = BidAsk,
      mit_expire_time = None, mit_trigger_instrument_id = None, mit_is_triggered = False,
      mit_ts_triggered = None\<rparr>"

definition example_quoted :: matching_core where
  "example_quoted =
     (matching_core_new ''I'' \<lparr>p_raw = 1, p_precision = 0\<rparr>)
       \<lparr>mc_bid := Some \<lparr>p_raw = 7, p_precision = 0\<rparr>, mc_ask := Some \<lparr>p_raw = 8, p_precision = 0\<rparr>\<rparr>"

section \<open>A book iterates in price-time priority\<close>

lemma count_by_key: "count (mset zs) x = count (mset (filter (\<lambda>y. f y = f x) zs)) x"
  by (induction zs) auto

lemma mset_by_key:
  assumes "\<And>v. filter (\<lambda>x. f x = v) ys = filter (\<lambda>x. f x = v) xs"
  shows "mset ys = mset xs"
proof (rule multiset_eqI)
  fix x
  show "count (mset ys) x = count (mset xs) x"
    using count_by_key [of ys x f] count_by_key [of xs x f] by (simp only: assms)
qed

lemma stable_sort_unique:
  assumes "\<And>v. filter (\<lambda>x. f x = v) ys = filter (\<lambda>x. f x = v) xs" and "sorted (map f ys)"
  shows "ys = sort_key f xs"
proof (rule sym, rule properties_for_sort_key)
  show "mset ys = mset xs" using assms(1) by (rule mset_by_key)
  show "\<And>k. k \<in> set ys \<Longrightarrow> filter (\<lambda>x. f k = f x) ys = filter (\<lambda>x. f k = f x) xs"
    using assms(1) by (simp add: eq_commute)
qed (rule assms(2))

lemma book_holds_bucket:
  assumes "book_holds book os" and "(k, b) \<in> set book"
  shows "b = filter (\<lambda>ord. order_key ord = p_raw k) os"
  using assms bt_in_get [of p_raw book k b] by (auto simp: book_holds_def Let_def split: if_splits)

lemma filter_buckets:
  assumes "bt_sorted p_raw book" and "\<forall>(k, b) \<in> set book. \<forall>x \<in> set b. key x = p_raw k"
  shows "filter (\<lambda>x. key x = p_raw k) (concat (map snd book)) =
     (case bt_get p_raw k book of None \<Rightarrow> [] | Some b \<Rightarrow> b)"
  using assms
proof (induction book)
  case (Cons e book)
  obtain k' b where e: "e = (k', b)" by (cases e)
  have rest: "\<forall>(k', b) \<in> set book. \<forall>x \<in> set b. key x = p_raw k'" and b: "\<forall>x \<in> set b. key x = p_raw k'"
    and s: "bt_sorted p_raw book" and less: "\<forall>(k'', _) \<in> set book. p_raw k' < p_raw k''"
    using Cons.prems e by auto
  note ih = Cons.IH [OF s rest]
  show ?case
  proof (cases "p_raw k = p_raw k'")
    case True
    then have "bt_get p_raw k book = None" using bt_get_none [OF less] by simp
    with True b ih e show ?thesis by (simp add: filter_id_conv)
  next
    case False
    with b ih e show ?thesis by (simp add: filter_empty_conv)
  qed
qed simp

lemma sorted_constant_key: "\<forall>x \<in> set b. f x = (v :: int) \<Longrightarrow> sorted (map f b)"
  by (induction b) auto

lemma book_keys_sorted:
  assumes "bt_sorted p_raw book" and "\<forall>(k, b) \<in> set book. \<forall>x \<in> set b. key x = p_raw k"
  shows "sorted (map key (concat (map snd book))) \<and>
    sorted (map (\<lambda>x. - key x) (concat (map snd (rev book))))"
  using assms
proof (induction book)
  case (Cons e book)
  obtain k b where e: "e = (k, b)" by (cases e)
  have rest: "\<forall>(k, b) \<in> set book. \<forall>x \<in> set b. key x = p_raw k" and b: "\<forall>x \<in> set b. key x = p_raw k"
    and s: "bt_sorted p_raw book" and less: "\<forall>(k', _) \<in> set book. p_raw k < p_raw k'"
    using Cons.prems e by auto
  have after: "\<forall>x \<in> set (concat (map snd book)). p_raw k \<le> key x"
    using rest less by fastforce
  have "sorted (map (\<lambda>x. - key x) b)" using b by (intro sorted_constant_key [of _ _ "- p_raw k"]) simp
  then show ?case using Cons.IH [OF s rest] sorted_constant_key [OF b] b after e
    by (simp add: sorted_append)
qed simp

lemma filter_rev_buckets:
  assumes "bt_sorted p_raw book" and "\<forall>(k, b) \<in> set book. \<forall>x \<in> set b. key x = p_raw k"
  shows "filter (\<lambda>x. key x = v) (concat (map snd (rev book))) =
     filter (\<lambda>x. key x = v) (concat (map snd book))"
  using assms
proof (induction book)
  case (Cons e book)
  obtain k b where e: "e = (k, b)" by (cases e)
  have rest: "\<forall>(k, b) \<in> set book. \<forall>x \<in> set b. key x = p_raw k" and b: "\<forall>x \<in> set b. key x = p_raw k"
    and s: "bt_sorted p_raw book" and less: "\<forall>(k', _) \<in> set book. p_raw k < p_raw k'"
    using Cons.prems e by auto
  show ?case
  proof (cases "v = p_raw k")
    case True
    then have "filter (\<lambda>x. key x = v) (concat (map snd book)) = []"
      using less rest by (fastforce simp: filter_empty_conv)
    with Cons.IH [OF s rest] e show ?thesis by simp
  next
    case False
    with b have "filter (\<lambda>x. key x = v) b = []" by (simp add: filter_empty_conv)
    with Cons.IH [OF s rest] e show ?thesis by simp
  qed
qed simp

lemma book_priority:
  assumes "book_holds book os"
  shows "concat (map snd book) = sort_key order_key os"
    and "concat (map snd (rev book)) = sort_key (\<lambda>ord. - order_key ord) os"
proof -
  have s: "bt_sorted p_raw book" using assms by (simp add: book_holds_def)
  have keys: "\<forall>(k, b) \<in> set book. \<forall>x \<in> set b. order_key x = p_raw k"
  proof (clarify)
    fix k b x assume "(k, b) \<in> set book" and "x \<in> set b"
    then show "order_key x = p_raw k" using book_holds_bucket [OF assms, of k b] by simp
  qed
  have same: "filter (\<lambda>x. order_key x = v) (concat (map snd book)) = filter (\<lambda>x. order_key x = v) os" for v
    using filter_buckets [OF s keys, of "\<lparr>p_raw = v, p_precision = 0\<rparr>"] assms
    by (auto simp: book_holds_def Let_def split: if_splits)
  show "concat (map snd book) = sort_key order_key os"
    using same book_keys_sorted [OF s keys, THEN conjunct1] by (rule stable_sort_unique)
  have neg: "(- order_key x = v) = (order_key x = - v)" for x v by auto
  have "filter (\<lambda>x. - order_key x = v) (concat (map snd (rev book))) = filter (\<lambda>x. - order_key x = v) os"
    for v
    unfolding neg using filter_rev_buckets [OF s keys, of "- v"] same [of "- v"] by simp
  then show "concat (map snd (rev book)) = sort_key (\<lambda>ord. - order_key ord) os"
    using book_keys_sorted [OF s keys, THEN conjunct2] by (rule stable_sort_unique)
qed

section \<open>Every operation keeps the correspondence\<close>

lemma resting_in_append [simp]: "resting_in s k (xs @ ys) = resting_in s k xs @ resting_in s k ys"
  by (simp add: resting_in_def)

lemma resting_in_single:
  "resting_in s k [ord] = (if ro_order_side ord = s \<and> map_option fst (locate ord) = k then [ord] else [])"
  by (simp add: resting_in_def)

lemma resting_in_filter: "resting_in s k (filter Q live) = filter Q (resting_in s k live)"
  by (simp add: resting_in_def conj_ac)

lemma resting_in_Nil [simp]: "resting_in s k [] = []"
  by (simp add: resting_in_def)

lemma find_id_append:
  "find P (xs @ ys) = (case find P xs of None \<Rightarrow> find P ys | Some x \<Rightarrow> Some x)"
  by (induction xs) auto

lemma find_id_filter:
  "find (\<lambda>x. f x = i) (filter (\<lambda>x. f x \<noteq> j) xs) = (if i = j then None else find (\<lambda>x. f x = i) xs)"
  by (induction xs) auto

lemma find_id_unique:
  "distinct (map f xs) \<Longrightarrow> x \<in> set xs \<Longrightarrow> find (\<lambda>y. f y = f x) xs = Some x"
  by (induction xs) force+

lemma book_holds_Nil [simp]: "book_holds [] []"
  by (simp add: book_holds_def)

lemma book_holds_add:
  assumes "book_holds book os" and "order_key ord = p_raw p"
  shows "book_holds (bt_insert p_raw p ((case bt_get p_raw p book of None \<Rightarrow> [] | Some b \<Rightarrow> b) @ [ord]) book)
    (os @ [ord])"
  using assms by (auto simp: book_holds_def bt_get_insert Let_def)

lemma book_holds_remove:
  assumes "book_holds book os" and "\<forall>x \<in> set os. Q x \<or> order_key x = p_raw p"
    and "bucket = filter Q (filter (\<lambda>x. order_key x = p_raw p) os)"
  shows "book_holds (if bucket = [] then bt_remove p_raw p book else bt_insert p_raw p bucket book) (filter Q os)"
proof -
  have other: "filter (\<lambda>x. order_key x = p_raw k) (filter Q os) = filter (\<lambda>x. order_key x = p_raw k) os"
    if "p_raw k \<noteq> p_raw p" for k
    unfolding filter_filter by (rule filter_cong) (use assms(2) that in auto)
  have same: "filter (\<lambda>x. order_key x = p_raw p) (filter Q os) = bucket"
    by (simp add: assms(3) conj_commute)
  show ?thesis
    unfolding book_holds_def
  proof (intro conjI allI)
    show "bt_sorted p_raw (if bucket = [] then bt_remove p_raw p book else bt_insert p_raw p bucket book)"
      using assms(1) by (simp add: book_holds_def)
    fix k
    show "bt_get p_raw k (if bucket = [] then bt_remove p_raw p book else bt_insert p_raw p bucket book) =
      (let b = filter (\<lambda>x. order_key x = p_raw k) (filter Q os) in if b = [] then None else Some b)"
      using assms(1) same other [of k]
      by (cases "p_raw k = p_raw p") (simp_all add: book_holds_def bt_get_insert bt_get_remove Let_def del: filter_filter)
  qed
qed

lemma remove_slot_filter:
  "distinct (map ro_client_order_id os) \<Longrightarrow> i \<in> ro_client_order_id ` set os \<Longrightarrow>
     remove_slot i os = Some (filter (\<lambda>ord. ro_client_order_id ord \<noteq> i) os)"
proof (induction os)
  case (Cons ord os)
  then have "filter (\<lambda>x. ro_client_order_id x \<noteq> ro_client_order_id ord) os = os"
    by (intro filter_True) (force simp: image_iff)
  with Cons show ?case by (cases "ro_client_order_id ord = i") auto
qed simp

lemma order_key_locate: "locate ord = Some (kind, p) \<Longrightarrow> order_key ord = p_raw p"
  by (simp add: order_key_def)

lemma core_holds_add:
  assumes c: "core_holds c live" and new: "ro_client_order_id ord \<notin> ro_client_order_id ` set live"
  shows "core_holds (add_order ord c) (live @ [ord])"
proof -
  have fresh: "find (\<lambda>x. ro_client_order_id x = ro_client_order_id ord) live = None"
    using new by (force simp: find_None_iff image_iff)
  have index: "mc_order_index (add_order ord c) i =
      map_option (\<lambda>ord. (ro_order_side ord, locate ord))
        (find (\<lambda>x. ro_client_order_id x = i) (live @ [ord]))" for i
    using c fresh
    by (auto simp: core_holds_def add_order_def find_id_append Let_def split: option.split)
  show ?thesis
  proof (cases "locate ord")
    case None
    with c new index show ?thesis
      by (auto simp: core_holds_def add_order_def resting_in_single Let_def)
  next
    case (Some l)
    obtain kind p where l: "l = (kind, p)" by (cases l)
    with c new index Some show ?thesis
      by (auto simp: core_holds_def add_order_def resting_in_single Let_def order_key_locate book_holds_add)
  qed
qed

lemma core_holds_bucket:
  assumes "core_holds c live" and "ord \<in> set live" and "locate ord = Some (kind, p)"
  shows "bt_get p_raw p (book_for (ro_order_side ord) kind c) =
    Some (filter (\<lambda>x. order_key x = p_raw p) (resting_in (ro_order_side ord) (Some kind) live))"
proof -
  have "ord \<in> set (filter (\<lambda>x. order_key x = p_raw p) (resting_in (ro_order_side ord) (Some kind) live))"
    using assms by (simp add: resting_in_def order_key_locate)
  then have "filter (\<lambda>x. order_key x = p_raw p) (resting_in (ro_order_side ord) (Some kind) live) \<noteq> []"
    by (metis empty_iff empty_set)
  then show ?thesis using assms(1) by (simp add: core_holds_def book_holds_def Let_def)
qed

lemma core_holds_id:
  assumes "core_holds c live" and "ord \<in> set live" and "x \<in> set live"
    and "ro_client_order_id x = ro_client_order_id ord"
  shows "x = ord"
  using assms by (auto simp: core_holds_def distinct_map inj_on_def)

lemma core_holds_delete_book:
  assumes c: "core_holds c live" and ord: "ord \<in> set live" and loc: "locate ord = Some (kind, p)"
  shows "\<exists>c'. delete_order (ro_client_order_id ord) c = Some (Inr (), c') \<and>
    core_holds c' (filter (\<lambda>x. ro_client_order_id x \<noteq> ro_client_order_id ord) live)"
proof -
  let ?i = "ro_client_order_id ord" and ?s = "ro_order_side ord"
  let ?Q = "\<lambda>x. ro_client_order_id x \<noteq> ?i"
  let ?at = "filter (\<lambda>x. order_key x = p_raw p) (resting_in ?s (Some kind) live)"
  have distinct: "distinct (map ro_client_order_id live)" using c by (simp add: core_holds_def)
  have index: "mc_order_index c ?i = Some (?s, Some (kind, p))"
    using c find_id_unique [OF distinct ord] loc by (simp add: core_holds_def)
  have "remove_slot ?i ?at = Some (filter ?Q ?at)"
  proof (rule remove_slot_filter)
    show "distinct (map ro_client_order_id ?at)"
      using distinct by (simp add: resting_in_def distinct_map_filter)
    show "?i \<in> ro_client_order_id ` set ?at"
      using ord loc by (simp add: resting_in_def order_key_locate)
  qed
  then have delete: "delete_order ?i c = Some (Inr (),
      set_book ?s kind (if filter ?Q ?at = [] then bt_remove p_raw p (book_for ?s kind c)
        else bt_insert p_raw p (filter ?Q ?at) (book_for ?s kind c))
      (c\<lparr>mc_order_index := (mc_order_index c)(?i := None)\<rparr>))" (is "_ = Some (_, ?c)")
    using core_holds_bucket [OF c ord loc] index by (simp add: delete_order_def Let_def del: filter_filter)
  have only: "x = ord" if "x \<in> set live" and "\<not> ?Q x" for x
    using core_holds_id [OF c ord that(1)] that(2) by simp
  have "book_holds (book_for s k ?c) (resting_in s (Some k) (filter ?Q live))" for s k
  proof (cases "s = ?s \<and> k = kind")
    case True
    have "\<forall>x \<in> set (resting_in s (Some k) live). ?Q x \<or> order_key x = p_raw p"
      using order_key_locate [OF loc] by (fastforce simp: resting_in_def dest: only)
    moreover have "book_holds (book_for s k c) (resting_in s (Some k) live)"
      using c by (simp add: core_holds_def)
    ultimately show ?thesis
      using book_holds_remove [of "book_for s k c" "resting_in s (Some k) live" ?Q p, OF _ _ refl] True
      unfolding resting_in_filter by (auto simp del: filter_filter split: if_splits)
  next
    case False
    have "filter ?Q (resting_in s (Some k) live) = resting_in s (Some k) live"
      using loc False by (intro filter_True) (fastforce simp: resting_in_def dest: only)
    with False c show ?thesis
      unfolding resting_in_filter by (auto simp: core_holds_def)
  qed
  moreover have "filter ?Q (resting_in s None live) = resting_in s None live" for s
    using loc by (intro filter_True) (fastforce simp: resting_in_def dest: only)
  ultimately have "core_holds ?c (filter ?Q live)"
    using c by (auto simp: core_holds_def resting_in_filter find_id_filter distinct_map_filter)
  with delete show ?thesis by blast
qed

lemma core_holds_delete_pending:
  assumes c: "core_holds c live" and ord: "ord \<in> set live" and loc: "locate ord = None"
  shows "\<exists>c'. delete_order (ro_client_order_id ord) c = Some (Inr (), c') \<and>
    core_holds c' (filter (\<lambda>x. ro_client_order_id x \<noteq> ro_client_order_id ord) live)"
proof -
  let ?i = "ro_client_order_id ord" and ?s = "ro_order_side ord"
  let ?Q = "\<lambda>x. ro_client_order_id x \<noteq> ?i"
  have distinct: "distinct (map ro_client_order_id live)" using c by (simp add: core_holds_def)
  have index: "mc_order_index c ?i = Some (?s, None)"
    using c find_id_unique [OF distinct ord] loc by (simp add: core_holds_def)
  have pending: "pending_for ?s c = resting_in ?s None live" using c by (simp add: core_holds_def)
  have "remove_slot ?i (resting_in ?s None live) = Some (filter ?Q (resting_in ?s None live))"
    by (rule remove_slot_filter) (use distinct ord loc in \<open>auto simp: resting_in_def distinct_map_filter\<close>)
  then have delete: "delete_order ?i c = Some (Inr (),
      set_pending ?s (filter ?Q (resting_in ?s None live))
        (c\<lparr>mc_order_index := (mc_order_index c)(?i := None)\<rparr>))" (is "_ = Some (_, ?c)")
    using pending index by (simp add: delete_order_def Let_def)
  have only: "x = ord" if "x \<in> set live" and "\<not> ?Q x" for x
    using core_holds_id [OF c ord that(1)] that(2) by simp
  have "filter ?Q (resting_in s k live) = resting_in s k live" if "\<not> (s = ?s \<and> k = None)" for s k
    using loc that by (intro filter_True) (fastforce simp: resting_in_def dest: only)
  then have "core_holds ?c (filter ?Q live)"
    using c by (auto simp: core_holds_def resting_in_filter find_id_filter distinct_map_filter)
  with delete show ?thesis by blast
qed

lemma core_holds_delete:
  assumes c: "core_holds c live"
  shows "\<exists>c'. map_option snd (delete_order i c) = Some c' \<and>
    core_holds c' (filter (\<lambda>x. ro_client_order_id x \<noteq> i) live)"
proof (cases "find (\<lambda>x. ro_client_order_id x = i) live")
  case None
  then have "filter (\<lambda>x. ro_client_order_id x \<noteq> i) live = live"
    by (intro filter_True) (auto simp: find_None_iff)
  with None c show ?thesis by (auto simp: core_holds_def delete_order_def)
next
  case (Some ord)
  then have "ord \<in> set live" and i: "i = ro_client_order_id ord"
    by (auto simp: find_Some_iff)
  with c show ?thesis
    using core_holds_delete_book [of c live ord] core_holds_delete_pending [of c live ord]
    by (cases "locate ord") auto
qed

lemma all_sides: "(\<forall>s. P s) \<longleftrightarrow> P BuySide \<and> P SellSide"
  by (metis order_side_specified.exhaust)

lemma all_kinds: "(\<forall>k. P k) \<longleftrightarrow> P LimitBook \<and> P StopBook"
  by (metis book_kind.exhaust)

lemma core_holds_frame [simp]:
  "core_holds (set_bid_raw p c) live = core_holds c live"
  "core_holds (set_ask_raw p c) live = core_holds c live"
  "core_holds (set_last_raw p c) live = core_holds c live"
  "core_holds (update_price_increment p c) live = core_holds c live"
  "core_holds (set_fill_limit_inside_spread b c) live = core_holds c live"
  by (simp_all add: core_holds_def all_sides all_kinds set_bid_raw_def set_ask_raw_def set_last_raw_def
      update_price_increment_def set_fill_limit_inside_spread_def)

lemma core_holds_empty [simp]:
  "core_holds (matching_core_reset c) []"
  "core_holds (matching_core_new i p) []"
  by (simp_all add: core_holds_def all_sides all_kinds matching_core_reset_def matching_core_new_def)

interpretation matching: forward_simulation matching_step live_step core_holds
proof unfold_locales
  fix c live e live'
  assume "core_holds c live" and "live_step live e = Some live'"
  then show "\<exists>c'. matching_step c e = Some c' \<and> core_holds c' live'"
    by (cases e) (auto simp: core_holds_add core_holds_delete simp del: map_option_eq_Some split: if_splits)
qed

section \<open>What the core returns\<close>

lemma core_holds_get_order:
  assumes c: "core_holds c live"
  shows "get_order i c = find (\<lambda>ord. ro_client_order_id ord = i) live"
proof (cases "find (\<lambda>ord. ro_client_order_id ord = i) live")
  case None
  with c show ?thesis by (simp add: get_order_def core_holds_def)
next
  case (Some ord)
  then have ord: "ord \<in> set live" and i: "i = ro_client_order_id ord"
    by (auto simp: find_Some_iff)
  have distinct: "distinct (map ro_client_order_id live)" using c by (simp add: core_holds_def)
  have index: "mc_order_index c i = Some (ro_order_side ord, locate ord)"
    using c Some by (simp add: core_holds_def)
  have "find (\<lambda>x. ro_client_order_id x = i) (filter P live) = Some ord" if "P ord" for P
    unfolding i by (rule find_id_unique) (use distinct ord that in \<open>auto simp: distinct_map_filter\<close>)
  then show ?thesis
    using Some index core_holds_bucket [OF c ord] c
    by (cases "locate ord") (auto simp: get_order_def resting_in_def core_holds_def order_key_locate)
qed

lemma core_holds_iterate:
  assumes "core_holds c live"
  shows "iterate c = List.map_filter (match_order c) (bid_priority live @ ask_priority live)"
    and "iter_bid_orders c = bid_priority live @ resting_in BuySide None live"
    and "iter_ask_orders c = ask_priority live @ resting_in SellSide None live"
proof -
  have book: "book_holds (book_for s k c) (resting_in s (Some k) live)"
    and pending: "pending_for s c = resting_in s None live" for s k
    using assms by (simp_all add: core_holds_def)
  note books = book [of BuySide LimitBook] book [of BuySide StopBook]
    book [of SellSide LimitBook] book [of SellSide StopBook]
  note priority = books [unfolded book_for.simps, THEN book_priority(1)]
    books [unfolded book_for.simps, THEN book_priority(2)]
    pending [of BuySide] pending [of SellSide]
  show "iterate c = List.map_filter (match_order c) (bid_priority live @ ask_priority live)"
    using priority
    by (simp add: iterate_def iterate_bids_def iterate_asks_def bid_priority_def ask_priority_def map_filter_def)
  show "iter_bid_orders c = bid_priority live @ resting_in BuySide None live"
    and "iter_ask_orders c = ask_priority live @ resting_in SellSide None live"
    using priority by (simp_all add: iter_bid_orders_def iter_ask_orders_def bid_priority_def ask_priority_def)
qed

text \<open>
  (C6) Matching follows price-time priority. For any sequence of operations that adds an id only
  while it is not live, no operation panics (a deletion always finds its slot), every live order
  is found by its id and no other, and matching returns the actions of exactly the live orders
  that match, bids before asks: on each side limits before stops, best price or nearest trigger
  first, and first come first served at one price.
\<close>

theorem matching_price_time_priority:
  assumes "run_steps live_step [] ops = Some live"
  shows "\<exists>c. run_steps matching_step (matching_core_new instrument_id increment) ops = Some c \<and>
    iterate c = List.map_filter (match_order c) (bid_priority live @ ask_priority live) \<and>
    iter_orders c = bid_priority live @ resting_in BuySide None live @
      ask_priority live @ resting_in SellSide None live \<and>
    (\<forall>i. get_order i c = find (\<lambda>ord. ro_client_order_id ord = i) live)"
proof -
  obtain c where "run_steps matching_step (matching_core_new instrument_id increment) ops = Some c"
    and c: "core_holds c live"
    using matching.run_related [OF core_holds_empty(2) assms] by blast
  then show ?thesis
    by (simp add: core_holds_iterate [OF c] core_holds_get_order [OF c] iter_orders_def)
qed

lemmas example_resting_simps =
  example_resting_def bid_priority_def ask_priority_def resting_in_def order_key_def locate_def

theorem matching_price_time_priority_witness:
  "\<exists>c. run_steps matching_step (matching_core_new ''I'' \<lparr>p_raw = 1, p_precision = 0\<rparr>)
      [AddResting (example_resting ''a'' BuySide 5), AddResting (example_resting ''b'' BuySide 7),
       AddResting (example_resting ''c'' BuySide 7), AddResting (example_resting ''d'' SellSide 9),
       AddResting (example_resting ''e'' BuySide 8), DeleteResting ''e''] = Some c \<and>
    map ro_client_order_id (iter_orders c) = [''b'', ''c'', ''a'', ''d'']"
proof -
  let ?ops = "[AddResting (example_resting ''a'' BuySide 5), AddResting (example_resting ''b'' BuySide 7),
    AddResting (example_resting ''c'' BuySide 7), AddResting (example_resting ''d'' SellSide 9),
    AddResting (example_resting ''e'' BuySide 8), DeleteResting ''e'']"
  let ?live = "[example_resting ''a'' BuySide 5, example_resting ''b'' BuySide 7,
    example_resting ''c'' BuySide 7, example_resting ''d'' SellSide 9]"
  have "run_steps live_step [] ?ops = Some ?live" by (simp add: example_resting_def)
  from matching_price_time_priority [OF this, of "''I''" "\<lparr>p_raw = 1, p_precision = 0\<rparr>"]
  obtain c where "run_steps matching_step (matching_core_new ''I'' \<lparr>p_raw = 1, p_precision = 0\<rparr>) ?ops = Some c"
    and "iter_orders c = bid_priority ?live @ resting_in BuySide None ?live @
      ask_priority ?live @ resting_in SellSide None ?live"
    by (elim exE conjE)
  moreover from this(2) have "map ro_client_order_id (iter_orders c) = [''b'', ''c'', ''a'', ''d'']"
    by (simp add: example_resting_simps)
  ultimately show ?thesis by (intro exI conjI)
qed

section \<open>Touch orders\<close>

lemma bt_insert_value: "\<exists>k'. (k', v) \<in> set (bt_insert r k v m)"
  by (induction r k v m rule: bt_insert.induct) auto

lemma add_order_quotes [simp]:
  "mc_bid (add_order ord c) = mc_bid c" "mc_ask (add_order ord c) = mc_ask c"
proof -
  have "mc_bid (set_book s k b c) = mc_bid c" "mc_ask (set_book s k b c) = mc_ask c"
    "mc_bid (set_pending s os c) = mc_bid c" "mc_ask (set_pending s os c) = mc_ask c" for s k b os
    by (cases s; cases k; simp)+
  then show "mc_bid (add_order ord c) = mc_bid c" "mc_ask (add_order ord c) = mc_ask c"
    by (auto simp: add_order_def Let_def split: option.split)
qed

lemma add_order_stop_iterated:
  assumes "ro_trigger_price ord = Some p"
  shows "ord \<in> set (concat (map snd (book_for (ro_order_side ord) StopBook (add_order ord c))))"
proof -
  let ?book = "book_for (ro_order_side ord) StopBook c"
  let ?bucket = "(case bt_get p_raw p ?book of None \<Rightarrow> [] | Some b \<Rightarrow> b) @ [ord]"
  have "book_for (ro_order_side ord) StopBook (add_order ord c) = bt_insert p_raw p ?bucket ?book"
    using assms by (simp add: add_order_def locate_def Let_def)
  with bt_insert_value [of ?bucket p_raw p ?book] show ?thesis by force
qed

lemma in_map_filter: "x \<in> set xs \<Longrightarrow> f x = Some a \<Longrightarrow> a \<in> set (List.map_filter f xs)"
  by (force simp: map_filter_def image_iff)

lemma iterate_stop:
  assumes "ord \<in> set (concat (map snd (book_for (ro_order_side ord) StopBook c)))"
    and "match_order c ord = Some a"
  shows "a \<in> set (iterate c)"
proof (cases "ro_order_side ord")
  case BuySide
  then have "a \<in> set (iterate_bids c)"
    unfolding iterate_bids_def using assms by (intro in_map_filter [of ord]) auto
  then show ?thesis by (simp add: iterate_def)
next
  case SellSide
  then have "a \<in> set (iterate_asks c)"
    unfolding iterate_asks_def using assms by (intro in_map_filter [of ord]) auto
  then show ?thesis by (simp add: iterate_def)
qed

text \<open>
  (C29) A resting touch order triggers when it is not touched. Let a market-if-touched or
  limit-if-touched order rest in the core while the side it trades against is quoted and its
  trigger price is not touched, a buy below the ask or a sell above the bid, as the check at
  acceptance has it. The next matching triggers it all the same, because resting orders of every
  stop type are compared as stops.
\<close>

theorem untouched_order_triggers:
  assumes "stop = StMarketIfTouched m \<or> stop = StLimitIfTouched l"
    and "resting_from_passive (PassStop stop) = Some ord"
    and "(case ro_order_side ord of BuySide \<Rightarrow> mc_ask c | SellSide \<Rightarrow> mc_bid c) \<noteq> None"
    and "\<not> is_touch_triggered (ro_order_side ord) (stop_px stop) c"
  shows "TriggerStop (ro_client_order_id ord) \<in> set (iterate (add_order ord c))"
proof -
  have trig: "ro_trigger_price ord = Some (stop_px stop)" and act: "ro_is_activated ord"
    using assms(1,2) by (auto simp: resting_from_passive_def bind_eq_Some_conv)
  have "is_stop_matched (ro_order_side ord) (stop_px stop) (add_order ord c)"
    using assms(3,4)
    by (auto simp: is_stop_matched_def is_touch_triggered_def price_le_def split: order_side_specified.splits)
  then have "match_order (add_order ord c) ord = Some (TriggerStop (ro_client_order_id ord))"
    using trig act by (simp add: match_order_def resting_is_stop_def match_stop_order_def)
  with add_order_stop_iterated [OF trig] show ?thesis by (rule iterate_stop)
qed

lemma example_touch_resting:
  "resting_from_passive (PassStop (StMarketIfTouched example_touch)) =
     Some \<lparr>ro_client_order_id = ''O'', ro_order_side = BuySide, ro_order_type = MarketIfTouched,
       ro_trigger_price = Some \<lparr>p_raw = 5, p_precision = 0\<rparr>, ro_limit_price = None,
       ro_is_activated = True\<rparr>"
proof -
  have "oc_side sample_core = Buy"
    by (simp add: sample_core_def order_core_new_def quantity_zero_def check_fixed_precision_def
        FIXED_PRECISION_def limit_order_init_def order_initialized_new_def sample_init_def)
  then show ?thesis
    by (simp add: resting_from_passive_def example_touch_def as_specified_def)
qed

theorem untouched_order_triggers_witness:
  "\<exists>ord. resting_from_passive (PassStop (StMarketIfTouched example_touch)) = Some ord \<and>
     \<not> is_touch_triggered BuySide (mit_trigger_price example_touch) example_quoted \<and>
     TriggerStop ''O'' \<in> set (iterate (add_order ord example_quoted))"
proof -
  have "\<not> is_touch_triggered BuySide (mit_trigger_price example_touch) example_quoted"
    by (simp add: is_touch_triggered_def price_le_def example_quoted_def example_touch_def)
  moreover have "mc_ask example_quoted \<noteq> None" by (simp add: example_quoted_def)
  ultimately show ?thesis
    using untouched_order_triggers [OF disjI1 [OF refl] example_touch_resting, of example_quoted]
      example_touch_resting
    by simp
qed

end
