(* ===== verification/Spec2Isabelle.thy ===== *)
theory Spec2Isabelle
  imports Money_Types Ordered_Map Order_Properties Book_Fills Topic_Router Component_FSM Fifo_Caches
    Throttler_Properties Matching_Properties
begin

text \<open>
  \<^bold>\<open>Verification of the trading core of NautilusTrader\<close> (the Rust crates under
  \<^verbatim>\<open>src/crates\<close>).

  \<^bold>\<open>The program.\<close> NautilusTrader runs trading strategies in a backtest or live. Its Rust core has
  value types with fixed-point arithmetic; orders, which are state machines driven by events; order
  books, driven by deltas of market data; a matching core, in which the simulated venues and the
  order emulator keep resting orders; and the common services the rest is built from: the message
  bus, the component lifecycle, clocks and timers, throttlers and bounded caches. Orders, books and
  the matching core hold prices and quantities; the matching core is filled from orders; the
  throttler sets its alarms on the clock.

  \<^bold>\<open>Conventions.\<close> The model is of the default build: 64-bit raw values with nine decimal digits
  (\<^verbatim>\<open>FIXED_PRECISION\<close>) in release mode, where debug assertions are absent. Unsigned integers are
  \<^typ>\<open>nat\<close> and signed ones \<^typ>\<open>int\<close>, with the checked, saturating and wrapping operations of the
  code written out at their width in Prelude. A panic is \<^term>\<open>None\<close>, a returned \<^verbatim>\<open>Result\<close> is a
  sum with the error on the left, and a method that changes its receiver and returns a result
  returns both. A \<^verbatim>\<open>BTreeMap\<close> is a sorted association list (Ordered_Map), hash maps are maps, or
  association lists where their order of insertion shows. Logging is left out. Plain accessors are
  the fields of the records. Arithmetic on \<^verbatim>\<open>f64\<close>, the hash of a price (a third-party crate), the
  wall clock, fresh event identifiers and the handlers of the user are parameters.

  \<^bold>\<open>Theories and the code they model.\<close>

  \<^item> Prelude: machine integers, non-zero integers, and the interfaces of state machines as locales:
    invariants, totality, simulation of an abstract machine, terminal states, and quantities that
    only grow. Ordered_Map: the ordered map and its laws.
  \<^item> Fixed_Point, Value_Types, Money_Types: \<^verbatim>\<open>model/src/types/\<close> (\<^verbatim>\<open>fixed.rs\<close>, \<^verbatim>\<open>quantity.rs\<close>,
    \<^verbatim>\<open>price.rs\<close>, \<^verbatim>\<open>currency.rs\<close>, \<^verbatim>\<open>money.rs\<close>, \<^verbatim>\<open>balance.rs\<close>). The lemmas show when
    construction succeeds, that checked arithmetic is exact and undone by its inverse, that rounding
    is to the nearest value with ties to even, that decimals survive a round trip, and that account
    balances add up.
  \<^item> Order_Events (\<^verbatim>\<open>model/src/enums.rs\<close>, \<^verbatim>\<open>events/order/\<close>), Order_Core
    (\<^verbatim>\<open>orders/mod.rs\<close>: \<^verbatim>\<open>OrderStatus::transition\<close>, \<^verbatim>\<open>OrderCore::apply\<close> and its handlers),
    Order_Types (the nine order types and \<^verbatim>\<open>orders/any.rs\<close>). Order_Invariants, Order_Machine and
    Order_Properties hold their invariant and the properties of an order of any type fed any
    events, refused ones included: exact accounting of fills, rollback of pending requests, final
    statuses, replay of the log, absence of panics.
  \<^item> Book_Ladder (\<^verbatim>\<open>model/src/orderbook/level.rs\<close>, \<^verbatim>\<open>ladder.rs\<close>), Order_Book
    (\<^verbatim>\<open>book.rs\<close>, \<^verbatim>\<open>aggregation.rs\<close>, \<^verbatim>\<open>analysis.rs\<close> and the deltas, depths and ticks of
    \<^verbatim>\<open>model/src/data\<close>). Book_Invariants, Book_Properties, Book_Queries and Book_Fills show
    that an aggregated book refines two maps from prices to sizes, that a top-of-book book holds one
    order a side, that a book of individual orders is a map of orders by id, and that best prices,
    uncrossing, simulated fills and snapshots are right. The book relies on its ladders through a
    locale, interpreted for the aggregated and the top-of-book ladders.
  \<^item> Matching_Core (\<^verbatim>\<open>execution/src/matching_core/mod.rs\<close>), Matching_Properties: the four
    price-keyed books with their index refine the list of live orders, iterated in price-time
    priority by a stable sort; and how resting touch orders are triggered.
  \<^item> Topic_Matching (\<^verbatim>\<open>common/src/msgbus/mstr.rs\<close>, \<^verbatim>\<open>matching.rs\<close>), Topic_Router
    (\<^verbatim>\<open>typed_router.rs\<close>, \<^verbatim>\<open>typed_handler.rs\<close>): the greedy wildcard matcher decides the meaning
    of a pattern, and the router with its cache of matches delivers as a registry without one.
  \<^item> Component_FSM (\<^verbatim>\<open>common/src/component.rs\<close>, \<^verbatim>\<open>enums.rs\<close>): the lifecycle, its final states,
    that a component can be shut down, and the exclusive calls of the registry, however they nest.
  \<^item> Fifo_Caches (\<^verbatim>\<open>common/src/cache/fifo.rs\<close>, \<^verbatim>\<open>bounded.rs\<close>): the caches are bounded queues.
  \<^item> Atomic_Time (\<^verbatim>\<open>core/src/nanos.rs\<close>, \<^verbatim>\<open>time.rs\<close>): the atomic clock, whose
    compare-and-exchange loop is a step relation of any number of threads.
  \<^item> Test_Clock (\<^verbatim>\<open>common/src/timer.rs\<close>, \<^verbatim>\<open>clock.rs\<close>), Clock_Properties: a test clock fires
    exactly the due events, in order.
  \<^item> Throttler (\<^verbatim>\<open>common/src/throttler.rs\<close>), Throttler_Properties: the throttler composed with the
    test clock, which it uses through an interface, a single alarm. The rate limit holds, buffered
    messages keep their order and are drained, and a refused reservation can strand a message.

  \<^bold>\<open>Termination and bounds.\<close> No definition runs on fuel: every loop of the code that is modelled is a
  total function with its termination proof (the wildcard matcher, the advance loop of the test
  clock, which may put an entry back on its queue, the drain of the throttler, the nested calls of
  the registry) or recursion on a list. The retry loop of the atomic clock need not end for one
  thread; progress is stated for the threads together. Hypotheses on ranges are those of the 64-bit
  types: a timer that would leave them panics in the code, and the theorems say so.

  \<^bold>\<open>Hypotheses on parameters.\<close> The aggregated book identifies an order with the hash of its price; its
  refinement assumes that the hash does not collide on the prices in use. The \<^verbatim>\<open>f64\<close> operations
  carry no hypothesis: average prices and slippage are whatever the operations return.

  \<^bold>\<open>Not modelled.\<close> Positions, accounts, the portfolio, indicators, statistics and the fill models of
  the matching engine compute in \<^verbatim>\<open>f64\<close> throughout, so that a model of them would be a model of
  IEEE arithmetic or of parameters alone. The risk, data and execution engines and the backtest
  drive the cache, clients and venues, which hold the parts above and parts not modelled. The live
  node, network, adapters, persistence, infrastructure and cryptography are input and output on
  third-party crates. Of the parts that are modelled, conversions from and to \<^verbatim>\<open>f64\<close> and strings,
  serialization, display, the Python bindings, the live clock on its runtime, the book's averages and
  filtered views, and the own order book are left out.
\<close>

end
